(* ===== verification/Scheduler.thy ===== *)
theory Scheduler
  imports Prelude
begin

text \<open>
  The round-robin scheduler: \<^verbatim>\<open>src/scheduler.c\<close>. The global \<^verbatim>\<open>g_state\<close> is the record
  \<open>SchedulerState\<close>; its array of target pids is the list of all allocated cells, of which the
  first \<open>target_count\<close> are in use. Every function below is one critical section of the
  mutex, hence atomic; \<open>scheduler_stop\<close>, which locks twice around \<^verbatim>\<open>pthread_join\<close>, is the
  composition of its two sections. The answers of the kernel inside one section are
  parameters: \<open>kill0 p\<close> is the outcome of \<^verbatim>\<open>kill(p, 0)\<close> (the targets are distinct, so one
  answer per pid is all a section can see), \<open>alloc n\<close> says whether \<^verbatim>\<open>realloc\<close> to \<open>n\<close> bytes
  succeeds, \<open>create_ok\<close> whether \<^verbatim>\<open>pthread_create\<close> does.
\<close>

section \<open>State\<close>

record SchedulerState =
  enabled :: bool
  time_slice_ms :: u32
  targets :: "pid list"
  target_count :: nat
  target_capacity :: nat
  current_index :: nat
  thread_started :: bool
  stop_requested :: bool

definition g_state :: SchedulerState where
  "g_state = \<lparr>enabled = False, time_slice_ms = 200, targets = [], target_count = 0,
     target_capacity = 0, current_index = 0, thread_started = False, stop_requested = False\<rparr>"

definition SCHEDULER_PROFILE :: string where
  "SCHEDULER_PROFILE = ''round-robin (SIGSTOP/SIGCONT)''"

section \<open>Operations\<close>

definition pid_is_alive :: "(pid \<Rightarrow> unit result) \<Rightarrow> pid \<Rightarrow> bool" where
  "pid_is_alive kill0 p = (if p \<le> 0 then False else case kill0 p of Inr _ \<Rightarrow> True | Inl e \<Rightarrow> e = EPERM)"

text \<open>The time specification handed to \<^verbatim>\<open>nanosleep\<close>: seconds and nanoseconds.\<close>

definition nanosleep_ms :: "u32 \<Rightarrow> u64 \<times> u64" where
  "nanosleep_ms ms = (ucast (ms div 1000), ucast (ms mod 1000) * 1000000)"

function grow_capacity :: "nat \<Rightarrow> nat \<Rightarrow> nat" where
  "grow_capacity next_capacity desired =
     (if 0 < next_capacity \<and> next_capacity < desired then grow_capacity (next_capacity * 2) desired
      else next_capacity)"
  by pat_completeness auto
termination
  by (relation "measure (\<lambda>(c, d). d - c)") auto

declare grow_capacity.simps [simp del]

text \<open>
  \<^verbatim>\<open>realloc\<close> keeps the old cells and adds cells of unspecified content, written 0 here; the
  invariant shows that no operation reads a cell at or past \<open>target_count\<close>.
\<close>

definition ensure_capacity_locked :: "(nat \<Rightarrow> bool) \<Rightarrow> nat \<Rightarrow> SchedulerState \<Rightarrow> bool \<times> SchedulerState" where
  "ensure_capacity_locked alloc desired s =
     (if desired \<le> target_capacity s then (True, s)
      else let next_capacity = grow_capacity (if target_capacity s = 0 then 8 else target_capacity s) desired in
        if \<not> alloc (next_capacity * 4) then (False, s)
        else (True, s\<lparr>targets := targets s @ replicate (next_capacity - length (targets s)) 0,
                      target_capacity := next_capacity\<rparr>))"

function prune_loop :: "(pid \<Rightarrow> bool) \<Rightarrow> nat \<Rightarrow> nat \<Rightarrow> nat \<Rightarrow> pid list \<Rightarrow> nat \<times> pid list" where
  "prune_loop alive n i write_index xs =
     (if i < n then
        (if \<not> alive (xs ! i) then prune_loop alive n (Suc i) write_index xs
         else prune_loop alive n (Suc i) (Suc write_index) (xs[write_index := xs ! i]))
      else (write_index, xs))"
  by pat_completeness auto
termination
  by (relation "measure (\<lambda>(a, n, i, w, xs). n - i)") auto

declare prune_loop.simps [simp del]

definition prune_dead_locked :: "(pid \<Rightarrow> unit result) \<Rightarrow> SchedulerState \<Rightarrow> SchedulerState" where
  "prune_dead_locked kill0 s =
     (let (n, xs) = prune_loop (pid_is_alive kill0) (target_count s) 0 0 (targets s) in
      s\<lparr>targets := xs, target_count := n,
        current_index := (if current_index s \<ge> n then 0 else current_index s)\<rparr>)"

text \<open>
  One turn of \<^verbatim>\<open>scheduler_thread_main\<close>'s loop up to the unlock, and what the thread does
  after it: leave the loop, sleep 50 ms, or signal and sleep one slice.
\<close>

datatype turn = Leave | Nap | Switch pid pid u32

definition scheduler_turn :: "(pid \<Rightarrow> unit result) \<Rightarrow> SchedulerState \<Rightarrow> turn \<times> SchedulerState" where
  "scheduler_turn kill0 s =
     (if stop_requested s then (Leave, s)
      else let s1 = prune_dead_locked kill0 s; count = target_count s1 in
        if \<not> enabled s \<or> count < 2 then (Nap, s1)
        else let current = targets s1 ! (current_index s1 mod count);
                 i = (current_index s1 + 1) mod count;
                 nxt = targets s1 ! (i mod count)
             in (Switch current nxt (time_slice_ms s), s1\<lparr>current_index := i\<rparr>))"

fun turn_signals :: "turn \<Rightarrow> (pid \<times> int) list" where
  "turn_signals (Switch current nxt ms) =
     (if current > 0 then [(current, SIGSTOP)] else []) @ (if nxt > 0 then [(nxt, SIGCONT)] else [])"
| "turn_signals _ = []"

definition scheduler_start :: "bool \<Rightarrow> u32 option \<Rightarrow> SchedulerState \<Rightarrow> unit result \<times> SchedulerState" where
  "scheduler_start create_ok config s = (case config of
     None \<Rightarrow> (Inl EINVAL, s)
   | Some ms \<Rightarrow>
       if ms = 0 then (Inl EINVAL, s)
       else let s1 = s\<lparr>time_slice_ms := ms\<rparr> in
         if thread_started s1 then (Inr (), s1)
         else let s2 = s1\<lparr>stop_requested := False\<rparr> in
           if \<not> create_ok then (Inl EAGAIN, s2)
           else (Inr (), s2\<lparr>thread_started := True\<rparr>))"

definition scheduler_stop_request :: "SchedulerState \<Rightarrow> SchedulerState" where
  "scheduler_stop_request s = (if \<not> thread_started s then s else s\<lparr>stop_requested := True\<rparr>)"

definition scheduler_stop_finish :: "SchedulerState \<Rightarrow> SchedulerState" where
  "scheduler_stop_finish s = s\<lparr>thread_started := False, stop_requested := False\<rparr>"

definition scheduler_stop :: "SchedulerState \<Rightarrow> SchedulerState" where
  "scheduler_stop s = (if \<not> thread_started s then s else scheduler_stop_finish (scheduler_stop_request s))"

definition scheduler_set_enabled :: "bool \<Rightarrow> SchedulerState \<Rightarrow> SchedulerState" where
  "scheduler_set_enabled b s = s\<lparr>enabled := b\<rparr>"

definition scheduler_set_time_slice_ms :: "u32 \<Rightarrow> SchedulerState \<Rightarrow> unit result \<times> SchedulerState" where
  "scheduler_set_time_slice_ms ms s =
     (if ms = 0 then (Inl EINVAL, s) else (Inr (), s\<lparr>time_slice_ms := ms\<rparr>))"

definition scheduler_is_enabled :: "SchedulerState \<Rightarrow> bool" where
  "scheduler_is_enabled s = enabled s"

definition scheduler_get_time_slice_ms :: "SchedulerState \<Rightarrow> u32" where
  "scheduler_get_time_slice_ms s = time_slice_ms s"

text \<open>The search loops of the source: the first cell below \<open>n\<close> that holds the pid.\<close>

fun find_target :: "pid \<Rightarrow> pid list \<Rightarrow> nat \<Rightarrow> nat option" where
  "find_target p [] i = None"
| "find_target p (x # xs) i = (if x = p then Some i else find_target p xs (Suc i))"

definition scheduler_add_target :: "(nat \<Rightarrow> bool) \<Rightarrow> pid \<Rightarrow> SchedulerState \<Rightarrow> unit result \<times> SchedulerState" where
  "scheduler_add_target alloc p s =
     (case find_target p (take (target_count s) (targets s)) 0 of
        Some _ \<Rightarrow> (Inr (), s)
      | None \<Rightarrow> (case ensure_capacity_locked alloc (target_count s + 1) s of
            (False, s1) \<Rightarrow> (Inl ENOMEM, s1)
          | (True, s1) \<Rightarrow> (Inr (), s1\<lparr>targets := (targets s1)[target_count s1 := p],
                                     target_count := target_count s1 + 1\<rparr>)))"

definition scheduler_remove_target :: "pid \<Rightarrow> SchedulerState \<Rightarrow> bool \<times> SchedulerState" where
  "scheduler_remove_target p s =
     (let found = find_target p (take (target_count s) (targets s)) 0;
          s1 = (case found of None \<Rightarrow> s
                | Some i \<Rightarrow> s\<lparr>targets := (targets s)[i := targets s ! (target_count s - 1)],
                              target_count := target_count s - 1\<rparr>)
      in (found \<noteq> None,
          s1\<lparr>current_index := (if current_index s1 \<ge> target_count s1 then 0 else current_index s1)\<rparr>))"

definition scheduler_clear_targets :: "SchedulerState \<Rightarrow> SchedulerState" where
  "scheduler_clear_targets s = s\<lparr>target_count := 0, current_index := 0\<rparr>"

definition scheduler_profile :: string where
  "scheduler_profile = SCHEDULER_PROFILE"

section \<open>The targets in use and the invariant\<close>

definition active :: "SchedulerState \<Rightarrow> pid list" where
  "active s = take (target_count s) (targets s)"

definition sched_inv :: "SchedulerState \<Rightarrow> bool" where
  "sched_inv s \<longleftrightarrow> length (targets s) = target_capacity s \<and> target_count s \<le> target_capacity s
     \<and> distinct (active s) \<and> (current_index s < target_count s \<or> current_index s = 0)
     \<and> time_slice_ms s \<noteq> 0"

lemma sched_inv_flags [simp]:
  "sched_inv (s\<lparr>stop_requested := b\<rparr>) = sched_inv s" "sched_inv (s\<lparr>thread_started := b\<rparr>) = sched_inv s"
  "sched_inv (s\<lparr>enabled := b\<rparr>) = sched_inv s"
  by (simp_all add: sched_inv_def active_def)

lemma sched_invD:
  assumes "sched_inv s"
  shows "length (targets s) = target_capacity s" "target_count s \<le> target_capacity s"
    "distinct (active s)" "current_index s < target_count s \<or> current_index s = 0" "time_slice_ms s \<noteq> 0"
  using assms by (simp_all add: sched_inv_def)

lemma length_active: "sched_inv s \<Longrightarrow> length (active s) = target_count s"
  by (simp add: sched_inv_def active_def)

lemma active_nth: "i < target_count s \<Longrightarrow> active s ! i = targets s ! i"
  by (simp add: active_def)

lemma grow_capacity_ge: "0 < c \<Longrightarrow> desired \<le> grow_capacity c desired \<and> c \<le> grow_capacity c desired"
proof (induction c desired rule: grow_capacity.induct)
  case (1 c d)
  show ?case
  proof (cases "c < d")
    case True
    with 1 have "d \<le> grow_capacity (c * 2) d \<and> c * 2 \<le> grow_capacity (c * 2) d" by simp
    with True "1.prems" show ?thesis by (auto simp: grow_capacity.simps [of c d])
  qed (simp add: grow_capacity.simps [of c d])
qed

lemma grow_capacity_done: "desired \<le> c \<Longrightarrow> grow_capacity c desired = c"
  by (subst grow_capacity.simps) simp

lemma grow_capacity_step: "0 < c \<Longrightarrow> c < desired \<Longrightarrow> grow_capacity c desired = grow_capacity (c * 2) desired"
  by (subst grow_capacity.simps) simp

lemma grow_capacity_lt: "0 < c \<Longrightarrow> c < desired \<Longrightarrow> grow_capacity c desired < 2 * desired"
proof (induction c desired rule: grow_capacity.induct)
  case (1 c d)
  show ?case
  proof (cases "c * 2 < d")
    case True
    then have "grow_capacity (c * 2) d < 2 * d" using "1.IH" "1.prems" by simp
    then show ?thesis using grow_capacity_step [OF "1.prems"] by argo
  next
    case False
    then have "grow_capacity c d = c * 2"
      using grow_capacity_step [OF "1.prems"] grow_capacity_done [of d "c * 2"] by linarith
    with "1.prems" show ?thesis by linarith
  qed
qed

lemma find_target_None: "find_target p xs i = None \<longleftrightarrow> p \<notin> set xs"
  by (induction xs arbitrary: i) auto

lemma find_target_Some: "find_target p xs i = Some j \<Longrightarrow> i \<le> j \<and> j - i < length xs \<and> xs ! (j - i) = p"
proof (induction xs arbitrary: i)
  case (Cons x xs)
  show ?case
  proof (cases "x = p")
    case False
    with Cons.prems Cons.IH [of "Suc i"] have *: "Suc i \<le> j" "j - Suc i < length xs" "xs ! (j - Suc i) = p"
      by auto
    then have "j - i = Suc (j - Suc i)" by simp
    with * show ?thesis by simp
  qed (use Cons.prems in auto)
qed simp

subsection \<open>Pruning is filtering\<close>

lemma prune_loop_filter:
  assumes "w \<le> i" "i \<le> n" "n \<le> length xs" "prune_loop alive n i w xs = (w', xs')"
  shows "take w' xs' = take w xs @ filter alive (drop i (take n xs)) \<and> length xs' = length xs \<and> w' \<le> n"
  using assms
proof (induction alive n i w xs arbitrary: w' xs' rule: prune_loop.induct)
  case (1 alive n i w xs)
  show ?case
  proof (cases "i < n")
    case False
    then have "w' = w" "xs' = xs" "i = n"
      using "1.prems" prune_loop.simps [of alive n i w xs] by simp_all
    with "1.prems" show ?thesis by simp
  next
    case True
    have split: "drop i (take n xs) = xs ! i # drop (Suc i) (take n xs)"
      using True "1.prems"(3) by (metis Cons_nth_drop_Suc length_take min.absorb2 nth_take)
    show ?thesis
    proof (cases "alive (xs ! i)")
      case False
      have "prune_loop alive n (Suc i) w xs = (w', xs')"
        using True False "1.prems"(4) by (simp add: prune_loop.simps [of alive n i w xs])
      then show ?thesis
        using "1.IH"(1) [OF True False] True False "1.prems"(1-3) by (simp add: split)
    next
      case alive: True
      let ?ys = "xs[w := xs ! i]"
      have "take (Suc w) ?ys = take w xs @ [xs ! i]"
        using True "1.prems" by (simp add: take_Suc_conv_app_nth)
      moreover have "drop (Suc i) (take n ?ys) = drop (Suc i) (take n xs)"
        using "1.prems"(1) True by (simp add: take_update_swap drop_update_cancel)
      moreover have "prune_loop alive n (Suc i) (Suc w) ?ys = (w', xs')"
        using True alive "1.prems"(4) by (simp add: prune_loop.simps [of alive n i w xs])
      ultimately show ?thesis
        using "1.IH"(2) [of w' xs'] True alive "1.prems"(1-3) by (simp add: split)
    qed
  qed
qed

lemma prune_dead_locked_active:
  assumes "sched_inv s"
  shows "active (prune_dead_locked kill0 s) = filter (pid_is_alive kill0) (active s)"
    and "length (targets (prune_dead_locked kill0 s)) = length (targets s)"
    and "target_count (prune_dead_locked kill0 s) = length (filter (pid_is_alive kill0) (active s))"
proof -
  obtain n xs where p: "prune_loop (pid_is_alive kill0) (target_count s) 0 0 (targets s) = (n, xs)"
    by (cases "prune_loop (pid_is_alive kill0) (target_count s) 0 0 (targets s)")
  have "take n xs = filter (pid_is_alive kill0) (active s) \<and> length xs = length (targets s) \<and> n \<le> target_count s"
    using prune_loop_filter [OF _ _ _ p] assms by (simp add: active_def sched_inv_def)
  then show "active (prune_dead_locked kill0 s) = filter (pid_is_alive kill0) (active s)"
    and "length (targets (prune_dead_locked kill0 s)) = length (targets s)"
    and "target_count (prune_dead_locked kill0 s) = length (filter (pid_is_alive kill0) (active s))"
    using assms p by (auto simp: prune_dead_locked_def active_def sched_inv_def dest: arg_cong [where f = length])
qed

lemma prune_dead_locked_frame [simp]:
  "enabled (prune_dead_locked kill0 s) = enabled s"
  "time_slice_ms (prune_dead_locked kill0 s) = time_slice_ms s"
  "target_capacity (prune_dead_locked kill0 s) = target_capacity s"
  "thread_started (prune_dead_locked kill0 s) = thread_started s"
  "stop_requested (prune_dead_locked kill0 s) = stop_requested s"
  by (simp_all add: prune_dead_locked_def split: prod.split)

lemma prune_dead_locked_index:
  "current_index (prune_dead_locked kill0 s) =
     (if current_index s \<ge> target_count (prune_dead_locked kill0 s) then 0 else current_index s)"
  by (simp add: prune_dead_locked_def split: prod.split)

lemma prune_dead_locked_inv:
  assumes "sched_inv s" shows "sched_inv (prune_dead_locked kill0 s)"
proof -
  have "length (filter (pid_is_alive kill0) (active s)) \<le> target_count s"
    using length_filter_le length_active [OF assms] by metis
  with assms show ?thesis
    by (auto simp: sched_inv_def prune_dead_locked_active [OF assms] prune_dead_locked_index)
qed

subsection \<open>Adding and removing\<close>

lemma ensure_capacity_locked_frame:
  assumes "ensure_capacity_locked alloc d s = (ok, s')"
  shows "target_count s' = target_count s" "current_index s' = current_index s" "enabled s' = enabled s"
    "time_slice_ms s' = time_slice_ms s" "thread_started s' = thread_started s"
    "stop_requested s' = stop_requested s"
  using assms by (auto simp: ensure_capacity_locked_def Let_def split: if_splits)

lemma ensure_capacity_locked_room:
  assumes "sched_inv s" "ensure_capacity_locked alloc d s = (ok, s')"
  shows "take (target_count s) (targets s') = active s \<and> length (targets s') = target_capacity s'
     \<and> target_capacity s \<le> target_capacity s' \<and> (ok \<longrightarrow> d \<le> target_capacity s') \<and> (\<not> ok \<longrightarrow> s' = s)"
proof (cases "d \<le> target_capacity s")
  case True
  with assms show ?thesis by (auto simp: ensure_capacity_locked_def active_def sched_inv_def)
next
  case False
  let ?c = "if target_capacity s = 0 then 8 else target_capacity s"
  have g: "d \<le> grow_capacity ?c d" "?c \<le> grow_capacity ?c d" using grow_capacity_ge [of ?c d] by simp_all
  then have "target_capacity s \<le> grow_capacity ?c d" by (auto split: if_splits)
  with False assms g show ?thesis
    by (auto simp: ensure_capacity_locked_def Let_def active_def sched_inv_def split: if_splits)
qed

lemma scheduler_add_target_cases [consumes 2]:
  assumes "sched_inv s" "scheduler_add_target alloc p s = (r, s')"
  obtains (present) "p \<in> set (active s)" "r = Inr ()" "s' = s"
  | (no_memory) "p \<notin> set (active s)" "r = Inl ENOMEM" "s' = s"
  | (added) "p \<notin> set (active s)" "r = Inr ()" "active s' = active s @ [p]"
      "target_count s' = target_count s + 1" "length (targets s') = target_capacity s'"
      "target_count s' \<le> target_capacity s'" "current_index s' = current_index s"
      "time_slice_ms s' = time_slice_ms s" "enabled s' = enabled s"
proof (cases "p \<in> set (active s)")
  case True
  then obtain i where "find_target p (active s) 0 = Some i" using find_target_None by (metis option.exhaust)
  with assms(2) True present show thesis by (auto simp: scheduler_add_target_def active_def)
next
  case False
  then have none: "find_target p (take (target_count s) (targets s)) 0 = None"
    by (simp add: find_target_None active_def)
  obtain ok s1 where e: "ensure_capacity_locked alloc (target_count s + 1) s = (ok, s1)"
    by (cases "ensure_capacity_locked alloc (target_count s + 1) s")
  note room = ensure_capacity_locked_room [OF assms(1) e] and frame = ensure_capacity_locked_frame [OF e]
  show thesis
  proof (cases ok)
    case False
    then have "r = Inl ENOMEM" "s' = s"
      using none e assms(2) room by (simp_all add: scheduler_add_target_def)
    with no_memory \<open>p \<notin> set (active s)\<close> show thesis by blast
  next
    case True
    then have s': "s' = s1\<lparr>targets := (targets s1)[target_count s := p], target_count := target_count s + 1\<rparr>"
      and r: "r = Inr ()"
      using none e assms(2) frame by (auto simp: scheduler_add_target_def)
    have "take (target_count s + 1) ((targets s1)[target_count s := p]) = active s @ [p]"
      using room True by (simp add: take_Suc_conv_app_nth)
    then show thesis
      using added [OF False r] room True frame by (simp add: s' active_def)
  qed
qed

lemma scheduler_add_target_inv:
  assumes "sched_inv s" shows "sched_inv (snd (scheduler_add_target alloc p s))"
proof -
  obtain r s' where a: "scheduler_add_target alloc p s = (r, s')"
    by (cases "scheduler_add_target alloc p s")
  from assms a show ?thesis
    by (cases rule: scheduler_add_target_cases) (use assms a in \<open>auto simp: sched_inv_def\<close>)
qed

lemma take_butlast_update:
  assumes "i < n" "n \<le> length xs"
  shows "take (n - 1) (xs[i := xs ! (n - 1)]) = butlast ((take n xs)[i := last (take n xs)])"
proof -
  have "take n xs \<noteq> []" using assms by auto
  then have "last (take n xs) = xs ! (n - 1)" using assms by (simp add: last_conv_nth min_absorb2)
  then show ?thesis using assms by (simp add: butlast_conv_take take_update_swap)
qed

lemma swap_remove:
  assumes "distinct ys" "i < length ys"
  shows "distinct (butlast (ys[i := last ys]))" "set (butlast (ys[i := last ys])) = set ys - {ys ! i}"
proof -
  obtain zs z where ys: "ys = zs @ [z]" using assms by (cases ys rule: rev_cases) auto
  have "distinct (butlast (ys[i := last ys])) \<and> set (butlast (ys[i := last ys])) = set ys - {ys ! i}"
  proof (cases "i = length zs")
    case True
    with assms show ?thesis by (simp add: ys list_update_append)
  next
    case False
    with assms have i: "i < length zs" by (simp add: ys)
    then obtain as x bs where zs: "zs = as @ x # bs" "i = length as"
      by (metis id_take_nth_drop length_take min.absorb4)
    show ?thesis
      using assms(1) by (auto simp: ys zs list_update_append nth_append butlast_append)
  qed
  then show "distinct (butlast (ys[i := last ys]))" "set (butlast (ys[i := last ys])) = set ys - {ys ! i}"
    by simp_all
qed

lemma scheduler_remove_target_active:
  assumes "sched_inv s" "scheduler_remove_target p s = (removed, s')"
  shows "removed \<longleftrightarrow> p \<in> set (active s)" "set (active s') = set (active s) - {p}" "sched_inv s'"
    "enabled s' = enabled s" "p \<notin> set (active s) \<Longrightarrow> active s' = active s"
proof -
  note inv = sched_invD [OF assms(1)]
  have *: "(removed \<longleftrightarrow> p \<in> set (active s)) \<and> set (active s') = set (active s) - {p} \<and> sched_inv s'
    \<and> enabled s' = enabled s \<and> (p \<notin> set (active s) \<longrightarrow> active s' = active s)"
  proof (cases "find_target p (active s) 0")
    case None
    then have "p \<notin> set (active s)" by (simp add: find_target_None)
    moreover have "\<not> removed"
      "s' = s\<lparr>current_index := (if current_index s \<ge> target_count s then 0 else current_index s)\<rparr>"
      using None assms(2) unfolding scheduler_remove_target_def Let_def active_def by (auto split: if_splits)
    ultimately show ?thesis using inv by (auto simp: active_def sched_inv_def)
  next
    case (Some i)
    then have i: "i < target_count s" "active s ! i = p" "p \<in> set (active s)"
      using find_target_Some [OF Some] length_active [OF assms(1)] by (auto simp: in_set_conv_nth)
    have act: "active s' = butlast ((active s)[i := last (active s)])"
      using Some assms(2) take_butlast_update [of i "target_count s" "targets s"] i inv
      by (auto simp: scheduler_remove_target_def Let_def active_def)
    have sw: "distinct (active s')" "set (active s') = set (active s) - {p}"
      using swap_remove [OF inv(3), of i] i length_active [OF assms(1)] by (simp_all add: act)
    have "removed" and rest: "length (targets s') = target_capacity s'" "target_count s' \<le> target_capacity s'"
      "current_index s' < target_count s' \<or> current_index s' = 0" "time_slice_ms s' \<noteq> 0" "enabled s' = enabled s"
      using Some assms(2) inv by (auto simp: scheduler_remove_target_def Let_def active_def)
    with sw i show ?thesis by (simp add: sched_inv_def)
  qed
  then show "removed \<longleftrightarrow> p \<in> set (active s)" "set (active s') = set (active s) - {p}" "sched_inv s'"
    "enabled s' = enabled s" "p \<notin> set (active s) \<Longrightarrow> active s' = active s" by blast+
qed

lemma scheduler_clear_targets_inv:
  "sched_inv s \<Longrightarrow> sched_inv (scheduler_clear_targets s) \<and> active (scheduler_clear_targets s) = []"
  by (simp add: sched_inv_def scheduler_clear_targets_def active_def)

lemma scheduler_turn_inv: "sched_inv s \<Longrightarrow> sched_inv (snd (scheduler_turn kill0 s))"
proof -
  assume s: "sched_inv s"
  have "sched_inv (s1\<lparr>current_index := (current_index s1 + 1) mod target_count s1\<rparr>)"
    if "sched_inv s1" "\<not> target_count s1 < 2" for s1
    using that by (auto simp: sched_inv_def active_def)
  with prune_dead_locked_inv [OF s] s show ?thesis
    by (simp add: scheduler_turn_def Let_def)
qed

lemma simple_ops_inv:
  "sched_inv s \<Longrightarrow> sched_inv (scheduler_set_enabled b s)"
  "sched_inv s \<Longrightarrow> sched_inv (snd (scheduler_set_time_slice_ms ms s))"
  "sched_inv s \<Longrightarrow> sched_inv (snd (scheduler_start ok config s))"
  "sched_inv s \<Longrightarrow> sched_inv (scheduler_stop_request s)"
  "sched_inv s \<Longrightarrow> sched_inv (scheduler_stop_finish s)"
  "sched_inv g_state"
  by (auto simp: sched_inv_def active_def scheduler_set_enabled_def scheduler_set_time_slice_ms_def
    scheduler_start_def scheduler_stop_request_def scheduler_stop_finish_def g_state_def Let_def
    split: option.split)

section \<open>Round robin\<close>

text \<open>
  The contract of a round-robin scheduler: each turn rotates the line of targets by one. What
  follows from it is proved once, here.
\<close>

locale round_robin =
  fixes view :: "'s \<Rightarrow> 'p list"
    and step :: "'s \<Rightarrow> 's"
    and ready :: "'s \<Rightarrow> bool"
  assumes ready_step: "ready s \<Longrightarrow> ready (step s)"
    and view_step: "ready s \<Longrightarrow> view (step s) = rotate1 (view s)"
begin

lemma ready_iter: "ready s \<Longrightarrow> ready ((step ^^ n) s)"
  by (induction n) (auto intro: ready_step)

lemma view_iter: "ready s \<Longrightarrow> view ((step ^^ n) s) = rotate n (view s)"
proof (induction n)
  case (Suc n)
  then show ?case using view_step [OF ready_iter [OF Suc.prems, of n]] by simp
qed simp

lemma full_circle: "ready s \<Longrightarrow> view ((step ^^ length (view s)) s) = view s"
  by (simp add: view_iter)

lemma every_target_served:
  assumes "ready s" "p \<in> set (view s)"
  obtains n where "n < length (view s)" "hd (view ((step ^^ Suc n) s)) = p"
proof -
  let ?xs = "view s"
  obtain j where j: "j < length ?xs" "?xs ! j = p" using assms(2) by (auto simp: in_set_conv_nth)
  then have ne: "?xs \<noteq> []" by auto
  define m where "m = (if j = 0 then length ?xs else j)"
  have m: "0 < m" "m \<le> length ?xs" "m mod length ?xs = j" using j by (auto simp: m_def)
  have "hd (view ((step ^^ m) s)) = ?xs ! (m mod length ?xs)"
    using hd_rotate_conv_nth [OF ne] by (simp add: view_iter [OF assms(1)])
  moreover obtain n where "m = Suc n" using m(1) by (cases m) auto
  ultimately show thesis using that [of n] m j by simp
qed

end

definition rr_view :: "SchedulerState \<Rightarrow> pid list" where
  "rr_view s = rotate (current_index s) (active s)"

definition rr_ready :: "(pid \<Rightarrow> unit result) \<Rightarrow> SchedulerState \<Rightarrow> bool" where
  "rr_ready kill0 s \<longleftrightarrow> sched_inv s \<and> enabled s \<and> \<not> stop_requested s \<and> 2 \<le> target_count s
     \<and> (\<forall>p \<in> set (active s). pid_is_alive kill0 p)"

lemma prune_all_alive:
  assumes "sched_inv s" "\<forall>p \<in> set (active s). pid_is_alive kill0 p"
  shows "active (prune_dead_locked kill0 s) = active s" "target_count (prune_dead_locked kill0 s) = target_count s"
    "current_index (prune_dead_locked kill0 s) = current_index s"
proof -
  have "filter (pid_is_alive kill0) (active s) = active s" using assms(2) by (simp add: filter_id_conv)
  then show "active (prune_dead_locked kill0 s) = active s" "target_count (prune_dead_locked kill0 s) = target_count s"
    "current_index (prune_dead_locked kill0 s) = current_index s"
    using sched_invD(4) [OF assms(1)] prune_dead_locked_active [OF assms(1), of kill0]
    by (auto simp: length_active [OF assms(1)] prune_dead_locked_index)
qed

lemma rr_turn:
  assumes "rr_ready kill0 s"
  shows "rr_view (snd (scheduler_turn kill0 s)) = rotate1 (rr_view s)"
    and "fst (scheduler_turn kill0 s) =
           Switch (hd (rr_view s)) (hd (rotate1 (rr_view s))) (time_slice_ms s)"
    and "active (snd (scheduler_turn kill0 s)) = active s"
    and "rr_ready kill0 (snd (scheduler_turn kill0 s))"
proof -
  let ?s1 = "prune_dead_locked kill0 s"
  let ?n = "target_count s"
  let ?i = "current_index s"
  have inv: "sched_inv s" and n: "2 \<le> ?n" using assms by (simp_all add: rr_ready_def)
  note prune = prune_all_alive [OF inv, of kill0]
  have alive: "\<forall>p \<in> set (active s). pid_is_alive kill0 p" using assms by (simp add: rr_ready_def)
  note prune = prune_all_alive [OF inv alive]
  have len: "length (active s) = ?n" by (rule length_active [OF inv])
  then have ne: "active s \<noteq> []" using n by auto
  have nth: "j < ?n \<Longrightarrow> targets ?s1 ! j = active s ! j" for j
    using prune(1,2) by (metis active_nth)
  have turn: "scheduler_turn kill0 s = (Switch (active s ! (?i mod ?n)) (active s ! ((?i + 1) mod ?n))
      (time_slice_ms s), ?s1\<lparr>current_index := (?i + 1) mod ?n\<rparr>)"
    using assms n prune by (simp add: scheduler_turn_def Let_def rr_ready_def nth)
  have act: "active (snd (scheduler_turn kill0 s)) = active s"
    using prune(1) by (simp add: turn active_def)
  have rot: "rotate ((?i + 1) mod ?n) (active s) = rotate1 (rr_view s)"
    by (simp add: rr_view_def rotate_conv_mod [of "Suc ?i"] flip: len rotate_Suc)
  show view: "rr_view (snd (scheduler_turn kill0 s)) = rotate1 (rr_view s)"
    using act rot by (simp add: rr_view_def [of "snd (scheduler_turn kill0 s)"]) (simp add: turn)
  have "hd (rr_view s) = active s ! (?i mod ?n)" "hd (rotate1 (rr_view s)) = active s ! ((?i + 1) mod ?n)"
    unfolding rot [symmetric] using hd_rotate_conv_nth [OF ne] by (simp_all add: rr_view_def len)
  then show "fst (scheduler_turn kill0 s) = Switch (hd (rr_view s)) (hd (rotate1 (rr_view s))) (time_slice_ms s)"
    by (simp add: turn)
  show "active (snd (scheduler_turn kill0 s)) = active s" by (rule act)
  show "rr_ready kill0 (snd (scheduler_turn kill0 s))"
    using assms act scheduler_turn_inv [OF inv, of kill0] prune(2) by (simp add: rr_ready_def) (simp add: turn)
qed

interpretation rr: round_robin rr_view "\<lambda>s. snd (scheduler_turn kill0 s)" "rr_ready kill0" for kill0
  by unfold_locales (simp_all add: rr_turn)

section \<open>The target set as the manager uses it\<close>

text \<open>
  The container manager relies on three operations only: forget all targets, add one, remove
  one. A provider keeps an invariant under which they behave like operations on a set.
\<close>

locale target_set =
  fixes add :: "'p \<Rightarrow> 's \<Rightarrow> 's"
    and remove :: "'p \<Rightarrow> 's \<Rightarrow> 's"
    and clear :: "'s \<Rightarrow> 's"
    and members :: "'s \<Rightarrow> 'p set"
    and inv :: "'s \<Rightarrow> bool"
  assumes add_members: "inv s \<Longrightarrow> members (add p s) = insert p (members s)"
    and remove_members: "inv s \<Longrightarrow> members (remove p s) = members s - {p}"
    and clear_members: "inv s \<Longrightarrow> members (clear s) = {}"
    and add_inv: "inv s \<Longrightarrow> inv (add p s)"
    and remove_inv: "inv s \<Longrightarrow> inv (remove p s)"
    and clear_inv: "inv s \<Longrightarrow> inv (clear s)"
begin

lemma fold_add: "inv s \<Longrightarrow> inv (fold add ps s) \<and> members (fold add ps s) = members s \<union> set ps"
  by (induction ps arbitrary: s) (auto simp: add_inv add_members)

lemma rebuild: "inv s \<Longrightarrow> inv (fold add ps (clear s)) \<and> members (fold add ps (clear s)) = set ps"
  using fold_add [OF clear_inv, of s ps] by (simp add: clear_members)

end

lemma scheduler_add_target_enough_memory:
  assumes "sched_inv s"
  shows "set (active (snd (scheduler_add_target (\<lambda>_. True) p s))) = insert p (set (active s))"
proof -
  obtain r s' where a: "scheduler_add_target (\<lambda>_. True) p s = (r, s')"
    by (cases "scheduler_add_target (\<lambda>_. True) p s")
  from assms a show ?thesis
  proof (cases rule: scheduler_add_target_cases)
    case no_memory
    with a have False
      by (auto simp: scheduler_add_target_def ensure_capacity_locked_def Let_def split: option.splits if_splits)
    then show ?thesis ..
  qed (use a in auto)
qed

interpretation ts: target_set "\<lambda>p s. snd (scheduler_add_target (\<lambda>_. True) p s)"
  "\<lambda>p s. snd (scheduler_remove_target p s)" scheduler_clear_targets "\<lambda>s. set (active s)" sched_inv
proof
  fix s p
  assume inv: "sched_inv s"
  obtain b s' where r: "scheduler_remove_target p s = (b, s')" by (cases "scheduler_remove_target p s")
  note rem = scheduler_remove_target_active [OF inv r]
  show "set (active (snd (scheduler_add_target (\<lambda>_. True) p s))) = insert p (set (active s))"
    by (rule scheduler_add_target_enough_memory [OF inv])
  show "set (active (snd (scheduler_remove_target p s))) = set (active s) - {p}" using r rem by simp
  show "sched_inv (snd (scheduler_add_target (\<lambda>_. True) p s))" by (rule scheduler_add_target_inv [OF inv])
  show "sched_inv (snd (scheduler_remove_target p s))" using r rem by simp
next
  fix s
  assume inv: "sched_inv s"
  show "set (active (scheduler_clear_targets s)) = {}" "sched_inv (scheduler_clear_targets s)"
    using scheduler_clear_targets_inv [OF inv] by simp_all
qed

section \<open>Properties\<close>

text \<open>
  (C8) The turn of the scheduler thread refines an abstract round robin: with the scheduler
  on and at least two live targets, a turn stops the process at the head of the line, resumes
  the one behind it, and rotates the line by one; no target is lost or duplicated.
\<close>

theorem scheduler_turn_rotates:
  assumes "rr_ready kill0 s"
  shows "rr_view (snd (scheduler_turn kill0 s)) = rotate1 (rr_view s)
    \<and> fst (scheduler_turn kill0 s) = Switch (rr_view s ! 0) (rr_view s ! 1) (time_slice_ms s)
    \<and> active (snd (scheduler_turn kill0 s)) = active s"
proof -
  have "2 \<le> length (rr_view s)"
    using assms by (simp add: rr_view_def rr_ready_def length_active)
  then obtain a b xs where "rr_view s = a # b # xs" by (cases "rr_view s"; cases "tl (rr_view s)") auto
  then show ?thesis using rr_turn [OF assms] by simp
qed

definition two_targets :: SchedulerState where
  "two_targets = snd (scheduler_add_target (\<lambda>_. True) 22 (snd (scheduler_add_target (\<lambda>_. True) 11
     (scheduler_set_enabled True g_state))))"

lemma two_targets_eq:
  "two_targets = \<lparr>enabled = True, time_slice_ms = 200, targets = [11, 22, 0, 0, 0, 0, 0, 0],
     target_count = 2, target_capacity = 8, current_index = 0, thread_started = False, stop_requested = False\<rparr>"
  by (simp add: two_targets_def scheduler_add_target_def ensure_capacity_locked_def g_state_def
    scheduler_set_enabled_def grow_capacity.simps eval_nat_numeral Let_def)

lemma two_targets_ready: "rr_ready (\<lambda>_. Inr ()) two_targets"
  by (simp add: rr_ready_def sched_inv_def two_targets_eq active_def pid_is_alive_def)

theorem scheduler_turn_rotates_witness:
  "rr_view two_targets = [11, 22]
   \<and> rr_view (snd (scheduler_turn (\<lambda>_. Inr ()) two_targets)) = [22, 11]
   \<and> fst (scheduler_turn (\<lambda>_. Inr ()) two_targets) = Switch 11 22 200"
proof -
  have "rr_view two_targets = [11, 22]" by (simp add: rr_view_def active_def two_targets_eq)
  then show ?thesis
    using scheduler_turn_rotates [OF two_targets_ready] by (simp add: two_targets_eq)
qed



end
