(* ===== verification/Sched_Threads.thy ===== *)
theory Sched_Threads
  imports Scheduler
begin

text \<open>
  The scheduler thread beside the main thread. \<^verbatim>\<open>scheduler_thread_main\<close> releases the mutex
  before it sends its signals and before it sleeps, so its loop is split at those points: at
  the top of the loop, with signals still to send, or gone. The main thread's calls are the
  critical sections of \<^verbatim>\<open>scheduler.c\<close> and the signals \<^verbatim>\<open>container.c\<close> sends itself; they may fall
  between any two steps of the thread. The processes are represented by the set of those
  that are stopped.
\<close>

section \<open>The system and its steps\<close>

datatype thread_pc = NoThread | AtTop | Pending "(pid \<times> int) list" | Exited

record system =
  sstate :: SchedulerState
  thr :: thread_pc
  stopped :: "pid set"

definition deliver :: "pid \<times> int \<Rightarrow> pid set \<Rightarrow> pid set" where
  "deliver pg S = (let (p, sig) = pg in
     if sig = SIGSTOP then insert p S else if sig = SIGCONT then S - {p} else S)"

text \<open>One step of \<^verbatim>\<open>scheduler_thread_main\<close>: a turn under the lock, one signal, or the end of a sleep.\<close>

fun scheduler_thread_main :: "(pid \<Rightarrow> unit result) \<Rightarrow> system \<Rightarrow> system" where
  "scheduler_thread_main kill0 y = (case thr y of
     AtTop \<Rightarrow> (case scheduler_turn kill0 (sstate y) of
         (Leave, s) \<Rightarrow> y\<lparr>sstate := s, thr := Exited\<rparr>
       | (t, s) \<Rightarrow> y\<lparr>sstate := s, thr := Pending (turn_signals t)\<rparr>)
   | Pending (pg # pgs) \<Rightarrow> y\<lparr>stopped := deliver pg (stopped y), thr := Pending pgs\<rparr>
   | Pending [] \<Rightarrow> y\<lparr>thr := AtTop\<rparr>
   | _ \<Rightarrow> y)"

declare scheduler_thread_main.simps [simp del]

inductive main_step :: "system \<Rightarrow> system \<Rightarrow> bool" where
  start: "scheduler_start ok config (sstate y) = (r, s) \<Longrightarrow>
    main_step y (y\<lparr>sstate := s,
      thr := (if thread_started s \<and> \<not> thread_started (sstate y) then AtTop else thr y)\<rparr>)"
| stop_request: "main_step y (y\<lparr>sstate := scheduler_stop_request (sstate y)\<rparr>)"
| stop_join: "thr y = Exited \<Longrightarrow>
    main_step y (y\<lparr>sstate := scheduler_stop_finish (sstate y), thr := NoThread\<rparr>)"
| set_enabled: "main_step y (y\<lparr>sstate := scheduler_set_enabled b (sstate y)\<rparr>)"
| set_slice: "main_step y (y\<lparr>sstate := snd (scheduler_set_time_slice_ms ms (sstate y))\<rparr>)"
| add: "main_step y (y\<lparr>sstate := snd (scheduler_add_target alloc p (sstate y))\<rparr>)"
| remove: "main_step y (y\<lparr>sstate := snd (scheduler_remove_target p (sstate y))\<rparr>)"
| clear: "main_step y (y\<lparr>sstate := scheduler_clear_targets (sstate y)\<rparr>)"
| signal: "main_step y (y\<lparr>stopped := deliver pg (stopped y)\<rparr>)"

inductive sys_step :: "system \<Rightarrow> system \<Rightarrow> bool" where
  main: "main_step y z \<Longrightarrow> sys_step y z"
| thread: "sys_step y (scheduler_thread_main kill0 y)"

definition init_system :: system where
  "init_system = \<lparr>sstate = g_state, thr = NoThread, stopped = {}\<rparr>"

inductive sys_reachable :: "system \<Rightarrow> bool" where
  init: "sys_reachable init_system"
| step: "sys_reachable y \<Longrightarrow> sys_step y z \<Longrightarrow> sys_reachable z"

inductive_cases sys_stepE [elim!]: "sys_step y z"

section \<open>Safety\<close>

definition thread_inv :: "system \<Rightarrow> bool" where
  "thread_inv y \<longleftrightarrow> sched_inv (sstate y)
     \<and> (thread_started (sstate y) \<longleftrightarrow> thr y \<noteq> NoThread)
     \<and> (\<forall>pgs. thr y = Pending pgs \<longrightarrow> length pgs \<le> 2)
     \<and> (thr y = Exited \<longrightarrow> stop_requested (sstate y))"

lemma flags_frame [simp]:
  "thread_started (snd (scheduler_turn kill0 s)) = thread_started s"
  "stop_requested (snd (scheduler_turn kill0 s)) = stop_requested s"
  "thread_started (snd (scheduler_remove_target p s)) = thread_started s"
  "stop_requested (snd (scheduler_remove_target p s)) = stop_requested s"
  by (simp_all add: scheduler_turn_def scheduler_remove_target_def Let_def split: option.split)

lemma add_flags_frame [simp]:
  "thread_started (snd (scheduler_add_target alloc p s)) = thread_started s"
  "stop_requested (snd (scheduler_add_target alloc p s)) = stop_requested s"
proof -
  obtain ok s' where e: "ensure_capacity_locked alloc (Suc (target_count s)) s = (ok, s')"
    by (cases "ensure_capacity_locked alloc (Suc (target_count s)) s")
  note ensure_capacity_locked_frame [OF e]
  then show "thread_started (snd (scheduler_add_target alloc p s)) = thread_started s"
    "stop_requested (snd (scheduler_add_target alloc p s)) = stop_requested s"
    by (simp_all add: scheduler_add_target_def e split: option.split bool.split)
qed

lemma length_turn_signals: "length (turn_signals t) \<le> 2"
  by (cases t) auto

lemma turn_Leave: "fst (scheduler_turn kill0 s) = Leave \<longleftrightarrow> stop_requested s"
  by (simp add: scheduler_turn_def Let_def)

lemma thread_AtTop:
  "thr y = AtTop \<Longrightarrow> scheduler_thread_main kill0 y =
     y\<lparr>sstate := snd (scheduler_turn kill0 (sstate y)),
       thr := (if stop_requested (sstate y) then Exited
               else Pending (turn_signals (fst (scheduler_turn kill0 (sstate y)))))\<rparr>"
  using turn_Leave [of kill0 "sstate y"]
  by (cases "scheduler_turn kill0 (sstate y)")
     (auto simp: scheduler_thread_main.simps split: turn.split)

lemma thread_Pending:
  "thr y = Pending (pg # pgs) \<Longrightarrow>
     scheduler_thread_main kill0 y = y\<lparr>stopped := deliver pg (stopped y), thr := Pending pgs\<rparr>"
  "thr y = Pending [] \<Longrightarrow> scheduler_thread_main kill0 y = y\<lparr>thr := AtTop\<rparr>"
  "thr y = Exited \<Longrightarrow> scheduler_thread_main kill0 y = y"
  "thr y = NoThread \<Longrightarrow> scheduler_thread_main kill0 y = y"
  by (simp_all add: scheduler_thread_main.simps)

lemma thread_inv_thread:
  assumes "thread_inv y" shows "thread_inv (scheduler_thread_main kill0 y)"
proof (cases "thr y")
  case AtTop
  with assms show ?thesis
    by (auto simp: thread_inv_def thread_AtTop scheduler_turn_inv length_turn_signals)
next
  case (Pending pgs)
  with assms show ?thesis by (cases pgs) (auto simp: thread_inv_def thread_Pending)
qed (use assms in \<open>simp_all add: thread_Pending\<close>)

lemma start_flags:
  assumes "scheduler_start ok config s = (r, s')"
  shows "thread_started s \<Longrightarrow> thread_started s' \<and> stop_requested s' = stop_requested s"
  using assms by (auto simp: scheduler_start_def Let_def split: option.splits if_splits)

lemma thread_inv_main:
  assumes "thread_inv y" "main_step y z" shows "thread_inv z"
  using assms(2)
proof cases
  case (start ok config r s)
  have "sched_inv s" using simple_ops_inv(3) [of "sstate y" ok config] start(2) assms(1) by (simp add: thread_inv_def)
  then show ?thesis
    using start_flags [OF start(2)] assms(1) by (auto simp: start(1) thread_inv_def)
next
  case (remove p)
  obtain b s' where "scheduler_remove_target p (sstate y) = (b, s')"
    by (cases "scheduler_remove_target p (sstate y)")
  then have "sched_inv (snd (scheduler_remove_target p (sstate y)))"
    using scheduler_remove_target_active(3) [of "sstate y" p b s'] assms(1) by (simp add: thread_inv_def)
  then show ?thesis using assms(1) by (auto simp: remove thread_inv_def)
next
  case (set_slice ms)
  then show ?thesis using assms(1) simple_ops_inv(2) [of "sstate y" ms]
    by (auto simp: thread_inv_def scheduler_set_time_slice_ms_def)
next
  case clear
  then show ?thesis using assms(1) scheduler_clear_targets_inv [of "sstate y"]
    by (auto simp: thread_inv_def scheduler_clear_targets_def)
qed (use assms(1) in \<open>auto simp: thread_inv_def simple_ops_inv scheduler_add_target_inv
  scheduler_stop_request_def scheduler_stop_finish_def scheduler_set_enabled_def\<close>)

lemma reachable_thread_inv: "sys_reachable y \<Longrightarrow> thread_inv y"
proof (induction rule: sys_reachable.induct)
  case init
  show ?case using simple_ops_inv(6) by (simp add: thread_inv_def init_system_def) (simp add: g_state_def)
next
  case (step y z)
  then show ?case by (blast intro: thread_inv_main thread_inv_thread)
qed

section \<open>One target runs at a time\<close>

definition exclusive :: "pid set \<Rightarrow> SchedulerState \<Rightarrow> bool" where
  "exclusive S s \<longleftrightarrow> {p \<in> set (active s). p \<notin> S} = {hd (rr_view s)}"

fun run_turns :: "(pid \<Rightarrow> unit result) \<Rightarrow> nat \<Rightarrow> SchedulerState \<times> pid set \<Rightarrow> SchedulerState \<times> pid set" where
  "run_turns kill0 0 x = x"
| "run_turns kill0 (Suc n) (s, S) =
     (let (t, s') = scheduler_turn kill0 s in run_turns kill0 n (s', fold deliver (turn_signals t) S))"

lemma exclusive_turn:
  assumes "rr_ready kill0 s" "exclusive S s"
  shows "exclusive (fold deliver (turn_signals (fst (scheduler_turn kill0 s))) S) (snd (scheduler_turn kill0 s))"
proof -
  obtain a b xs where v: "rr_view s = a # b # xs"
    using assms(1) by (cases "rr_view s"; cases "tl (rr_view s)")
      (auto simp: rr_view_def rr_ready_def dest: arg_cong [where f = length] simp: length_active)
  have set_v: "set (active s) = set (rr_view s)" by (simp add: rr_view_def)
  have "distinct (rr_view s)" using assms(1) by (simp add: rr_view_def rr_ready_def sched_inv_def)
  then have ab: "a \<noteq> b" by (simp add: v)
  have "0 < p" if "p \<in> set (rr_view s)" for p
    using assms(1) that by (auto simp: rr_ready_def set_v pid_is_alive_def split: if_splits)
  then have pos: "0 < a" "0 < b" by (simp_all add: v)
  have "exclusive ((insert a S) - {b}) (snd (scheduler_turn kill0 s))"
    using assms(2) ab rr_turn [OF assms(1)] by (auto simp: exclusive_def v set_v)
  then show ?thesis using rr_turn(2) [OF assms(1)] pos by (simp add: v deliver_def)
qed

lemma run_turns_exclusive:
  "rr_ready kill0 s \<Longrightarrow> exclusive S s \<Longrightarrow> run_turns kill0 n (s, S) = (s', S') \<Longrightarrow> exclusive S' s' \<and> rr_ready kill0 s'"
proof (induction n arbitrary: s S)
  case (Suc n)
  show ?case
    using Suc.IH [OF rr_turn(4) [OF Suc.prems(1)] exclusive_turn [OF Suc.prems(1,2)]] Suc.prems(3)
    by (simp add: split_beta Let_def)
qed simp

lemma lone_target_quiet:
  assumes "sched_inv s" "target_count s \<le> 1"
  shows "turn_signals (fst (scheduler_turn kill0 s)) = []"
    "sched_inv (snd (scheduler_turn kill0 s))" "target_count (snd (scheduler_turn kill0 s)) \<le> 1"
proof -
  have "target_count (prune_dead_locked kill0 s) \<le> 1"
    using prune_dead_locked_active(3) [OF assms(1), of kill0] length_filter_le [of "pid_is_alive kill0" "active s"]
      length_active [OF assms(1)] assms(2) by simp
  then show "turn_signals (fst (scheduler_turn kill0 s)) = []" "target_count (snd (scheduler_turn kill0 s)) \<le> 1"
    using assms(2) by (simp_all add: scheduler_turn_def Let_def)
  show "sched_inv (snd (scheduler_turn kill0 s))" by (rule scheduler_turn_inv [OF assms(1)])
qed

lemma run_turns_quiet:
  "sched_inv s \<Longrightarrow> target_count s \<le> 1 \<Longrightarrow> snd (run_turns kill0 n (s, S)) = S"
proof (induction n arbitrary: s S)
  case (Suc n)
  show ?case
    using Suc.IH [OF lone_target_quiet(2,3) [OF Suc.prems]] lone_target_quiet(1) [OF Suc.prems]
    by (simp add: split_beta Let_def)
qed simp

section \<open>Properties\<close>

text \<open>
  (C7) In every state the two threads can reach, however their steps interleave: the pid
  array is as long as its recorded capacity and holds distinct pids below \<open>target_count\<close>, the
  index is in range, the time slice is not 0, a thread exists exactly when
  \<^verbatim>\<open>thread_started\<close> is set, and the thread has ended only after a stop request.
\<close>

theorem scheduler_safe:
  assumes "sys_reachable y"
  shows "length (targets (sstate y)) = target_capacity (sstate y)
    \<and> target_count (sstate y) \<le> target_capacity (sstate y)
    \<and> distinct (take (target_count (sstate y)) (targets (sstate y)))
    \<and> (current_index (sstate y) < target_count (sstate y) \<or> current_index (sstate y) = 0)
    \<and> time_slice_ms (sstate y) \<noteq> 0
    \<and> (thread_started (sstate y) \<longleftrightarrow> thr y \<noteq> NoThread)
    \<and> (thr y = Exited \<longrightarrow> stop_requested (sstate y))"
  using reachable_thread_inv [OF assms] by (simp add: thread_inv_def sched_inv_def active_def)

definition demo_started :: system where
  "demo_started = init_system\<lparr>sstate := g_state\<lparr>thread_started := True\<rparr>, thr := AtTop\<rparr>"

lemma demo_started_reachable: "sys_reachable demo_started"
proof -
  have "sys_step init_system (init_system\<lparr>sstate := g_state\<lparr>thread_started := True\<rparr>,
      thr := (if thread_started (g_state\<lparr>thread_started := True\<rparr>) \<and> \<not> thread_started (sstate init_system)
              then AtTop else thr init_system)\<rparr>)"
    by (rule sys_step.main, rule main_step.start [of True "Some 200" _ "Inr ()"])
       (simp add: init_system_def scheduler_start_def g_state_def)
  then have "sys_step init_system demo_started" by (simp add: demo_started_def init_system_def g_state_def)
  then show ?thesis by (rule sys_reachable.step [OF sys_reachable.init])
qed

theorem scheduler_safe_witness:
  "thread_started (sstate demo_started) \<and> thr demo_started \<noteq> NoThread \<and> time_slice_ms (sstate demo_started) \<noteq> 0"
  using scheduler_safe [OF demo_started_reachable] by (simp add: demo_started_def)

text \<open>
  (C10) Mutual exclusion between containers: if exactly the target at the head of the line is
  running when the scheduler is on and the targets stay alive, then after any number of
  turns again exactly one target is running, the one at the head of the line.
\<close>

theorem scheduler_one_runs:
  assumes "rr_ready kill0 s" and "exclusive S s" and "run_turns kill0 n (s, S) = (s', S')"
  shows "{p \<in> set (active s'). p \<notin> S'} = {hd (rr_view s')}"
  using run_turns_exclusive [OF assms] by (simp add: exclusive_def)

theorem scheduler_one_runs_witness:
  "{p \<in> set (active (fst (run_turns (\<lambda>_. Inr ()) 3 (two_targets, {22})))).
      p \<notin> snd (run_turns (\<lambda>_. Inr ()) 3 (two_targets, {22}))}
   = {hd (rr_view (fst (run_turns (\<lambda>_. Inr ()) 3 (two_targets, {22}))))}"
proof -
  have "exclusive {22} two_targets"
    by (auto simp: exclusive_def two_targets_eq active_def rr_view_def)
  from scheduler_one_runs [OF two_targets_ready this surjective_pairing] show ?thesis .
qed

text \<open>
  (C22) Stopping ends: once \<^verbatim>\<open>stop_requested\<close> is set, the scheduler thread leaves its loop
  within four of its own steps (at most two signals, the end of a sleep, one turn), so
  \<^verbatim>\<open>pthread_join\<close> in \<^verbatim>\<open>scheduler_stop\<close> returns.
\<close>

theorem scheduler_stop_joins:
  assumes "sys_reachable y" and "stop_requested (sstate y)" and "thr y \<noteq> NoThread"
  shows "thr ((scheduler_thread_main kill0 ^^ 4) y) = Exited"
proof -
  have four: "(scheduler_thread_main kill0 ^^ 4) y = scheduler_thread_main kill0 (scheduler_thread_main kill0
      (scheduler_thread_main kill0 (scheduler_thread_main kill0 y)))"
    by (simp add: eval_nat_numeral)
  show ?thesis
  proof (cases "thr y")
    case (Pending pgs)
    then have "length pgs \<le> 2" using reachable_thread_inv [OF assms(1)] by (simp add: thread_inv_def)
    then consider "pgs = []" | a where "pgs = [a]" | a b where "pgs = [a, b]"
      by (cases pgs; cases "tl pgs") auto
    then show ?thesis
      by cases (use Pending assms(2) in \<open>simp_all add: four thread_Pending thread_AtTop\<close>)
  qed (use assms in \<open>simp_all add: four thread_Pending thread_AtTop\<close>)
qed

definition demo_stopping :: system where
  "demo_stopping = demo_started\<lparr>sstate := scheduler_stop_request (sstate demo_started)\<rparr>"

theorem scheduler_stop_joins_witness: "thr ((scheduler_thread_main (\<lambda>_. Inr ()) ^^ 4) demo_stopping) = Exited"
proof (rule scheduler_stop_joins)
  show "sys_reachable demo_stopping"
    unfolding demo_stopping_def
    by (rule sys_reachable.step [OF demo_started_reachable]) (rule sys_step.main, rule main_step.stop_request)
  show "stop_requested (sstate demo_stopping)" "thr demo_stopping \<noteq> NoThread"
    by (simp_all add: demo_stopping_def demo_started_def scheduler_stop_request_def)
qed



lemma reach_main: "sys_reachable y \<Longrightarrow> main_step y z \<Longrightarrow> sys_reachable z"
  by (rule sys_reachable.step) (auto intro: sys_step.main)

lemma reach_thread: "sys_reachable y \<Longrightarrow> sys_reachable (scheduler_thread_main kill0 y)"
  by (rule sys_reachable.step) (auto intro: sys_step.thread)

definition off_quiet :: "system \<Rightarrow> bool" where
  "off_quiet y \<longleftrightarrow> \<not> enabled (sstate y) \<and> \<not> stop_requested (sstate y) \<and> (thr y = AtTop \<or> thr y = Pending [])"

lemma off_quiet_step:
  assumes "off_quiet y"
  shows "off_quiet (scheduler_thread_main kill0 y)" "stopped (scheduler_thread_main kill0 y) = stopped y"
proof -
  have "scheduler_turn kill0 (sstate y) = (Nap, prune_dead_locked kill0 (sstate y))"
    using assms by (simp add: scheduler_turn_def off_quiet_def Let_def)
  then show "off_quiet (scheduler_thread_main kill0 y)" "stopped (scheduler_thread_main kill0 y) = stopped y"
    using assms thread_AtTop [of y kill0] thread_Pending(2) [of y kill0] by (auto simp: off_quiet_def)
qed

lemma off_stays_quiet:
  "off_quiet y \<Longrightarrow> off_quiet ((scheduler_thread_main kill0 ^^ n) y)
     \<and> stopped ((scheduler_thread_main kill0 ^^ n) y) = stopped y"
  by (induction n) (simp_all add: off_quiet_step)

definition race_before :: system where
  "race_before = demo_started\<lparr>sstate := two_targets\<lparr>thread_started := True\<rparr>\<rparr>"

definition race_end :: system where
  "race_end = \<lparr>sstate = two_targets\<lparr>thread_started := True, enabled := False\<rparr>, thr = Pending [], stopped = {11}\<rparr>"

lemmas race_eval = scheduler_add_target_def ensure_capacity_locked_def scheduler_set_enabled_def
  scheduler_clear_targets_def grow_capacity.simps eval_nat_numeral Let_def

lemma race_before_reachable: "sys_reachable race_before"
proof -
  note r1 = reach_main [OF demo_started_reachable main_step.set_enabled [of _ True]]
  note r2 = reach_main [OF r1 main_step.add [of _ "\<lambda>_. True" 11]]
  note r3 = reach_main [OF r2 main_step.add [of _ "\<lambda>_. True" 22]]
  from r3 show ?thesis
    by (simp add: race_before_def demo_started_def init_system_def g_state_def two_targets_eq race_eval)
qed

lemma race_switch:
  "sys_reachable (race_before\<lparr>sstate := (sstate race_before)\<lparr>current_index := 1\<rparr>,
     thr := Pending [(11, SIGSTOP), (22, SIGCONT)]\<rparr>)"
proof -
  have "prune_loop (pid_is_alive (\<lambda>_. Inr ())) 2 0 0 [11, 22, 0, 0, 0, 0, 0, 0] = (2, [11, 22, 0, 0, 0, 0, 0, 0])"
    by (simp add: prune_loop.simps pid_is_alive_def eval_nat_numeral)
  then have "scheduler_thread_main (\<lambda>_. Inr ()) race_before =
      race_before\<lparr>sstate := (sstate race_before)\<lparr>current_index := 1\<rparr>, thr := Pending [(11, SIGSTOP), (22, SIGCONT)]\<rparr>"
    by (simp add: scheduler_thread_main.simps race_before_def demo_started_def two_targets_eq
      scheduler_turn_def prune_dead_locked_def Let_def)
  with reach_thread [OF race_before_reachable, of "\<lambda>_. Inr ()"] show ?thesis by simp
qed

lemma race_end_reachable: "sys_reachable race_end"
proof -
  note m1 = reach_main [OF race_switch main_step.set_enabled [of _ False]]
  note m2 = reach_main [OF m1 main_step.clear]
  note m3 = reach_main [OF m2 main_step.add [of _ "\<lambda>_. True" 11]]
  note m4 = reach_main [OF m3 main_step.add [of _ "\<lambda>_. True" 22]]
  note m5 = reach_main [OF m4 main_step.signal [of _ "(11, SIGCONT)"]]
  note m6 = reach_main [OF m5 main_step.signal [of _ "(22, SIGCONT)"]]
  note t1 = reach_thread [OF m6, of "\<lambda>_. Inr ()"]
  note t2 = reach_thread [OF t1, of "\<lambda>_. Inr ()"]
  from t2 show ?thesis
    by (simp add: race_end_def race_before_def demo_started_def init_system_def two_targets_eq race_eval
      scheduler_thread_main.simps deliver_def)
qed

text \<open>
  (C38) A race leaves a container paused with the scheduler off. Steps of the two threads
  lead from the start to a state where the main thread has switched the scheduler off,
  rebuilt the targets and sent \<^verbatim>\<open>SIGCONT\<close> to every container, the thread has no signal left
  to send, and yet target 11 is stopped, and no later step of the thread resumes it: the
  thread had chosen it under the lock and signalled it after the unlock.
\<close>

theorem scheduler_off_race:
  "sys_reachable race_end \<and> \<not> enabled (sstate race_end) \<and> thr race_end = Pending []
   \<and> active (sstate race_end) = [11, 22]
   \<and> 11 \<in> stopped ((scheduler_thread_main kill0 ^^ n) race_end)"
proof -
  have "off_quiet race_end" by (simp add: off_quiet_def race_end_def two_targets_eq)
  then have "stopped ((scheduler_thread_main kill0 ^^ n) race_end) = stopped race_end"
    using off_stays_quiet by blast
  moreover have "\<not> enabled (sstate race_end)" "thr race_end = Pending []" "active (sstate race_end) = [11, 22]"
    "11 \<in> stopped race_end"
    by (simp_all add: race_end_def two_targets_eq active_def)
  ultimately show ?thesis using race_end_reachable by simp
qed

definition four_targets :: SchedulerState where
  "four_targets = \<lparr>enabled = True, time_slice_ms = 200, targets = [11, 22, 33, 44, 0, 0, 0, 0],
     target_count = 4, target_capacity = 8, current_index = 2, thread_started = True, stop_requested = False\<rparr>"

definition gone_11 :: "pid \<Rightarrow> unit result" where
  "gone_11 p = (if p = 11 then Inl ESRCH else Inr ())"


end
