(* ===== verification/CString.thy ===== *)
theory CString
  imports Prelude
begin

text \<open>
  The part of the C library the sources use on text. A C string is a \<^typ>\<open>string\<close> without
  its terminating NUL; a pointer into a string is the suffix it points at, so that pointer
  differences are differences of lengths. A buffer of \<open>n\<close> bytes filled by
  \<^verbatim>\<open>snprintf\<close> holds \<open>take (n - 1)\<close> of the text. Numbers are read and written in base ten
  with the widths of the x86-64 Linux ABI (\<^verbatim>\<open>int\<close> 32 bits, \<^verbatim>\<open>long\<close> 64 bits); out-of-range
  input saturates as \<^verbatim>\<open>strtol\<close> and \<^verbatim>\<open>strtoul\<close> document.
\<close>

section \<open>Searching and splitting\<close>

text \<open>\<^verbatim>\<open>snprintf(buffer, n, "%s", s)\<close>: what the buffer holds afterwards.\<close>

definition snprintf :: "nat \<Rightarrow> string \<Rightarrow> string" where
  "snprintf n s = take (n - 1) s"

lemma length_snprintf [fits_intro]: "0 < n \<Longrightarrow> length (snprintf n s) < n"
  by (simp add: snprintf_def)

lemma snprintf_id: "length s < n \<Longrightarrow> snprintf n s = s"
  by (simp add: snprintf_def)

lemma set_snprintf: "set (snprintf n s) \<subseteq> set s"
  by (simp add: snprintf_def set_take_subset)

lemma snprintf_Nil [simp]: "snprintf n [] = []"
  by (simp add: snprintf_def)

lemma snprintf_eq_Nil: "1 < n \<Longrightarrow> snprintf n s = [] \<longleftrightarrow> s = []"
  by (auto simp: snprintf_def)

lemma snprintf_idem [simp]: "snprintf n (snprintf n s) = snprintf n s"
  by (simp add: snprintf_def)

text \<open>\<^verbatim>\<open>strstr\<close>: the suffix that starts at the first occurrence.\<close>

fun strstr :: "string \<Rightarrow> string \<Rightarrow> string option" where
  "strstr [] needle = (if needle = [] then Some [] else None)"
| "strstr (c # s) needle = (if prefix needle (c # s) then Some (c # s) else strstr s needle)"

lemma strstr_Some_prefix: "strstr s n = Some t \<Longrightarrow> prefix n t"
  by (induction s) (auto split: if_splits)

lemma strstr_Some_suffix: "strstr s n = Some t \<Longrightarrow> suffix t s"
  by (induction s) (auto split: if_splits simp: suffix_Cons)

lemma strstr_iff_sublist: "strstr s n \<noteq> None \<longleftrightarrow> sublist n s"
  by (induction s) (auto simp: sublist_Cons_right)

lemma strstr_None_iff: "strstr s n = None \<longleftrightarrow> \<not> sublist n s"
  using strstr_iff_sublist by blast

lemma strstr_append_first:
  assumes "\<And>k. k < length p \<Longrightarrow> \<not> prefix n (drop k p @ n @ r)"
  shows "strstr (p @ n @ r) n = Some (n @ r)"
  using assms
proof (induction p)
  case Nil
  show ?case
  proof (cases "n @ r")
    case (Cons c s)
    then show ?thesis by simp (metis prefixI)
  qed simp
next
  case (Cons c p)
  have "\<not> prefix n (c # p @ n @ r)" using Cons.prems [of 0] by simp
  moreover have "strstr (p @ n @ r) n = Some (n @ r)"
    using Cons.prems [of "Suc _"] by (intro Cons.IH) auto
  ultimately show ?case by simp
qed

text \<open>A prefix without the first character of the needle can be skipped.\<close>

lemma strstr_skip: "c \<notin> set p \<Longrightarrow> strstr (p @ s) (c # n) = strstr s (c # n)"
  by (induction p) auto

lemma strstr_char_prefix: "c \<notin> set p \<Longrightarrow> strstr (p @ c # n @ r) (c # n) = Some (c # n @ r)"
  by (simp add: strstr_skip)

text \<open>\<^verbatim>\<open>strchr\<close> and \<^verbatim>\<open>strrchr\<close>: the suffix at the first or last occurrence of a character.\<close>

definition strchr :: "string \<Rightarrow> char \<Rightarrow> string option" where
  "strchr s c = (if c \<in> set s then Some (dropWhile (\<lambda>x. x \<noteq> c) s) else None)"

fun strrchr :: "string \<Rightarrow> char \<Rightarrow> string option" where
  "strrchr [] c = None"
| "strrchr (x # s) c = (case strrchr s c of Some t \<Rightarrow> Some t
     | None \<Rightarrow> if x = c then Some (x # s) else None)"

lemma strrchr_None: "strrchr s c = None \<longleftrightarrow> c \<notin> set s"
  by (induction s) (auto split: option.splits)

lemma strrchr_append: "c \<notin> set t \<Longrightarrow> strrchr (s @ c # t) c = Some (c # t)"
proof (induction s)
  case Nil
  then have "strrchr t c = None" by (simp add: strrchr_None)
  then show ?case by simp
qed simp

lemma strrchr_Some: "strrchr s c = Some t \<Longrightarrow> \<exists>p q. s = p @ c # q \<and> t = c # q \<and> c \<notin> set q"
proof (induction s)
  case (Cons x s)
  show ?case
  proof (cases "strrchr s c")
    case None
    with Cons.prems show ?thesis by (auto simp: strrchr_None split: if_splits)
  next
    case (Some u)
    with Cons obtain p q where "s = p @ c # q" "t = c # q" "c \<notin> set q" by auto
    then have "x # s = (x # p) @ c # q \<and> t = c # q \<and> c \<notin> set q" by simp
    then show ?thesis by blast
  qed
qed simp

text \<open>\<^verbatim>\<open>strtok\<close>, called until it returns NULL: the maximal runs free of delimiters.\<close>

function strtok :: "char set \<Rightarrow> string \<Rightarrow> string list" where
  "strtok d s = (let t = dropWhile (\<lambda>c. c \<in> d) s in
     if t = [] then []
     else takeWhile (\<lambda>c. c \<notin> d) t # strtok d (dropWhile (\<lambda>c. c \<notin> d) t))"
  by pat_completeness auto
termination
proof (relation "measure (\<lambda>(d, s). length s)", goal_cases)
  case (2 d s t)
  then obtain c u where t: "t = c # u" by (meson neq_Nil_conv)
  then have "c \<notin> d" using 2(1) by (metis dropWhile_eq_Cons_conv)
  then have "length (dropWhile (\<lambda>c. c \<notin> d) t) \<le> length u"
    by (simp add: t length_dropWhile_le)
  also have "\<dots> < length t" by (simp add: t)
  also have "\<dots> \<le> length s" using 2(1) by (simp add: length_dropWhile_le)
  finally show ?case by simp
qed simp

declare strtok.simps [simp del]

lemma strtok_Nil [simp]: "strtok d [] = []"
  by (simp add: strtok.simps)

lemma strtok_Cons_delim [simp]: "c \<in> d \<Longrightarrow> strtok d (c # s) = strtok d s"
  by (simp add: strtok.simps [of d "c # s"] strtok.simps [of d s])

lemma strtok_token:
  assumes "w \<noteq> []" "set w \<inter> d = {}" "c \<in> d"
  shows "strtok d (w @ c # s) = w # strtok d s"
proof -
  obtain x v where w: "w = x # v" "x \<notin> d" using assms by (cases w) auto
  have "takeWhile (\<lambda>c. c \<notin> d) (w @ c # s) = w" "dropWhile (\<lambda>c. c \<notin> d) (w @ c # s) = c # s"
    using assms by (auto intro!: takeWhile_append_stop dropWhile_append_stop)
  with w assms show ?thesis
    by (subst strtok.simps) (simp add: Let_def)
qed

lemma strtok_last:
  assumes "w \<noteq> []" "set w \<inter> d = {}"
  shows "strtok d w = [w]"
proof -
  obtain x v where w: "w = x # v" "x \<notin> d" using assms by (cases w) auto
  have "\<forall>c\<in>set v. c \<notin> d" using assms w by auto
  then have "takeWhile (\<lambda>c. c \<notin> d) v = v" and "dropWhile (\<lambda>c. c \<notin> d) v = []"
    by simp_all
  then have "takeWhile (\<lambda>c. c \<notin> d) v = v" "strtok d (dropWhile (\<lambda>c. c \<notin> d) v) = []"
    by (simp_all only: strtok_Nil)
  with w show ?thesis
    by (subst strtok.simps) (simp add: Let_def)
qed

text \<open>Fields joined by one separator, as \<^verbatim>\<open>fprintf\<close> writes them.\<close>

fun join :: "string \<Rightarrow> string list \<Rightarrow> string" where
  "join sep [] = []"
| "join sep [w] = w"
| "join sep (w # v # ws) = w @ sep @ join sep (v # ws)"

lemma strtok_join:
  assumes "\<And>w. w \<in> set ws \<Longrightarrow> w \<noteq> [] \<and> c \<notin> set w"
  shows "strtok {c} (join [c] ws) = ws"
  using assms
proof (induction "[c]" ws rule: join.induct)
  case (3 w v ws)
  then show ?case by (simp add: strtok_token)
qed (auto simp: strtok_last)

lemma strtok_tokens_ok:
  "w \<in> set (strtok d s) \<Longrightarrow> w \<noteq> [] \<and> set w \<inter> d = {}"
proof (induction d s rule: strtok.induct)
  case (1 d s)
  let ?t = "dropWhile (\<lambda>c. c \<in> d) s"
  show ?case
  proof (cases "?t = []")
    case True
    with 1 show ?thesis by (simp add: strtok.simps [of d s])
  next
    case False
    then obtain x v where t: "?t = x # v" "x \<notin> d" by (metis dropWhile_eq_Cons_conv list.exhaust)
    from "1.prems" False
    consider "w = takeWhile (\<lambda>c. c \<notin> d) ?t" | "w \<in> set (strtok d (dropWhile (\<lambda>c. c \<notin> d) ?t))"
      unfolding strtok.simps [of d s] Let_def by (auto split: if_splits)
    then show ?thesis
    proof cases
      case 1
      have "w \<noteq> []" using 1 t by simp
      moreover have "set w \<inter> d = {}" using 1 by (auto dest: set_takeWhileD)
      ultimately show ?thesis by simp
    next
      case 2
      with "1.IH" False show ?thesis by simp
    qed
  qed
qed

section \<open>Numbers\<close>

definition isdigit :: "char \<Rightarrow> bool" where
  "isdigit c \<longleftrightarrow> 48 \<le> (of_char c :: nat) \<and> (of_char c :: nat) \<le> 57"

definition isspace :: "char \<Rightarrow> bool" where
  "isspace c \<longleftrightarrow> c \<in> {CHR '' '', CHR 0x09, CHR 0x0A, CHR 0x0B, CHR 0x0C, CHR 0x0D}"

definition digit :: "nat \<Rightarrow> char" where
  "digit d = char_of (48 + d)"

definition digit_val :: "char \<Rightarrow> nat" where
  "digit_val c = of_char c - 48"

fun show_nat :: "nat \<Rightarrow> string" where
  "show_nat n = (if n < 10 then [digit n] else show_nat (n div 10) @ [digit (n mod 10)])"

declare show_nat.simps [simp del]

text \<open>The conversions \<^verbatim>\<open>%u\<close>, \<^verbatim>\<open>%d\<close> and \<^verbatim>\<open>%04d\<close> of \<^verbatim>\<open>printf\<close>.\<close>

definition show_uint :: "u32 \<Rightarrow> string" where
  "show_uint w = show_nat (unat w)"

definition show_int :: "int \<Rightarrow> string" where
  "show_int i = (if i < 0 then ''-'' @ show_nat (nat (- i)) else show_nat (nat i))"

definition show_int04 :: "int \<Rightarrow> string" where
  "show_int04 i = (let ds = show_nat (nat \<bar>i\<bar>) in
     if i < 0 then ''-'' @ replicate (3 - length ds) (CHR ''0'') @ ds
     else replicate (4 - length ds) (CHR ''0'') @ ds)"

definition read_digits :: "string \<Rightarrow> nat" where
  "read_digits ds = foldl (\<lambda>a c. 10 * a + digit_val c) 0 ds"

text \<open>
  The common subject sequence of \<^verbatim>\<open>strtol\<close> and \<^verbatim>\<open>strtoul\<close>: white space, an optional sign and
  digits. \<^const>\<open>None\<close> when there are no digits (then both return 0 and leave \<open>endptr\<close> at the
  start), otherwise whether the sign was minus, and the magnitude.
\<close>

definition number_prefix :: "string \<Rightarrow> (bool \<times> nat) option" where
  "number_prefix s =
     (let t = dropWhile isspace s;
          neg = (t \<noteq> [] \<and> hd t = CHR ''-'');
          u = (if t \<noteq> [] \<and> (hd t = CHR ''-'' \<or> hd t = CHR ''+'') then tl t else t);
          ds = takeWhile isdigit u
      in if ds = [] then None else Some (neg, read_digits ds))"

abbreviation (input) ULONG_MAX :: nat where "ULONG_MAX \<equiv> 18446744073709551615"
abbreviation (input) LONG_MAX :: int where "LONG_MAX \<equiv> 9223372036854775807"
abbreviation (input) LONG_MIN :: int where "LONG_MIN \<equiv> - 9223372036854775808"
abbreviation (input) INT_MAX :: int where "INT_MAX \<equiv> 2147483647"
abbreviation (input) INT_MIN :: int where "INT_MIN \<equiv> - 2147483648"

definition strtoul :: "string \<Rightarrow> u64" where
  "strtoul s = (case number_prefix s of None \<Rightarrow> 0
     | Some (neg, n) \<Rightarrow> if ULONG_MAX < n then of_nat ULONG_MAX
                       else if neg then - of_nat n else of_nat n)"

definition strtol :: "string \<Rightarrow> int" where
  "strtol s = (case number_prefix s of None \<Rightarrow> 0
     | Some (neg, n) \<Rightarrow> (if neg then max LONG_MIN (- int n) else min LONG_MAX (int n)))"

text \<open>The casts \<^verbatim>\<open>(unsigned int)\<close> and \<^verbatim>\<open>(int)\<close> keep the low 32 bits.\<close>

definition cast_uint :: "u64 \<Rightarrow> u32" where
  "cast_uint w = ucast w"

definition cast_int :: "int \<Rightarrow> int" where
  "cast_int i = (i + 2147483648) mod 4294967296 - 2147483648"

definition atoi :: "string \<Rightarrow> int" where
  "atoi s = cast_int (strtol s)"

lemma digit_eval [simp]:
  "digit 0 = CHR ''0''" "digit (Suc 0) = CHR ''1''" "digit 1 = CHR ''1''" "digit 2 = CHR ''2''"
  "digit 3 = CHR ''3''" "digit 4 = CHR ''4''" "digit 5 = CHR ''5''" "digit 6 = CHR ''6''"
  "digit 7 = CHR ''7''" "digit 8 = CHR ''8''" "digit 9 = CHR ''9''"
  by (simp_all add: digit_def char_of_def bit_0)

lemma of_char_digit: "d < 10 \<Longrightarrow> (of_char (digit d) :: nat) = 48 + d"
  by (simp add: digit_def)

lemma isdigit_digit [simp]: "d < 10 \<Longrightarrow> isdigit (digit d)"
  by (simp add: isdigit_def of_char_digit)

lemma digit_val_digit [simp]: "d < 10 \<Longrightarrow> digit_val (digit d) = d"
  by (simp add: digit_val_def of_char_digit)

lemma show_nat_isdigit: "c \<in> set (show_nat n) \<Longrightarrow> isdigit c"
proof (induction n rule: show_nat.induct)
  case (1 n)
  then show ?case by (cases "n < 10") (auto simp: show_nat.simps [of n])
qed

lemma show_nat_not_Nil [simp]: "show_nat n \<noteq> []"
  by (simp add: show_nat.simps [of n])

lemma read_digits_snoc [simp]: "read_digits (ds @ [c]) = 10 * read_digits ds + digit_val c"
  by (simp add: read_digits_def)

lemma read_digits_single [simp]: "read_digits [c] = digit_val c"
  by (simp add: read_digits_def)

lemma read_show_nat [simp]: "read_digits (show_nat n) = n"
proof (induction n rule: show_nat.induct)
  case (1 n)
  show ?case
  proof (cases "n < 10")
    case True
    then show ?thesis by (simp add: show_nat.simps [of n])
  next
    case False
    with 1 have "read_digits (show_nat (n div 10)) = n div 10" by simp
    with False show ?thesis by (simp add: show_nat.simps [of n])
  qed
qed

lemma length_show_nat: "n < 10 ^ k \<Longrightarrow> 0 < k \<Longrightarrow> length (show_nat n) \<le> k"
proof (induction n arbitrary: k rule: show_nat.induct)
  case (1 n)
  show ?case
  proof (cases "n < 10")
    case True
    with "1.prems" show ?thesis by (simp add: show_nat.simps [of n])
  next
    case False
    with "1.prems" obtain j where k: "k = Suc j" and "0 < j"
      by (cases k; cases "k - 1") auto
    then have "length (show_nat (n div 10)) \<le> j"
      using "1.IH" [OF False, of j] "1.prems" by (simp add: less_mult_imp_div_less)
    with False k show ?thesis by (simp add: show_nat.simps [of n])
  qed
qed

lemma not_isdigit_special [simp]:
  "\<not> isdigit (CHR ''-'')" "\<not> isdigit (CHR ''+'')" "\<not> isdigit (CHR '' '')" "\<not> isdigit (CHR 0x09)"
  "\<not> isdigit (CHR 0x0A)" "\<not> isdigit (CHR 0x0B)" "\<not> isdigit (CHR 0x0C)" "\<not> isdigit (CHR 0x0D)"
  by (simp_all add: isdigit_def)

lemma isdigit_not_isspace: "isdigit c \<Longrightarrow> \<not> isspace c"
  by (auto simp: isspace_def)

lemma number_prefix_digits:
  assumes "ds \<noteq> []" "\<And>c. c \<in> set ds \<Longrightarrow> isdigit c" "r = [] \<or> \<not> isdigit (hd r)"
  shows "number_prefix (ds @ r) = Some (False, read_digits ds)"
proof -
  obtain x xs where ds: "ds = x # xs" using assms(1) by (cases ds) auto
  have x: "isdigit x" "\<not> isspace x" "x \<noteq> CHR ''-''" "x \<noteq> CHR ''+''"
    using assms(2) [of x] ds isdigit_not_isspace by auto
  have "takeWhile isdigit (ds @ r) = ds"
    using assms(2,3) by (cases r) (auto intro: takeWhile_append_stop)
  then show ?thesis using x ds by (simp add: number_prefix_def Let_def)
qed

lemma number_prefix_show_nat [simp]: "number_prefix (show_nat n) = Some (False, n)"
  using number_prefix_digits [of "show_nat n" "[]"] by (auto dest: show_nat_isdigit)

lemma takeWhile_show_nat [simp]: "takeWhile isdigit (show_nat n) = show_nat n"
  by (rule takeWhile_all) (rule show_nat_isdigit)

lemma number_prefix_minus_show_nat [simp]:
  "number_prefix (CHR ''-'' # show_nat n) = Some (True, n)"
  by (simp add: number_prefix_def isspace_def Let_def)

lemma cast_int_id: "INT_MIN \<le> i \<Longrightarrow> i \<le> INT_MAX \<Longrightarrow> cast_int i = i"
  by (simp add: cast_int_def)

lemma cast_int_range: "INT_MIN \<le> cast_int i \<and> cast_int i \<le> INT_MAX"
proof -
  have "0 \<le> (i + 2147483648) mod 4294967296" "(i + 2147483648) mod 4294967296 < 4294967296"
    by simp_all
  then show ?thesis unfolding cast_int_def by linarith
qed

lemma atoi_show_int: "INT_MIN \<le> i \<Longrightarrow> i \<le> INT_MAX \<Longrightarrow> atoi (show_int i) = i"
  by (auto simp: atoi_def show_int_def strtol_def cast_int_id)

lemma strtoul_show_uint: "cast_uint (strtoul (show_uint w)) = w"
proof -
  have w: "unat w < 2 ^ 32" using unsigned_less [of w, where 'a = nat] by simp
  have "ucast (of_nat (unat w) :: u64) = w"
    using w by (simp add: ucast_up_ucast_id is_up)
  then show ?thesis using w by (simp add: show_uint_def strtoul_def cast_uint_def)
qed

lemma show_int_chars: "c \<in> set (show_int i) \<Longrightarrow> isdigit c \<or> c = CHR ''-''"
  by (auto simp: show_int_def dest: show_nat_isdigit split: if_splits)

lemma show_int_not_Nil [simp]: "show_int i \<noteq> []"
  by (simp add: show_int_def)

lemma show_uint_not_Nil [simp]: "show_uint w \<noteq> []"
  by (simp add: show_uint_def)

lemma length_show_uint: "length (show_uint w) \<le> 10"
proof -
  have "unat w < 10 ^ 10" using unsigned_less [of w, where 'a = nat] by simp
  then show ?thesis by (simp add: show_uint_def length_show_nat)
qed

lemma length_show_int: "INT_MIN \<le> i \<Longrightarrow> i \<le> INT_MAX \<Longrightarrow> length (show_int i) \<le> 11"
proof -
  assume i: "INT_MIN \<le> i" "i \<le> INT_MAX"
  then have "length (show_nat (nat i)) \<le> 10" "length (show_nat (nat (- i))) \<le> 10"
    by (intro length_show_nat; simp add: nat_less_iff)+
  then show ?thesis by (simp add: show_int_def)
qed

end
