(* ===== verification/Kernel.thy ===== *)
theory Kernel
  imports CString
begin

text \<open>
  The operating system as the program sees it. The kernel is not part of the sources, so it
  is a parameter: a kernel state of any type \<open>'k\<close> and, for each group of system calls, a
  record of operations on it. A call that fails answers \<^term>\<open>Inl e\<close> with the error number
  the caller would find in \<^verbatim>\<open>errno\<close>. Nothing is assumed of these operations here; a theorem
  that relies on documented behaviour of a call says so in a hypothesis.
\<close>

section \<open>Resource limits (\<^verbatim>\<open>sys/resource.h\<close>)\<close>

datatype rlimit_resource = RLIMIT_CPU | RLIMIT_AS | RLIMIT_NPROC

record rlimit =
  rlim_cur :: u64
  rlim_max :: u64

definition RLIM_INFINITY :: u64 where
  "RLIM_INFINITY = - 1"

record 'k rlimit_sys =
  sys_getrlimit :: "rlimit_resource \<Rightarrow> ('k, rlimit result) state"
  sys_setrlimit :: "rlimit_resource \<Rightarrow> rlimit \<Rightarrow> ('k, unit result) state"

section \<open>Network interfaces\<close>

record 'k net_sys =
  sys_socket :: "('k, int result) state"
  sys_getifflags :: "int \<Rightarrow> string \<Rightarrow> ('k, 16 word result) state"
  sys_setifflags :: "int \<Rightarrow> string \<Rightarrow> 16 word \<Rightarrow> ('k, unit result) state"
  sys_sockclose :: "int \<Rightarrow> ('k, unit) state"

section \<open>Files and mounts\<close>

datatype file_kind = S_DIR | S_REG | S_LNK | S_OTHER

record stat_info =
  st_kind :: file_kind
  st_mode :: nat

datatype open_mode = O_RDONLY | O_WRONLY_CREAT_TRUNC nat

datatype mount_flag = MS_BIND | MS_REC | MS_PRIVATE | MS_NOSUID | MS_NOEXEC | MS_NODEV | MS_REMOUNT

record 'k file_sys =
  sys_stat :: "string \<Rightarrow> ('k, stat_info result) state"
  sys_lstat :: "string \<Rightarrow> ('k, stat_info result) state"
  sys_mkdir :: "string \<Rightarrow> nat \<Rightarrow> ('k, unit result) state"
  sys_rmdir :: "string \<Rightarrow> ('k, unit result) state"
  sys_open :: "string \<Rightarrow> open_mode \<Rightarrow> ('k, int result) state"
  sys_read :: "int \<Rightarrow> nat \<Rightarrow> ('k, string result) state"
  sys_write :: "int \<Rightarrow> string \<Rightarrow> ('k, nat result) state"
  sys_close :: "int \<Rightarrow> ('k, unit result) state"
  sys_readlink :: "string \<Rightarrow> nat \<Rightarrow> ('k, string result) state"
  sys_symlink :: "string \<Rightarrow> string \<Rightarrow> ('k, unit result) state"
  sys_unlink :: "string \<Rightarrow> ('k, unit result) state"
  sys_realpath :: "string \<Rightarrow> ('k, string result) state"
  sys_popen :: "string \<Rightarrow> ('k, int result) state"
  sys_fgets :: "int \<Rightarrow> nat \<Rightarrow> ('k, string option) state"
  sys_pclose :: "int \<Rightarrow> ('k, unit result) state"
  sys_mount :: "string option \<Rightarrow> string \<Rightarrow> string option \<Rightarrow> mount_flag list \<Rightarrow> ('k, unit result) state"
  sys_umount_detach :: "string \<Rightarrow> ('k, unit result) state"
  sys_pivot_root :: "string \<Rightarrow> string \<Rightarrow> ('k, unit result) state"
  sys_chroot :: "string \<Rightarrow> ('k, unit result) state"
  sys_chdir :: "string \<Rightarrow> ('k, unit result) state"
  sys_fopen_w :: "string \<Rightarrow> ('k, int result) state"
  sys_fputs :: "int \<Rightarrow> string \<Rightarrow> ('k, unit result) state"
  sys_fclose :: "int \<Rightarrow> ('k, unit result) state"

section \<open>Processes\<close>

datatype clone_flag = CLONE_NEWUSER | CLONE_NEWPID | CLONE_NEWUTS | CLONE_NEWNS | CLONE_NEWNET | CLONE_SIGCHLD

text \<open>
  \<open>sys_waitpid p nohang\<close> answers the pid it returned and the status word; the pid is 0 when
  \<^verbatim>\<open>WNOHANG\<close> was given and the child still runs.
\<close>

record 'k proc_sys =
  sys_kill :: "pid \<Rightarrow> int \<Rightarrow> ('k, unit result) state"
  sys_waitpid :: "pid \<Rightarrow> bool \<Rightarrow> ('k, (pid \<times> int) result) state"
  sys_pipe :: "('k, (int \<times> int) result) state"
  sys_set_cloexec :: "int \<Rightarrow> ('k, unit result) state"
  sys_geteuid :: "('k, int) state"
  sys_getegid :: "('k, int) state"
  sys_setgid :: "int \<Rightarrow> ('k, unit result) state"
  sys_setuid :: "int \<Rightarrow> ('k, unit result) state"
  sys_sethostname :: "string \<Rightarrow> ('k, unit result) state"
  sys_setpgid :: "pid \<Rightarrow> pid \<Rightarrow> ('k, unit result) state"
  sys_getpid :: "('k, pid) state"
  sys_getpgrp :: "('k, pid) state"
  sys_execvp :: "string \<Rightarrow> string list \<Rightarrow> ('k, errno option) state"
  sys_malloc :: "nat \<Rightarrow> ('k, bool) state"

end
