(* ===== verification/Resource.thy ===== *)
theory Resource
  imports Kernel
begin

text \<open>
  Resource limits: \<^verbatim>\<open>src/resource.c\<close> and \<^verbatim>\<open>src/resource.h\<close>. \<open>resource_apply_limits\<close> lowers the
  CPU, address-space and process limits of the calling process to the configured values;
  0 leaves a limit alone. Limits are 64-bit words with \<^const>\<open>RLIM_INFINITY\<close> the greatest one,
  the configuration fields are 32-bit words.
\<close>

section \<open>Configuration and constants\<close>

record ResourceConfig =
  cpu_seconds :: u32
  memory_mb :: u32
  max_processes :: u32

definition RESOURCE_PROFILE :: string where
  "RESOURCE_PROFILE = ''RLIMIT_CPU + RLIMIT_AS + RLIMIT_NPROC''"

abbreviation RESOURCE_ERROR_BASE :: int where "RESOURCE_ERROR_BASE \<equiv> 10000"

section \<open>Operations\<close>

definition clamp_request :: "rlimit \<Rightarrow> u64 \<Rightarrow> u64" where
  "clamp_request current requested =
     (let r = (if rlim_cur current \<noteq> RLIM_INFINITY \<and> requested > rlim_cur current
               then rlim_cur current else requested)
      in if rlim_max current \<noteq> RLIM_INFINITY \<and> r > rlim_max current then rlim_max current else r)"

definition apply_single_limit_lower_only ::
    "'k rlimit_sys \<Rightarrow> rlimit_resource \<Rightarrow> u64 \<Rightarrow> ('k, unit result) state" where
  "apply_single_limit_lower_only K res requested = do {
     g \<leftarrow> sys_getrlimit K res;
     case g of
       Inl e \<Rightarrow> State_Monad.return (Inl e)
     | Inr current \<Rightarrow>
         let r = clamp_request current requested in
         if r = rlim_cur current \<and> r = rlim_max current then State_Monad.return (Inr ())
         else sys_setrlimit K res
                \<lparr>rlim_cur = r,
                 rlim_max = (if rlim_max current = RLIM_INFINITY \<or> r < rlim_max current
                             then r else rlim_max current)\<rparr>
   }"

definition memory_bytes :: "u32 \<Rightarrow> u64" where
  "memory_bytes mb = ucast mb * 1024 * 1024"

text \<open>
  \<^verbatim>\<open>rlim_t\<close> and \<^verbatim>\<open>unsigned long long\<close> are both 64 bits wide, so the cast between them is the
  identity and the first comparison of the source can never differ; it is kept as written.
\<close>

definition resource_apply_limits :: "'k rlimit_sys \<Rightarrow> ResourceConfig option \<Rightarrow> ('k, unit result) state" where
  "resource_apply_limits K config = (case config of
     None \<Rightarrow> State_Monad.return (Inl EINVAL)
   | Some c \<Rightarrow> do {
       r1 \<leftarrow> (if cpu_seconds c \<noteq> 0
             then apply_single_limit_lower_only K RLIMIT_CPU (ucast (cpu_seconds c))
             else State_Monad.return (Inr ()));
       case r1 of Inl e \<Rightarrow> State_Monad.return (Inl e) | Inr _ \<Rightarrow> do {
         r2 \<leftarrow> (if memory_mb c \<noteq> 0
               then (let ull = memory_bytes (memory_mb c); b = (ull :: u64) in
                     if ull \<noteq> b then State_Monad.return (Inl EINVAL)
                     else if b = 0 then State_Monad.return (Inl EINVAL)
                     else apply_single_limit_lower_only K RLIMIT_AS b)
               else State_Monad.return (Inr ()));
         case r2 of Inl e \<Rightarrow> State_Monad.return (Inl e) | Inr _ \<Rightarrow>
           (if max_processes c \<noteq> 0
            then apply_single_limit_lower_only K RLIMIT_NPROC (ucast (max_processes c))
            else State_Monad.return (Inr ()))
       }
     })"

definition resource_profile :: string where
  "resource_profile = RESOURCE_PROFILE"

definition limit_text :: "u32 \<Rightarrow> string \<Rightarrow> string" where
  "limit_text v unit_text = (if v = 0 then snprintf 32 ''unlimited'' else snprintf 32 (show_uint v @ unit_text))"

text \<open>The buffer is first filled with the \<^verbatim>\<open>unlimited\<close> text, then overwritten when any limit is set.\<close>

definition resource_format_limits :: "ResourceConfig \<Rightarrow> nat \<Rightarrow> string" where
  "resource_format_limits c buffer_size =
     (let first = snprintf buffer_size
            (''cpu='' @ (if cpu_seconds c = 0 then ''unlimited'' else []) @
             '' mem='' @ (if memory_mb c = 0 then ''unlimited'' else []) @
             '' nproc='' @ (if max_processes c = 0 then ''unlimited'' else []))
      in if cpu_seconds c \<noteq> 0 \<or> memory_mb c \<noteq> 0 \<or> max_processes c \<noteq> 0
         then snprintf buffer_size
           (''cpu='' @ limit_text (cpu_seconds c) ''s'' @
            '' mem='' @ limit_text (memory_mb c) ''MB'' @
            '' nproc='' @ limit_text (max_processes c) [])
         else first)"

definition resource_format_error :: "(errno \<Rightarrow> string) \<Rightarrow> errno \<Rightarrow> nat \<Rightarrow> string" where
  "resource_format_error strerror err buffer_size = snprintf buffer_size
     (if err = EPERM then ''resource limits need privileges the host denied''
      else if err = EINVAL then ''resource control received an invalid limit configuration''
      else strerror err)"

section \<open>Clamping\<close>

lemma RLIM_INFINITY_max: "x \<le> RLIM_INFINITY"
  by (simp add: RLIM_INFINITY_def)

lemma clamp_request_min:
  "clamp_request current q = min q (min (rlim_cur current) (rlim_max current))"
  using RLIM_INFINITY_max [of q] RLIM_INFINITY_max [of "rlim_cur current"]
  unfolding clamp_request_def Let_def min_def by auto

lemma new_hard_limit:
  "r \<le> rlim_max l \<Longrightarrow> (if rlim_max l = RLIM_INFINITY \<or> r < rlim_max l then r else rlim_max l) = r"
  by auto

section \<open>The memory limit in bytes\<close>

lemma unat_memory_bytes: "unat (memory_bytes mb) = unat mb * 1048576"
proof -
  have "unat mb < 4294967296" using unsigned_less [of mb, where 'a = nat] by simp
  then show ?thesis
    by (simp add: memory_bytes_def unat_word_ariths unsigned_ucast_eq take_bit_eq_mod)
qed

lemma memory_bytes_nonzero: "mb \<noteq> 0 \<Longrightarrow> memory_bytes mb \<noteq> 0"
  using unat_memory_bytes [of mb] by (auto simp: unat_eq_0)

section \<open>What the kernel documents\<close>

text \<open>
  \<^verbatim>\<open>getrlimit(2)\<close>: reading does not change anything. \<^verbatim>\<open>setrlimit(2)\<close>: any process may set its
  soft limit to a value up to the hard limit, and may lower its hard limit.
\<close>

definition rlimit_contract :: "'k rlimit_sys \<Rightarrow> ('k \<Rightarrow> rlimit_resource \<Rightarrow> rlimit) \<Rightarrow> bool" where
  "rlimit_contract K lim \<longleftrightarrow>
     (\<forall>k res. run_state (sys_getrlimit K res) k = (Inr (lim k res), k)) \<and>
     (\<forall>k res l. rlim_cur l \<le> rlim_max l \<longrightarrow> rlim_max l \<le> rlim_max (lim k res) \<longrightarrow>
        fst (run_state (sys_setrlimit K res l) k) = Inr () \<and>
        lim (snd (run_state (sys_setrlimit K res l) k)) = (lim k)(res := l))"

definition effective :: "u64 \<Rightarrow> rlimit \<Rightarrow> rlimit" where
  "effective q l = (let m = min q (min (rlim_cur l) (rlim_max l)) in \<lparr>rlim_cur = m, rlim_max = m\<rparr>)"

definition limited :: "u64 \<Rightarrow> rlimit \<Rightarrow> rlimit" where
  "limited q l = (if q = 0 then l else effective q l)"

lemma apply_single_limit_contract:
  assumes "rlimit_contract K lim"
  shows "fst (run_state (apply_single_limit_lower_only K res q) k) = Inr ()"
    and "lim (snd (run_state (apply_single_limit_lower_only K res q) k)) = (lim k)(res := effective q (lim k res))"
proof -
  let ?l = "lim k res"
  let ?m = "min q (min (rlim_cur ?l) (rlim_max ?l))"
  have le: "?m \<le> rlim_max ?l" by (simp add: min_le_iff_disj)
  have get: "run_state (sys_getrlimit K res) k = (Inr ?l, k)"
    using assms by (simp add: rlimit_contract_def)
  have set: "fst (run_state (sys_setrlimit K res \<lparr>rlim_cur = ?m, rlim_max = ?m\<rparr>) k) = Inr ()"
            "lim (snd (run_state (sys_setrlimit K res \<lparr>rlim_cur = ?m, rlim_max = ?m\<rparr>) k))
               = (lim k)(res := \<lparr>rlim_cur = ?m, rlim_max = ?m\<rparr>)"
    using assms le by (simp_all add: rlimit_contract_def)
  have "?m = rlim_cur ?l \<and> ?m = rlim_max ?l \<Longrightarrow> effective q ?l = ?l"
    by (cases ?l) (auto simp: effective_def Let_def)
  then show "fst (run_state (apply_single_limit_lower_only K res q) k) = Inr ()"
    and "lim (snd (run_state (apply_single_limit_lower_only K res q) k)) = (lim k)(res := effective q ?l)"
    unfolding apply_single_limit_lower_only_def Let_def clamp_request_min
    using get set new_hard_limit [OF le]
    by (auto simp: effective_def Let_def)
qed

lemma apply_optional_limit:
  assumes "rlimit_contract K lim"
  shows "fst (run_state (if v \<noteq> 0 then apply_single_limit_lower_only K res q
                         else State_Monad.return (Inr ())) k) = Inr ()"
    and "lim (snd (run_state (if v \<noteq> 0 then apply_single_limit_lower_only K res q
                              else State_Monad.return (Inr ())) k))
         = (lim k)(res := (if v \<noteq> 0 then effective q (lim k res) else lim k res))"
  using apply_single_limit_contract [OF assms] by simp_all

lemma run_state_ok_then:
  "fst (run_state m k) = Inr () \<Longrightarrow>
   run_state (State_Monad.bind m (\<lambda>r. case r of Inl e \<Rightarrow> State_Monad.return (Inl e) | Inr _ \<Rightarrow> n)) k
     = run_state n (snd (run_state m k))"
  by (simp split: prod.split) (metis fst_conv snd_conv old.sum.simps(6))

text \<open>The steps of \<^const>\<open>resource_apply_limits\<close>, without the branches that cannot be taken.\<close>

lemma resource_apply_limits_steps:
  "resource_apply_limits K (Some c) = do {
     r1 \<leftarrow> (if cpu_seconds c \<noteq> 0 then apply_single_limit_lower_only K RLIMIT_CPU (ucast (cpu_seconds c))
           else State_Monad.return (Inr ()));
     case r1 of Inl e \<Rightarrow> State_Monad.return (Inl e) | Inr _ \<Rightarrow> do {
       r2 \<leftarrow> (if memory_mb c \<noteq> 0 then apply_single_limit_lower_only K RLIMIT_AS (memory_bytes (memory_mb c))
             else State_Monad.return (Inr ()));
       case r2 of Inl e \<Rightarrow> State_Monad.return (Inl e) | Inr _ \<Rightarrow>
         (if max_processes c \<noteq> 0 then apply_single_limit_lower_only K RLIMIT_NPROC (ucast (max_processes c))
          else State_Monad.return (Inr ()))
     }
   }"
  by (simp add: resource_apply_limits_def memory_bytes_nonzero Let_def cong: if_cong)

definition requested :: "ResourceConfig \<Rightarrow> rlimit_resource \<Rightarrow> u64" where
  "requested c res = (case res of RLIMIT_CPU \<Rightarrow> ucast (cpu_seconds c)
     | RLIMIT_AS \<Rightarrow> memory_bytes (memory_mb c) | RLIMIT_NPROC \<Rightarrow> ucast (max_processes c))"

lemma ucast_u32_eq_0 [simp]: "(ucast (v :: u32) :: u64) = 0 \<longleftrightarrow> v = 0"
proof -
  have "unat (ucast v :: u64) = unat v"
    using unsigned_less [of v, where 'a = nat] by (simp add: unsigned_ucast_eq take_bit_eq_mod)
  then show ?thesis by (metis unat_eq_0)
qed

lemma memory_bytes_eq_0 [simp]: "memory_bytes mb = 0 \<longleftrightarrow> mb = 0"
  using memory_bytes_nonzero by (auto simp: memory_bytes_def)

lemma run_resource_apply_limits:
  assumes K: "rlimit_contract K lim"
  shows "fst (run_state (resource_apply_limits K (Some c)) k) = Inr ()"
    and "lim (snd (run_state (resource_apply_limits K (Some c)) k)) = (\<lambda>res. limited (requested c res) (lim k res))"
  unfolding resource_apply_limits_steps
  by (simp_all only: run_state_ok_then [OF apply_optional_limit(1) [OF K]] apply_optional_limit [OF K])
     (auto simp: fun_eq_iff requested_def limited_def split: rlimit_resource.split)

lemma effective_le: "rlim_cur (effective q l) \<le> rlim_cur l" "rlim_max (effective q l) \<le> rlim_max l"
  by (simp_all add: effective_def Let_def min_le_iff_disj)

section \<open>Properties\<close>

text \<open>
  (C11) On a kernel with the documented \<^verbatim>\<open>getrlimit\<close>/\<^verbatim>\<open>setrlimit\<close> behaviour, applying a
  configuration always succeeds; every limit whose configured value is not 0 ends with soft and
  hard limit both equal to the least of the request, the old soft and the old hard limit (so the
  container cannot raise it again), and every limit configured as 0 is left as it was.
\<close>

theorem resource_apply_limits_effect:
  assumes "rlimit_contract K lim"
    and "run_state (resource_apply_limits K (Some c)) k = (r, k')"
  shows "r = Inr ()
    \<and> lim k' RLIMIT_CPU = limited (ucast (cpu_seconds c)) (lim k RLIMIT_CPU)
    \<and> lim k' RLIMIT_AS = limited (memory_bytes (memory_mb c)) (lim k RLIMIT_AS)
    \<and> lim k' RLIMIT_NPROC = limited (ucast (max_processes c)) (lim k RLIMIT_NPROC)
    \<and> (\<forall>res. rlim_cur (lim k' res) \<le> rlim_cur (lim k res) \<and> rlim_max (lim k' res) \<le> rlim_max (lim k res))"
proof -
  have r: "r = Inr ()" and l: "lim k' = (\<lambda>res. limited (requested c res) (lim k res))"
    using run_resource_apply_limits [OF assms(1), of c k] assms(2) by simp_all
  show ?thesis
    using r by (simp add: l requested_def) (simp add: limited_def effective_le)
qed

text \<open>A kernel that keeps one table of limits, for the witness.\<close>

definition table_rlimit_sys :: "(rlimit_resource \<Rightarrow> rlimit) rlimit_sys" where
  "table_rlimit_sys = \<lparr>
     sys_getrlimit = (\<lambda>res. State (\<lambda>t. (Inr (t res), t))),
     sys_setrlimit = (\<lambda>res l. State (\<lambda>t.
        if rlim_max l < rlim_cur l then (Inl EINVAL, t)
        else if rlim_max (t res) < rlim_max l then (Inl EPERM, t)
        else (Inr (), t(res := l))))\<rparr>"

lemma table_rlimit_contract: "rlimit_contract table_rlimit_sys (\<lambda>t. t)"
  by (auto simp: rlimit_contract_def table_rlimit_sys_def)

theorem resource_apply_limits_effect_witness:
  "fst (run_state (resource_apply_limits table_rlimit_sys
        (Some \<lparr>cpu_seconds = 5, memory_mb = 64, max_processes = 0\<rparr>))
        (\<lambda>_. \<lparr>rlim_cur = 1000, rlim_max = RLIM_INFINITY\<rparr>)) = Inr ()
   \<and> snd (run_state (resource_apply_limits table_rlimit_sys
        (Some \<lparr>cpu_seconds = 5, memory_mb = 64, max_processes = 0\<rparr>))
        (\<lambda>_. \<lparr>rlim_cur = 1000, rlim_max = RLIM_INFINITY\<rparr>)) RLIMIT_CPU = \<lparr>rlim_cur = 5, rlim_max = 5\<rparr>"
  (is "fst ?run = _ \<and> _")
proof -
  obtain r k' where run: "?run = (r, k')" by (cases ?run)
  have "(5 :: u64) \<le> RLIM_INFINITY" by (rule RLIM_INFINITY_max)
  with resource_apply_limits_effect [OF table_rlimit_contract run]
  show ?thesis by (simp add: run limited_def effective_def min_def)
qed

text \<open>
  Converting the memory limit from megabytes to bytes never overflows 64 bits: the byte
  count is exactly \<open>mb \<cdot> 2\<^sup>2\<^sup>0\<close>, below \<open>2\<^sup>5\<^sup>2\<close>, and is 0 only for 0 MB, so neither
  \<^verbatim>\<open>EINVAL\<close> branch of \<^verbatim>\<open>resource_apply_limits\<close> can be taken for a non-null configuration.
\<close>

theorem memory_bytes_exact:
  "unat (memory_bytes mb) = unat mb * 1048576 \<and> unat (memory_bytes mb) < 2 ^ 52
   \<and> (memory_bytes mb = 0 \<longleftrightarrow> mb = 0)"
  using unat_memory_bytes [of mb] unsigned_less [of mb, where 'a = nat] by simp

end
