(* ===== verification/Tables.thy ===== *)
theory Tables
  imports CString
begin

text \<open>
  The tables the program prints: the \<^verbatim>\<open>print_cli_*\<close> helpers of \<^verbatim>\<open>src/container.c\<close>, their
  counterparts in \<^verbatim>\<open>src/main.c\<close> and the \<^verbatim>\<open>logger_print_*\<close> helpers of \<^verbatim>\<open>src/logger.c\<close>. Each
  function is modelled by the bytes it writes to standard output; the box-drawing glyphs are
  their UTF-8 encodings. A pointer that may be NULL is an option.
\<close>

section \<open>Glyphs and padding\<close>

definition box_h :: string where
  "box_h = [CHR 0xE2, CHR 0x94, CHR 0x80]"

definition box_v :: string where
  "box_v = [CHR 0xE2, CHR 0x94, CHR 0x82]"

definition box_tl :: string where
  "box_tl = [CHR 0xE2, CHR 0x95, CHR 0xAD]"

definition box_tr :: string where
  "box_tr = [CHR 0xE2, CHR 0x95, CHR 0xAE]"

definition box_vr :: string where
  "box_vr = [CHR 0xE2, CHR 0x94, CHR 0x9C]"

definition box_vl :: string where
  "box_vl = [CHR 0xE2, CHR 0x94, CHR 0xA4]"

definition box_ht :: string where
  "box_ht = [CHR 0xE2, CHR 0x94, CHR 0xAC]"

definition box_x :: string where
  "box_x = [CHR 0xE2, CHR 0x94, CHR 0xBC]"

definition box_bl :: string where
  "box_bl = [CHR 0xE2, CHR 0x95, CHR 0xB0]"

definition box_hb :: string where
  "box_hb = [CHR 0xE2, CHR 0x94, CHR 0xB4]"

definition box_br :: string where
  "box_br = [CHR 0xE2, CHR 0x95, CHR 0xAF]"

abbreviation nl :: string where "nl \<equiv> [CHR 0x0A]"

text \<open>The conversion \<^verbatim>\<open>%-*.*s\<close> with both stars equal: cut to \<open>w\<close> bytes, pad with blanks to \<open>w\<close>.\<close>

definition pad_cut :: "nat \<Rightarrow> string \<Rightarrow> string" where
  "pad_cut w s = take w s @ replicate (w - length s) (CHR '' '')"

section \<open>Tables of \<^verbatim>\<open>container.c\<close>\<close>

definition safe_text :: "string option \<Rightarrow> string" where
  "safe_text text = (case text of None \<Rightarrow> [] | Some t \<Rightarrow> t)"

definition print_cli_repeat :: "string \<Rightarrow> nat \<Rightarrow> string" where
  "print_cli_repeat glyph count = concat (replicate count glyph)"

definition table_inner_width :: "nat list \<Rightarrow> nat" where
  "table_inner_width widths =
     (let total = foldl (\<lambda>t w. t + (w + 2)) 0 widths in
      if length widths > 0 then total + (length widths - 1) else total)"

definition print_cli_full_border :: "nat \<Rightarrow> string \<Rightarrow> string \<Rightarrow> string" where
  "print_cli_full_border inner_width left right =
     left @ print_cli_repeat box_h (inner_width + 2) @ right @ nl"

definition print_cli_full_row :: "nat \<Rightarrow> string option \<Rightarrow> string" where
  "print_cli_full_row inner_width text =
     box_v @ '' '' @ pad_cut inner_width (safe_text text) @ '' '' @ box_v @ nl"

fun border_cells :: "nat list \<Rightarrow> string \<Rightarrow> string \<Rightarrow> string" where
  "border_cells [] middle right = []"
| "border_cells [w] middle right = print_cli_repeat box_h (w + 2) @ right"
| "border_cells (w # ws) middle right = print_cli_repeat box_h (w + 2) @ middle @ border_cells ws middle right"

definition print_cli_table_border :: "nat list \<Rightarrow> string \<Rightarrow> string \<Rightarrow> string \<Rightarrow> string" where
  "print_cli_table_border widths left middle right = left @ border_cells widths middle right @ nl"

fun row_cells :: "string option list \<Rightarrow> nat list \<Rightarrow> string" where
  "row_cells (v # vs) (w # ws) = '' '' @ pad_cut w (safe_text v) @ '' '' @ box_v @ row_cells vs ws"
| "row_cells _ _ = []"

definition print_cli_table_row :: "string option list \<Rightarrow> nat list \<Rightarrow> string" where
  "print_cli_table_row values widths = box_v @ row_cells values widths @ nl"

definition DETAIL_WIDTHS :: "nat list" where
  "DETAIL_WIDTHS = [12, 60]"

definition INVENTORY_WIDTHS :: "nat list" where
  "INVENTORY_WIDTHS = [14, 12, 8, 7, 10, 18, 16, 22]"

definition STATS_WIDTHS :: "nat list" where
  "STATS_WIDTHS = [14, 7, 5, 8, 7, 8, 8, 5, 18]"

definition INVENTORY_HEADERS :: "string list" where
  "INVENTORY_HEADERS = [''ID'', ''NAME'', ''STATE'', ''PID'', ''HOST'', ''ROOTFS'', ''COMMAND'', ''LIMITS'']"

definition STATS_HEADERS :: "string list" where
  "STATS_HEADERS = [''ID'', ''PID'', ''STATE'', ''CPU(s)'', ''CPU(%)'', ''RSS(MB)'', ''VSZ(MB)'', ''THR'', ''COMMAND'']"

definition print_detail_box_header :: "string \<Rightarrow> string" where
  "print_detail_box_header title =
     (let inner_width = table_inner_width DETAIL_WIDTHS in
      print_cli_full_border inner_width box_tl box_tr @
      print_cli_full_row inner_width (Some title) @
      print_cli_table_border DETAIL_WIDTHS box_vr box_ht box_vl)"

definition print_detail_row :: "string \<Rightarrow> string \<Rightarrow> string" where
  "print_detail_row label val = print_cli_table_row [Some label, Some val] DETAIL_WIDTHS"

definition print_detail_box_footer :: string where
  "print_detail_box_footer = print_cli_table_border DETAIL_WIDTHS box_bl box_hb box_br"

definition print_table_message :: "nat list \<Rightarrow> string \<Rightarrow> string" where
  "print_table_message widths message = print_cli_full_row (table_inner_width widths) (Some message)"

definition print_inventory_table_header :: string where
  "print_inventory_table_header =
     print_cli_table_border INVENTORY_WIDTHS box_tl box_ht box_tr @
     print_cli_table_row (map Some INVENTORY_HEADERS) INVENTORY_WIDTHS @
     print_cli_table_border INVENTORY_WIDTHS box_vr box_x box_vl"

definition print_inventory_table_footer :: string where
  "print_inventory_table_footer = print_cli_table_border INVENTORY_WIDTHS box_bl box_hb box_br"

definition print_stats_footer :: string where
  "print_stats_footer = print_cli_table_border STATS_WIDTHS box_bl box_hb box_br"

section \<open>Tables of \<^verbatim>\<open>main.c\<close>\<close>

definition HELP_CMD_WIDTH :: nat where "HELP_CMD_WIDTH = 46"
definition HELP_DESC_WIDTH :: nat where "HELP_DESC_WIDTH = 50"
definition INFO_KEY_WIDTH :: nat where "INFO_KEY_WIDTH = 12"
definition INFO_VALUE_WIDTH :: nat where "INFO_VALUE_WIDTH = 48"
definition HELP_INNER_WIDTH :: nat where "HELP_INNER_WIDTH = HELP_CMD_WIDTH + HELP_DESC_WIDTH + 5"
definition INFO_INNER_WIDTH :: nat where "INFO_INNER_WIDTH = INFO_KEY_WIDTH + INFO_VALUE_WIDTH + 5"

definition print_repeat :: "string \<Rightarrow> nat \<Rightarrow> string" where
  "print_repeat glyph count = concat (replicate count glyph)"

definition print_full_border :: "string \<Rightarrow> nat \<Rightarrow> string \<Rightarrow> string" where
  "print_full_border left inner_width right = left @ print_repeat box_h (inner_width + 2) @ right @ nl"

definition print_full_row :: "nat \<Rightarrow> string option \<Rightarrow> string" where
  "print_full_row inner_width text = box_v @ '' '' @ pad_cut inner_width (safe_text text) @ '' '' @ box_v @ nl"

definition print_split_border :: "nat \<Rightarrow> nat \<Rightarrow> string \<Rightarrow> string \<Rightarrow> string \<Rightarrow> string" where
  "print_split_border left_width right_width left middle right =
     left @ print_repeat box_h (left_width + 2) @ middle @ print_repeat box_h (right_width + 2) @ right @ nl"

definition print_two_col_row :: "nat \<Rightarrow> nat \<Rightarrow> string option \<Rightarrow> string option \<Rightarrow> string" where
  "print_two_col_row left_width right_width left_text right_text =
     box_v @ '' '' @ pad_cut left_width (safe_text left_text) @ '' '' @ box_v @ '' '' @
     pad_cut right_width (safe_text right_text) @ '' '' @ box_v @ nl"

definition print_help_row :: "string \<Rightarrow> string \<Rightarrow> string" where
  "print_help_row command description =
     print_two_col_row HELP_CMD_WIDTH HELP_DESC_WIDTH (Some command) (Some description)"

definition print_help_section_row :: "string \<Rightarrow> string" where
  "print_help_section_row sect = print_full_row HELP_INNER_WIDTH (Some sect)"

definition print_info_row :: "string \<Rightarrow> string \<Rightarrow> string" where
  "print_info_row label val = print_two_col_row INFO_KEY_WIDTH INFO_VALUE_WIDTH (Some label) (Some val)"

section \<open>Terminal columns\<close>

text \<open>
  The number of terminal columns a line of UTF-8 text takes, with one column per code point:
  the bytes that are not continuation bytes.
\<close>

definition continuation :: "char \<Rightarrow> bool" where
  "continuation c \<longleftrightarrow> 128 \<le> (of_char c :: nat) \<and> (of_char c :: nat) < 192"

definition columns :: "string \<Rightarrow> nat" where
  "columns s = length (filter (\<lambda>c. \<not> continuation c) s)"

definition ascii :: "string \<Rightarrow> bool" where
  "ascii s \<longleftrightarrow> (\<forall>c \<in> set s. (of_char c :: nat) < 128)"

lemma columns_append [simp]: "columns (s @ t) = columns s + columns t"
  by (simp add: columns_def)

lemma columns_space [simp]: "columns (CHR '' '' # s) = Suc (columns s)"
  by (simp add: columns_def continuation_def)

lemma columns_Nil [simp]: "columns [] = 0"
  by (simp add: columns_def)

lemma columns_ascii: "ascii s \<Longrightarrow> columns s = length s"
  unfolding columns_def ascii_def by (metis continuation_def filter_True leD)

lemma columns_glyph [simp]:
  "columns box_h = 1" "columns box_v = 1" "columns box_tl = 1" "columns box_tr = 1" "columns box_vr = 1"
  "columns box_vl = 1" "columns box_ht = 1" "columns box_x = 1" "columns box_bl = 1" "columns box_hb = 1"
  "columns box_br = 1" "columns [CHR 0x0A] = 1"
  by (simp_all add: columns_def continuation_def box_h_def box_v_def box_tl_def box_tr_def box_vr_def
    box_vl_def box_ht_def box_x_def box_bl_def box_hb_def box_br_def)

lemma columns_repeat: "columns (concat (replicate n g)) = n * columns g"
  by (induction n) simp_all

lemma length_pad_cut [simp]: "length (pad_cut w s) = w"
  by (simp add: pad_cut_def)

lemma ascii_pad_cut: "ascii s \<Longrightarrow> ascii (pad_cut w s)"
  by (auto simp: ascii_def pad_cut_def dest: in_set_takeD)

lemma columns_pad_cut [simp]: "ascii s \<Longrightarrow> columns (pad_cut w s) = w"
  by (simp add: columns_ascii ascii_pad_cut)

lemma pad_cut_exact: "length s \<le> w \<Longrightarrow> pad_cut w s = s @ replicate (w - length s) (CHR '' '')"
  by (simp add: pad_cut_def)

lemma columns_border_cells:
  "columns middle = 1 \<Longrightarrow> columns right = 1 \<Longrightarrow>
   columns (border_cells ws middle right) = sum_list ws + 3 * length ws"
  by (induction ws middle right rule: border_cells.induct) (simp_all add: print_cli_repeat_def columns_repeat)

lemma columns_row_cells:
  "length vs = length ws \<Longrightarrow> \<forall>v \<in> set vs. ascii (safe_text v) \<Longrightarrow>
   columns (row_cells vs ws) = sum_list ws + 3 * length ws"
  by (induction vs ws rule: row_cells.induct) simp_all

lemma foldl_widths: "foldl (\<lambda>t w. Suc (Suc (t + w))) a ws = a + sum_list ws + 2 * length (ws :: nat list)"
  by (induction ws arbitrary: a) simp_all

lemma table_inner_width_eq: "ws \<noteq> [] \<Longrightarrow> table_inner_width ws + 1 = sum_list ws + 3 * length ws"
  by (cases ws) (simp_all add: table_inner_width_def foldl_widths Let_def)

section \<open>Properties\<close>

text \<open>
  Rows and borders of a table line up: for ASCII cells, a row is exactly as many columns
  wide as a border of the same table, whatever the length of the cell texts (long ones are
  cut, short ones padded).
\<close>

theorem table_row_aligned:
  assumes "length vs = length ws" and "\<forall>v \<in> set vs. ascii (safe_text v)"
    and "columns left = 1" and "columns middle = 1" and "columns right = 1"
  shows "columns (print_cli_table_row vs ws) = columns (print_cli_table_border ws left middle right)"
  using columns_row_cells [OF assms(1,2)] columns_border_cells [OF assms(4,5), of ws] assms(3)
  by (simp add: print_cli_table_row_def print_cli_table_border_def)

theorem table_row_aligned_witness:
  "columns (print_cli_table_row (map Some INVENTORY_HEADERS) INVENTORY_WIDTHS)
   = columns (print_cli_table_border INVENTORY_WIDTHS box_tl box_ht box_tr)"
  by (rule table_row_aligned) (simp_all add: INVENTORY_HEADERS_def INVENTORY_WIDTHS_def safe_text_def ascii_def)

text \<open>
  A title row is two columns wider than the table under it: \<^verbatim>\<open>table_inner_width\<close> counts the
  padding of the outer cells that \<^verbatim>\<open>print_cli_full_row\<close> adds again.
\<close>

theorem table_title_too_wide:
  assumes "ws \<noteq> []" and "ascii title"
    and "columns left = 1" and "columns middle = 1" and "columns right = 1"
  shows "columns (print_cli_full_row (table_inner_width ws) (Some title))
       = columns (print_cli_table_border ws left middle right) + 2"
proof -
  have "columns (print_cli_full_row (table_inner_width ws) (Some title)) = table_inner_width ws + 5"
    using assms(2) by (simp add: print_cli_full_row_def safe_text_def)
  moreover have "columns (print_cli_table_border ws left middle right) = sum_list ws + 3 * length ws + 2"
    using columns_border_cells [OF assms(4,5), of ws] assms(3) by (simp add: print_cli_table_border_def)
  ultimately show ?thesis using table_inner_width_eq [OF assms(1)] by simp
qed

theorem table_title_too_wide_witness:
  "columns (print_cli_full_row (table_inner_width DETAIL_WIDTHS) (Some ''Container Inventory''))
   = columns (print_cli_table_border DETAIL_WIDTHS box_vr box_ht box_vl) + 2"
  by (rule table_title_too_wide) (simp_all add: DETAIL_WIDTHS_def ascii_def)

end
