(* ===== verification/Container.thy ===== *)
theory Container
  imports Resource Tables
begin

text \<open>
  Data and pure helpers of the container manager: the types of \<^verbatim>\<open>src/container.h\<close> and the
  functions of \<^verbatim>\<open>src/container.c\<close> that neither call the kernel nor change global state. A
  container's \<open>stack\<close> field records whether the child stack is allocated; the \<open>next\<close>
  pointer is modelled in theory \<open>Container_List\<close>.
\<close>

section \<open>Types\<close>

datatype ContainerState = STATE_CREATED | STATE_RUNNING | STATE_STOPPED

record Container =
  id :: string
  name :: string
  pid :: pid
  hostname :: string
  rootfs :: string
  command_line :: string
  resource_limits :: ResourceConfig
  state :: ContainerState
  stack :: bool

record ContainerSpec =
  spec_name :: "string option"
  spec_hostname :: "string option"
  spec_rootfs :: "string option"
  spec_command_line :: "string option"
  spec_resource_limits :: ResourceConfig

abbreviation (input) CONTAINER_ID_LEN :: nat where "CONTAINER_ID_LEN \<equiv> 64"
abbreviation (input) CONTAINER_NAME_LEN :: nat where "CONTAINER_NAME_LEN \<equiv> 64"
abbreviation (input) CONTAINER_HOSTNAME_LEN :: nat where "CONTAINER_HOSTNAME_LEN \<equiv> 64"
abbreviation (input) CONTAINER_ROOTFS_LEN :: nat where "CONTAINER_ROOTFS_LEN \<equiv> 512"
abbreviation (input) CONTAINER_COMMAND_LEN :: nat where "CONTAINER_COMMAND_LEN \<equiv> 256"
abbreviation (input) DEFAULT_CONTAINER_COMMAND :: string where "DEFAULT_CONTAINER_COMMAND \<equiv> ''/bin/sh''"
abbreviation (input) STACK_SIZE :: nat where "STACK_SIZE \<equiv> 1048576"

definition no_limits :: ResourceConfig where
  "no_limits = \<lparr>cpu_seconds = 0, memory_mb = 0, max_processes = 0\<rparr>"

section \<open>Helpers\<close>

fun state_to_string :: "ContainerState \<Rightarrow> string" where
  "state_to_string STATE_CREATED = ''CREATED''"
| "state_to_string STATE_RUNNING = ''RUNNING''"
| "state_to_string STATE_STOPPED = ''STOPPED''"

definition string_to_state :: "string \<Rightarrow> ContainerState" where
  "string_to_state v = (if v = ''RUNNING'' then STATE_RUNNING
     else if v = ''STOPPED'' then STATE_STOPPED else STATE_CREATED)"

text \<open>The content of the destination buffer afterwards; \<open>old\<close> is its content before.\<close>

definition copy_string :: "string \<Rightarrow> nat \<Rightarrow> string option \<Rightarrow> string" where
  "copy_string old dst_size src = (if dst_size = 0 then old
     else case src of None \<Rightarrow> [] | Some s \<Rightarrow> snprintf dst_size s)"

definition trim_newline :: "string \<Rightarrow> string" where
  "trim_newline line = takeWhile (\<lambda>c. c \<noteq> CHR 0x0D \<and> c \<noteq> CHR 0x0A) line"

text \<open>\<^verbatim>\<open>sys/wait.h\<close>: how a wait status encodes an exit code or a signal.\<close>

definition WIFEXITED :: "int \<Rightarrow> bool" where
  "WIFEXITED status \<longleftrightarrow> status mod 128 = 0"

definition WEXITSTATUS :: "int \<Rightarrow> int" where
  "WEXITSTATUS status = (status div 256) mod 256"

definition WIFSIGNALED :: "int \<Rightarrow> bool" where
  "WIFSIGNALED status \<longleftrightarrow> status mod 128 \<noteq> 0 \<and> status mod 128 \<noteq> 127"

definition WTERMSIG :: "int \<Rightarrow> int" where
  "WTERMSIG status = status mod 128"

definition format_wait_status :: "int \<Rightarrow> nat \<Rightarrow> string" where
  "format_wait_status status buffer_size = snprintf buffer_size
     (if WIFEXITED status then ''exited code='' @ show_int (WEXITSTATUS status)
      else if WIFSIGNALED status then ''killed signal='' @ show_int (WTERMSIG status)
      else ''status='' @ show_int status)"

text \<open>The event type and the message \<^verbatim>\<open>log_container_exit_status\<close> logs.\<close>

definition exit_status_event :: "string \<Rightarrow> string \<Rightarrow> int \<Rightarrow> string \<times> string" where
  "exit_status_event container_id pre status =
     (let reason = format_wait_status status 64;
          message = container_id @ '' '' @ pre @ '' ('' @ reason @ '')'' in
      if WIFSIGNALED status \<and> WTERMSIG status = SIGXCPU then (''RESOURCE_LIMIT_HIT'', message)
      else (''CONTAINER_STOPPED'', message))"

text \<open>\<^verbatim>\<open>sscanf(id, "container-%d", &value) == 1\<close>: the value, if the conversion succeeds.\<close>

definition scan_container_number :: "string \<Rightarrow> int option" where
  "scan_container_number s =
     (if prefix ''container-'' s then
        (let rest = drop 10 s in case number_prefix rest of None \<Rightarrow> None | Some _ \<Rightarrow> Some (cast_int (strtol rest)))
      else None)"

text \<open>The new value of \<^verbatim>\<open>next_sequence\<close>; the addition is that of a 32-bit \<^verbatim>\<open>int\<close>.\<close>

definition update_next_sequence :: "string \<Rightarrow> int \<Rightarrow> int" where
  "update_next_sequence s next_sequence = (case scan_container_number s of
     None \<Rightarrow> next_sequence
   | Some v \<Rightarrow> if v \<ge> next_sequence then cast_int (v + 1) else next_sequence)"

definition normalize_resource_limits :: "ResourceConfig option \<Rightarrow> unit result" where
  "normalize_resource_limits limits = (case limits of None \<Rightarrow> Inl EINVAL | Some _ \<Rightarrow> Inr ())"

definition container_id_of :: "int \<Rightarrow> string" where
  "container_id_of sequence = snprintf CONTAINER_ID_LEN (''container-'' @ show_int04 sequence)"

section \<open>Lemmas\<close>

lemma state_roundtrip [simp]: "string_to_state (state_to_string s) = s"
  by (cases s) (simp_all add: string_to_state_def)

lemma copy_string_length [fits_intro]: "0 < n \<Longrightarrow> length (copy_string old n src) < n"
  by (auto simp: copy_string_def snprintf_def split: option.split)

lemma read_digits_zeros: "read_digits (replicate k (CHR ''0'') @ ds) = read_digits ds"
proof -
  have "foldl (\<lambda>a c. 10 * a + digit_val c) 0 (replicate k (CHR ''0'')) = 0"
    by (induction k) (simp_all add: digit_val_def flip: replicate_append_same)
  then show ?thesis by (simp add: read_digits_def)
qed

lemma number_prefix_show_int04:
  assumes "0 \<le> i" shows "number_prefix (show_int04 i) = Some (False, nat i)"
proof -
  let ?ds = "replicate (4 - length (show_nat (nat i))) (CHR ''0'') @ show_nat (nat i)"
  have "isdigit c" if "c \<in> set ?ds" for c
    using that by (auto simp: isdigit_def dest: show_nat_isdigit [unfolded isdigit_def])
  then have "number_prefix (?ds @ []) = Some (False, read_digits ?ds)"
    by (intro number_prefix_digits) simp_all
  then show ?thesis using assms by (simp add: show_int04_def Let_def read_digits_zeros)
qed

lemma length_show_int04: "0 \<le> i \<Longrightarrow> i \<le> INT_MAX \<Longrightarrow> length (show_int04 i) \<le> 10"
proof -
  assume i: "0 \<le> i" "i \<le> INT_MAX"
  then have "length (show_nat (nat i)) \<le> 10" by (intro length_show_nat; simp add: nat_less_iff)
  with i show ?thesis by (simp add: show_int04_def Let_def)
qed

lemma container_id_of_eq:
  "0 \<le> n \<Longrightarrow> n \<le> INT_MAX \<Longrightarrow> container_id_of n = ''container-'' @ show_int04 n"
  using length_show_int04 [of n] by (simp add: container_id_of_def snprintf_id)

lemma scan_container_number_prefix:
  "scan_container_number (''container-'' @ r) =
     (case number_prefix r of None \<Rightarrow> None | Some _ \<Rightarrow> Some (cast_int (strtol r)))"
proof -
  have "drop 10 (''container-'' @ r) = r" by simp
  moreover have "prefix ''container-'' (''container-'' @ r)" by (rule prefixI) (rule refl)
  ultimately show ?thesis unfolding scan_container_number_def Let_def by (simp only: if_True)
qed

lemma scan_container_id_of:
  assumes "0 \<le> n" "n \<le> INT_MAX" shows "scan_container_number (container_id_of n) = Some n"
proof -
  have "strtol (show_int04 n) = n"
    using assms number_prefix_show_int04 [OF assms(1)] by (simp add: strtol_def)
  then show ?thesis
    unfolding container_id_of_eq [OF assms] scan_container_number_prefix
    using assms number_prefix_show_int04 [OF assms(1)] by (simp add: cast_int_id)
qed

lemma container_id_of_inj:
  "0 \<le> m \<Longrightarrow> m \<le> INT_MAX \<Longrightarrow> 0 \<le> n \<Longrightarrow> n \<le> INT_MAX \<Longrightarrow> container_id_of m = container_id_of n \<Longrightarrow> m = n"
  by (metis scan_container_id_of option.inject)

end
