(* ===== verification/Container_List.thy ===== *)
theory Container_List
  imports Container
begin

text \<open>
  The singly linked list of containers with its \<^verbatim>\<open>head\<close> and \<^verbatim>\<open>tail\<close> pointers:
  \<^verbatim>\<open>append_container\<close>, \<^verbatim>\<open>remove_container\<close> and \<^verbatim>\<open>find_container\<close> of \<^verbatim>\<open>src/container.c\<close> on an
  explicit store. An address is a natural number, \<^const>\<open>None\<close> is NULL; the store gives every
  node its \<^verbatim>\<open>next\<close> pointer and its container. A walk over a damaged (cyclic) list would not
  end, so the walks are partial functions and the lemmas show that they return.
\<close>

section \<open>Store and operations\<close>

type_synonym addr = nat

record clist =
  head :: "addr option"
  tail :: "addr option"
  nxt :: "addr \<Rightarrow> addr option"
  node :: "addr \<Rightarrow> Container"

definition append_container :: "addr \<Rightarrow> clist \<Rightarrow> clist" where
  "append_container c l =
     (let l1 = l\<lparr>nxt := (nxt l)(c := None)\<rparr> in
      case tail l1 of
        None \<Rightarrow> l1\<lparr>head := Some c, tail := Some c\<rparr>
      | Some t \<Rightarrow> l1\<lparr>nxt := (nxt l1)(t := Some c), tail := Some c\<rparr>)"

definition unlink_node :: "addr option \<Rightarrow> addr \<Rightarrow> clist \<Rightarrow> clist" where
  "unlink_node prev cursor l =
     (let l1 = (case prev of None \<Rightarrow> l\<lparr>head := nxt l cursor\<rparr>
                | Some p \<Rightarrow> l\<lparr>nxt := (nxt l)(p := nxt l cursor)\<rparr>);
          l2 = (if tail l1 = Some cursor then l1\<lparr>tail := prev\<rparr> else l1)
      in l2\<lparr>nxt := (nxt l2)(cursor := None)\<rparr>)"

partial_function (option) remove_walk :: "addr \<Rightarrow> addr option \<Rightarrow> addr option \<Rightarrow> clist \<Rightarrow> clist option" where
  "remove_walk c prev cursor l = (case cursor of
     None \<Rightarrow> Some l
   | Some a \<Rightarrow> if a \<noteq> c then remove_walk c (Some a) (nxt l a) l else Some (unlink_node prev a l))"

definition remove_container :: "addr \<Rightarrow> clist \<Rightarrow> clist option" where
  "remove_container c l = remove_walk c None (head l) l"

partial_function (option) find_walk :: "string \<Rightarrow> addr option \<Rightarrow> clist \<Rightarrow> addr option option" where
  "find_walk i cursor l = (case cursor of
     None \<Rightarrow> Some None
   | Some a \<Rightarrow> if id (node l a) = i then Some (Some a) else find_walk i (nxt l a) l)"

definition find_container_ptr :: "string \<Rightarrow> clist \<Rightarrow> addr option option" where
  "find_container_ptr i l = find_walk i (head l) l"

section \<open>The list a store represents\<close>

fun path :: "(addr \<Rightarrow> addr option) \<Rightarrow> addr option \<Rightarrow> addr list \<Rightarrow> addr option \<Rightarrow> bool" where
  "path nx p [] q \<longleftrightarrow> p = q"
| "path nx p (a # as) q \<longleftrightarrow> p = Some a \<and> path nx (nx a) as q"

definition represents :: "clist \<Rightarrow> addr list \<Rightarrow> bool" where
  "represents l as \<longleftrightarrow> path (nxt l) (head l) as None \<and> distinct as
     \<and> tail l = (if as = [] then None else Some (last as))"

lemma path_append: "path nx p (as @ bs) q \<longleftrightarrow> (\<exists>r. path nx p as r \<and> path nx r bs q)"
  by (induction as arbitrary: p) auto

lemma path_upd [simp]: "a \<notin> set as \<Longrightarrow> path (nx(a := v)) p as q = path nx p as q"
  by (induction as arbitrary: p) auto

lemma path_snoc: "path nx p (as @ [a]) q \<longleftrightarrow> path nx p as (Some a) \<and> nx a = q"
  by (auto simp: path_append)

lemma append_container_represents:
  assumes "represents l as" "c \<notin> set as"
  shows "represents (append_container c l) (as @ [c])"
proof (cases as rule: rev_cases)
  case Nil
  with assms show ?thesis by (simp add: represents_def append_container_def Let_def)
next
  case (snoc bs b)
  then have "b \<noteq> c" "b \<notin> set bs" "c \<notin> set bs" using assms by (auto simp: represents_def)
  with assms snoc show ?thesis
    by (simp add: represents_def append_container_def Let_def path_snoc path_append)
qed

lemma unlink_node_represents:
  assumes "represents l (as @ c # bs)"
  shows "represents (unlink_node (if as = [] then None else Some (last as)) c l) (as @ bs)"
    and "nxt (unlink_node (if as = [] then None else Some (last as)) c l) c = None"
proof -
  have c: "c \<notin> set as" "c \<notin> set bs" and d: "distinct (as @ bs)"
    and tail: "tail l = Some (last (c # bs))"
    using assms by (auto simp: represents_def)
  have bs: "path (nxt l) (nxt l c) bs None" using assms by (auto simp: represents_def path_append)
  show "nxt (unlink_node (if as = [] then None else Some (last as)) c l) c = None"
    by (simp add: unlink_node_def Let_def)
  have last_c: "last (c # bs) = c \<longleftrightarrow> bs = []" using c(2) by (metis last.simps last_in_set)
  show "represents (unlink_node (if as = [] then None else Some (last as)) c l) (as @ bs)"
  proof (cases as rule: rev_cases)
    case Nil
    with bs c d tail last_c show ?thesis by (auto simp: represents_def unlink_node_def Let_def)
  next
    case (snoc as' p)
    have "path (nxt l) (head l) as' (Some p)" using assms snoc by (auto simp: represents_def path_append)
    moreover have "p \<notin> set bs" "p \<notin> set as'" "c \<notin> set as'" "p \<noteq> c" using snoc c d by auto
    ultimately show ?thesis
      using snoc bs c d tail last_c by (auto simp: represents_def unlink_node_def Let_def path_append)
  qed
qed

lemma remove_walk_split:
  assumes "path (nxt l) p (as @ c # bs) q" "c \<notin> set as"
  shows "remove_walk c prev p l = Some (unlink_node (if as = [] then prev else Some (last as)) c l)"
  using assms
proof (induction as arbitrary: p prev)
  case Nil
  then show ?case by (simp add: remove_walk.simps)
next
  case (Cons a as)
  then have "remove_walk c (Some a) (nxt l a) l = Some (unlink_node (if as = [] then Some a else Some (last as)) c l)"
    by simp
  with Cons.prems show ?case by (subst remove_walk.simps) auto
qed

lemma remove_walk_absent:
  "path (nxt l) p as None \<Longrightarrow> c \<notin> set as \<Longrightarrow> remove_walk c prev p l = Some l"
  by (induction as arbitrary: p prev) (simp_all add: remove_walk.simps)

lemma find_walk_eq:
  "path (nxt l) p as None \<Longrightarrow> find_walk i p l = Some (find (\<lambda>a. id (node l a) = i) as)"
  by (induction as arbitrary: p) (simp_all add: find_walk.simps)

lemma unlink_node_node [simp]: "node (unlink_node prev c l) = node l"
  by (simp add: unlink_node_def Let_def split: option.split)

lemma append_container_node [simp]: "node (append_container c l) = node l"
  by (simp add: append_container_def Let_def split: option.split)

lemma split_first:
  assumes "c \<in> set as"
  obtains bs cs where "as = bs @ c # cs" "c \<notin> set bs" "remove1 c as = bs @ cs"
proof -
  obtain bs cs where "as = bs @ c # cs" "c \<notin> set bs" using split_list_first [OF assms] by blast
  then show thesis using that [of bs cs] by (simp add: remove1_append)
qed

section \<open>A list of containers as an interface\<close>

text \<open>
  What the manager relies on: adding puts the new handle last, removing takes out exactly the
  given handle and keeps the order of the others, a look-up by id gives the first match.
\<close>

locale container_sequence =
  fixes add :: "'h \<Rightarrow> 's \<Rightarrow> 's"
    and remove :: "'h \<Rightarrow> 's \<Rightarrow> 's option"
    and lookup :: "string \<Rightarrow> 's \<Rightarrow> 'h option option"
    and repr :: "'s \<Rightarrow> 'h list \<Rightarrow> bool"
    and id_of :: "'s \<Rightarrow> 'h \<Rightarrow> string"
  assumes add_repr: "repr s hs \<Longrightarrow> h \<notin> set hs \<Longrightarrow> repr (add h s) (hs @ [h])"
    and remove_repr: "repr s hs \<Longrightarrow> \<exists>s'. remove h s = Some s' \<and> repr s' (remove1 h hs)"
    and lookup_repr: "repr s hs \<Longrightarrow> lookup i s = Some (find (\<lambda>h. id_of s h = i) hs)"
    and repr_distinct: "repr s hs \<Longrightarrow> distinct hs"
    and remove_id: "remove h s = Some s' \<Longrightarrow> id_of s' = id_of s"
begin

lemma remove_add:
  assumes "repr s hs" "h \<notin> set hs"
  shows "\<exists>s'. remove h (add h s) = Some s' \<and> repr s' hs"
  using remove_repr [OF add_repr [OF assms], of h] assms(2) by (simp add: remove1_append)

lemma lookup_removed:
  assumes "repr s hs" "remove h s = Some s'" "repr s' (remove1 h hs)" "lookup (id_of s h) s' = Some (Some h')"
  shows "h' \<noteq> h"
proof -
  have "find (\<lambda>x. id_of s' x = id_of s h) (remove1 h hs) = Some h'"
    using lookup_repr [OF assms(3)] assms(4) by simp
  then have "h' \<in> set (remove1 h hs)" by (auto simp: find_Some_iff in_set_conv_nth)
  then show ?thesis using repr_distinct [OF assms(1)] by auto
qed

end

lemma remove_container_represents:
  assumes "represents l as"
  shows "\<exists>l'. remove_container c l = Some l' \<and> represents l' (remove1 c as)"
proof (cases "c \<in> set as")
  case True
  then obtain bs cs where as: "as = bs @ c # cs" "c \<notin> set bs" "remove1 c as = bs @ cs"
    by (rule split_first)
  have "path (nxt l) (head l) (bs @ c # cs) None" using assms as by (simp add: represents_def)
  with as show ?thesis
    using remove_walk_split [of l "head l" bs c cs None None] unlink_node_represents(1) [of l bs c cs] assms
    by (simp add: remove_container_def)
next
  case False
  with assms show ?thesis
    using remove_walk_absent [of l "head l" as c None]
    by (simp add: remove_container_def represents_def remove1_idem)
qed

lemma remove_container_node: "remove_container c l = Some l' \<Longrightarrow> node l' = node l"
proof -
  assume "remove_container c l = Some l'"
  then have ret: "remove_walk c None (head l) l = Some l'" by (simp add: remove_container_def)
  show ?thesis
    by (rule remove_walk.raw_induct [where P = "\<lambda>c p q l l'. node l' = node l", OF _ ret])
       (auto split: option.splits if_splits)
qed

interpretation cl: container_sequence append_container remove_container find_container_ptr represents
  "\<lambda>l a. id (node l a)"
proof
  fix l hs and h :: addr and i l'
  assume r: "represents l hs"
  then show "find_container_ptr i l = Some (find (\<lambda>h. id (node l h) = i) hs)"
    by (simp add: find_container_ptr_def represents_def find_walk_eq)
  from r show "h \<notin> set hs \<Longrightarrow> represents (append_container h l) (hs @ [h])"
    by (rule append_container_represents)
  from r show "\<exists>l'. remove_container h l = Some l' \<and> represents l' (remove1 h hs)"
    by (rule remove_container_represents)
  from r show "distinct hs" by (simp add: represents_def)
qed (simp add: remove_container_node fun_eq_iff)

section \<open>Properties\<close>

text \<open>
  The pointer operations refine a sequence of containers: on a well-formed list,
  \<^verbatim>\<open>append_container\<close> puts a new node last; \<^verbatim>\<open>remove_container\<close> returns, and takes out exactly the
  given node, keeping the others in order and the tail pointer right; removing what was just
  appended gives back the old sequence.
\<close>

theorem container_list_refines:
  assumes "represents l as" and "c \<notin> set as"
  shows "represents (append_container c l) (as @ [c])
    \<and> (\<forall>d. \<exists>l'. remove_container d l = Some l' \<and> represents l' (remove1 d as))
    \<and> (\<exists>l'. remove_container c (append_container c l) = Some l' \<and> represents l' as)"
  using cl.add_repr [OF assms] cl.remove_repr [OF assms(1)] cl.remove_add [OF assms] by simp

definition demo_clist :: clist where
  "demo_clist = append_container 7 (append_container 5
     \<lparr>head = None, tail = None, nxt = (\<lambda>_. None), node = (\<lambda>_. undefined)\<rparr>)"

lemma demo_clist_represents: "represents demo_clist [5, 7]"
  by (simp add: demo_clist_def represents_def append_container_def)

theorem container_list_refines_witness:
  "represents (append_container 9 demo_clist) [5, 7, 9]
   \<and> (\<exists>l'. remove_container 5 demo_clist = Some l' \<and> represents l' [7])"
  using container_list_refines [OF demo_clist_represents, of 9, THEN conjunct1]
    container_list_refines [OF demo_clist_represents, of 9, THEN conjunct2, THEN conjunct1, THEN spec, of 5]
  by simp

end
