(* ===== verification/Metadata.thy ===== *)
theory Metadata
  imports Container
begin

text \<open>
  The container database \<^verbatim>\<open>containers.meta\<close>: what \<^verbatim>\<open>save_metadata\<close> writes for the container list
  and what \<^verbatim>\<open>container_manager_init\<close> reads back. A record is one line of ten fields separated by
  tabs. Reading goes through \<^verbatim>\<open>fgets\<close> with a buffer of 1024 bytes and \<^verbatim>\<open>strtok\<close>, which skips
  empty fields. The effects around the file (opening, renaming, logging) are in theory
  \<open>Manager\<close>.
\<close>

abbreviation tab :: string where "tab \<equiv> [CHR 0x09]"

section \<open>Writing\<close>

definition metadata_fields :: "Container \<Rightarrow> string list" where
  "metadata_fields c =
     [id c, name c, show_int (pid c), hostname c, rootfs c, state_to_string (state c), command_line c,
      show_uint (cpu_seconds (resource_limits c)), show_uint (memory_mb (resource_limits c)),
      show_uint (max_processes (resource_limits c))]"

definition metadata_line :: "Container \<Rightarrow> string" where
  "metadata_line c = join tab (metadata_fields c) @ nl"

definition metadata_text :: "Container list \<Rightarrow> string" where
  "metadata_text cs = concat (map metadata_line cs)"

section \<open>Reading\<close>

text \<open>
  \<^verbatim>\<open>fgets\<close> with a buffer of \<open>n\<close> bytes: at most \<open>n - 1\<close> bytes, up to and including the first
  newline. The list of all lines a loop over \<^verbatim>\<open>fgets\<close> sees.
\<close>

definition fgets_line :: "nat \<Rightarrow> string \<Rightarrow> string" where
  "fgets_line n s = (let l = takeWhile (\<lambda>c. c \<noteq> CHR 0x0A) s in
     take (n - 1) (if length l < length s then l @ nl else l))"

function fgets_lines :: "nat \<Rightarrow> string \<Rightarrow> string list" where
  "fgets_lines n s = (if s = [] \<or> n < 2 then []
     else fgets_line n s # fgets_lines n (drop (length (fgets_line n s)) s))"
  by pat_completeness auto
termination
proof (relation "measure (\<lambda>(n, s). length s)", goal_cases)
  case (2 n s)
  then have "0 < length (fgets_line n s)"
    by (cases s) (auto simp: fgets_line_def Let_def)
  with 2 show ?case by auto
qed simp

declare fgets_lines.simps [simp del]

text \<open>
  The fields of one line: the loop stops after ten tokens, so further ones are dropped. A
  line is used when it has 6, 7 or at least 10 tokens.
\<close>

definition parse_record :: "(pid \<Rightarrow> bool) \<Rightarrow> string \<Rightarrow> Container option" where
  "parse_record alive line =
     (let fields = take 10 (strtok {CHR 0x09} (trim_newline line)); index = length fields in
      if index \<noteq> 6 \<and> index \<noteq> 7 \<and> index \<noteq> 10 then None
      else
        let st = string_to_state (fields ! 5); p = atoi (fields ! 2);
            dead = (st = STATE_RUNNING \<and> \<not> alive p) in
        Some \<lparr>id = copy_string [] CONTAINER_ID_LEN (Some (fields ! 0)),
          name = copy_string [] CONTAINER_NAME_LEN (Some (fields ! 1)),
          pid = (if dead then -1 else p),
          hostname = copy_string [] CONTAINER_HOSTNAME_LEN (Some (fields ! 3)),
          rootfs = copy_string [] CONTAINER_ROOTFS_LEN (Some (fields ! 4)),
          command_line = copy_string [] CONTAINER_COMMAND_LEN
            (Some (if index \<ge> 7 then fields ! 6 else DEFAULT_CONTAINER_COMMAND)),
          resource_limits = (if index \<ge> 10
            then \<lparr>cpu_seconds = cast_uint (strtoul (fields ! 7)),
                  memory_mb = cast_uint (strtoul (fields ! 8)),
                  max_processes = cast_uint (strtoul (fields ! 9))\<rparr>
            else no_limits),
          state = (if dead then STATE_STOPPED else st),
          stack = False\<rparr>)"

fun restore_lines :: "(pid \<Rightarrow> bool) \<Rightarrow> string list \<Rightarrow> Container list \<times> int \<Rightarrow> Container list \<times> int" where
  "restore_lines alive [] (cs, seq) = (cs, seq)"
| "restore_lines alive (l # ls) (cs, seq) = (case parse_record alive l of
     None \<Rightarrow> restore_lines alive ls (cs, seq)
   | Some c \<Rightarrow> restore_lines alive ls (cs @ [c], update_next_sequence (id c) seq))"

definition restore :: "(pid \<Rightarrow> bool) \<Rightarrow> string \<Rightarrow> int \<Rightarrow> Container list \<times> int" where
  "restore alive text seq = restore_lines alive (fgets_lines 1024 text) ([], seq)"

section \<open>Well-formed containers\<close>

definition clean :: "string \<Rightarrow> bool" where
  "clean s \<longleftrightarrow> s \<noteq> [] \<and> CHR 0x09 \<notin> set s \<and> CHR 0x0A \<notin> set s \<and> CHR 0x0D \<notin> set s"

definition fits :: "Container \<Rightarrow> bool" where
  "fits c \<longleftrightarrow> length (id c) < CONTAINER_ID_LEN \<and> length (name c) < CONTAINER_NAME_LEN
     \<and> length (hostname c) < CONTAINER_HOSTNAME_LEN \<and> length (rootfs c) < CONTAINER_ROOTFS_LEN
     \<and> length (command_line c) < CONTAINER_COMMAND_LEN \<and> INT_MIN \<le> pid c \<and> pid c \<le> INT_MAX"

definition storable :: "Container \<Rightarrow> bool" where
  "storable c \<longleftrightarrow> fits c \<and> clean (id c) \<and> clean (name c) \<and> clean (hostname c) \<and> clean (rootfs c)
     \<and> clean (command_line c)"

text \<open>What a restart makes of a saved container: the stack is gone, a dead one is stopped.\<close>

definition restarted :: "(pid \<Rightarrow> bool) \<Rightarrow> Container \<Rightarrow> Container" where
  "restarted alive c = (if state c = STATE_RUNNING \<and> \<not> alive (pid c)
     then c\<lparr>stack := False, state := STATE_STOPPED, pid := -1\<rparr> else c\<lparr>stack := False\<rparr>)"

section \<open>One line\<close>

lemma show_int_clean: "clean (show_int i)"
  by (auto simp: clean_def dest!: show_int_chars)

lemma show_uint_clean: "clean (show_uint w)"
  by (auto simp: clean_def show_uint_def dest!: show_nat_isdigit)

lemma state_clean: "clean (state_to_string s)"
  by (cases s) (simp_all add: clean_def)

lemma metadata_fields_clean: "storable c \<Longrightarrow> f \<in> set (metadata_fields c) \<Longrightarrow> clean f"
  by (auto simp: storable_def metadata_fields_def show_int_clean show_uint_clean state_clean)

lemma join_chars: "c \<in> set (join sep ws) \<Longrightarrow> c \<in> set sep \<or> (\<exists>w \<in> set ws. c \<in> set w)"
  by (induction sep ws rule: join.induct) auto

lemma join_line_free:
  assumes "storable c"
  shows "CHR 0x0A \<notin> set (join tab (metadata_fields c))" "CHR 0x0D \<notin> set (join tab (metadata_fields c))"
  using join_chars [of _ tab "metadata_fields c"] metadata_fields_clean [OF assms] by (auto simp: clean_def)

lemma trim_metadata_line: "storable c \<Longrightarrow> trim_newline (metadata_line c) = join tab (metadata_fields c)"
  unfolding trim_newline_def metadata_line_def
  by (rule takeWhile_append_stop) (use join_line_free in auto)

lemma strtok_metadata_line:
  "storable c \<Longrightarrow> strtok {CHR 0x09} (trim_newline (metadata_line c)) = metadata_fields c"
  using metadata_fields_clean [of c] by (simp add: trim_metadata_line) (intro strtok_join, auto simp: clean_def)

lemma length_join: "ws \<noteq> [] \<Longrightarrow> length (join sep ws) = sum_list (map length ws) + (length ws - 1) * length sep"
  by (induction sep ws rule: join.induct) auto

lemma length_metadata_line:
  assumes "fits c" shows "length (metadata_line c) \<le> 1013"
proof -
  have "length (state_to_string (state c)) = 7" by (cases "state c") auto
  then show ?thesis
    using assms length_show_int [of "pid c"] length_show_uint [of "cpu_seconds (resource_limits c)"]
      length_show_uint [of "memory_mb (resource_limits c)"] length_show_uint [of "max_processes (resource_limits c)"]
    by (simp add: fits_def metadata_line_def metadata_fields_def)
qed

lemma length_metadata_fields [simp]: "length (metadata_fields c) = 10"
  by (simp add: metadata_fields_def)

lemma parse_metadata_line:
  assumes "storable c"
  shows "parse_record alive (metadata_line c) = Some (restarted alive c)"
proof -
  have fits: "fits c" using assms by (simp add: storable_def)
  have pid: "atoi (show_int (pid c)) = pid c" using fits by (simp add: fits_def atoi_show_int)
  have copies: "copy_string [] 64 (Some (id c)) = id c" "copy_string [] 64 (Some (name c)) = name c"
    "copy_string [] 64 (Some (hostname c)) = hostname c" "copy_string [] 512 (Some (rootfs c)) = rootfs c"
    "copy_string [] 256 (Some (command_line c)) = command_line c"
    using fits by (simp_all add: copy_string_def fits_def snprintf_id)
  have nths: "metadata_fields c ! 0 = id c" "metadata_fields c ! 1 = name c"
    "metadata_fields c ! 2 = show_int (pid c)" "metadata_fields c ! 3 = hostname c"
    "metadata_fields c ! 4 = rootfs c" "metadata_fields c ! 5 = state_to_string (state c)"
    "metadata_fields c ! 6 = command_line c" "metadata_fields c ! 7 = show_uint (cpu_seconds (resource_limits c))"
    "metadata_fields c ! 8 = show_uint (memory_mb (resource_limits c))"
    "metadata_fields c ! 9 = show_uint (max_processes (resource_limits c))"
    by (simp_all add: metadata_fields_def)
  show ?thesis
    unfolding parse_record_def strtok_metadata_line [OF assms] Let_def
    by (simp only: take_ge length_metadata_fields order.refl nths pid copies strtoul_show_uint state_roundtrip)
       (auto simp: restarted_def copies intro!: Container.equality ResourceConfig.equality)
qed

section \<open>The whole file\<close>

lemma fgets_line_first:
  assumes "CHR 0x0A \<notin> set l" "length l + 1 < n"
  shows "fgets_line n (l @ nl @ r) = l @ nl"
proof -
  have "takeWhile (\<lambda>c. c \<noteq> CHR 0x0A) (l @ CHR 0x0A # r) = l"
    using assms(1) by (intro takeWhile_append_stop) auto
  then show ?thesis using assms(2) by (simp add: fgets_line_def Let_def)
qed

lemma fgets_lines_first:
  assumes "CHR 0x0A \<notin> set l" "length l + 1 < n"
  shows "fgets_lines n (l @ nl @ r) = (l @ nl) # fgets_lines n r"
  by (subst fgets_lines.simps) (use assms in \<open>simp add: fgets_line_first [OF assms, simplified]\<close>)

lemma fgets_lines_Nil [simp]: "fgets_lines n [] = []"
  by (simp add: fgets_lines.simps)

lemma fgets_metadata_text:
  assumes "\<forall>c \<in> set cs. storable c"
  shows "fgets_lines 1024 (metadata_text cs) = map metadata_line cs"
  using assms
proof (induction cs)
  case (Cons c cs)
  have "fits c" using Cons.prems by (simp add: storable_def)
  then have "length (join tab (metadata_fields c)) + 1 < 1024"
    using length_metadata_line [of c] by (simp add: metadata_line_def)
  with Cons show ?case
    using fgets_lines_first [OF join_line_free(1), of c 1024 "metadata_text cs"]
    by (simp add: metadata_text_def metadata_line_def)
qed (simp add: metadata_text_def)

lemma restore_lines_map:
  assumes "\<forall>c \<in> set cs. storable c"
  shows "restore_lines alive (map metadata_line cs) (ds, seq) =
     (ds @ map (restarted alive) cs, fold (\<lambda>c. update_next_sequence (id c)) cs seq)"
  using assms
proof (induction cs arbitrary: ds seq)
  case (Cons c cs)
  have "id (restarted alive c) = id c" by (simp add: restarted_def)
  with Cons show ?case by (simp add: parse_metadata_line)
qed simp

definition numbers_below :: "Container list \<Rightarrow> int \<Rightarrow> bool" where
  "numbers_below cs n \<longleftrightarrow> (\<forall>c \<in> set cs. \<forall>v. scan_container_number (id c) = Some v \<longrightarrow> v < n)"

lemma metadata_roundtrip_cs:
  "\<forall>c \<in> set cs. storable c \<Longrightarrow> restore alive (metadata_text cs) seq =
     (map (restarted alive) cs, fold (\<lambda>c. update_next_sequence (id c)) cs seq)"
  by (simp add: restore_def fgets_metadata_text restore_lines_map)

lemma update_next_sequence_ge:
  assumes "INT_MIN \<le> seq" "numbers_below [c] INT_MAX"
  shows "seq \<le> update_next_sequence (id c) seq" "numbers_below [c] (update_next_sequence (id c) seq)"
  using assms by (auto simp: update_next_sequence_def numbers_below_def cast_int_id split: option.split)

lemma numbers_below_mono: "numbers_below cs m \<Longrightarrow> m \<le> n \<Longrightarrow> numbers_below cs n"
  by (force simp: numbers_below_def)

lemma numbers_below_append [simp]: "numbers_below (cs @ ds) n \<longleftrightarrow> numbers_below cs n \<and> numbers_below ds n"
  by (auto simp: numbers_below_def)

lemma restore_lines_mono: "restore_lines alive ls (ds, q) = (ds', q') \<Longrightarrow> set ds \<subseteq> set ds'"
proof (induction ls arbitrary: ds q)
  case (Cons l ls)
  show ?case
  proof (cases "parse_record alive l")
    case (Some c)
    with Cons.IH [of "ds @ [c]"] Cons.prems show ?thesis by simp
  qed (use Cons in simp)
qed simp

lemma restore_lines_sequence:
  assumes "restore_lines alive ls (cs, seq) = (cs', seq')" "INT_MIN \<le> seq"
    and "numbers_below cs seq" "numbers_below cs' INT_MAX"
  shows "seq \<le> seq' \<and> numbers_below cs' seq'"
  using assms
proof (induction ls arbitrary: cs seq)
  case (Cons l ls)
  show ?case
  proof (cases "parse_record alive l")
    case (Some c)
    let ?seq = "update_next_sequence (id c) seq"
    have run: "restore_lines alive ls (cs @ [c], ?seq) = (cs', seq')" using Cons.prems(1) Some by simp
    then have "numbers_below [c] INT_MAX"
      using restore_lines_mono [OF run] Cons.prems(4) by (auto simp: numbers_below_def)
    note ge = update_next_sequence_ge [OF Cons.prems(2) this]
    have "numbers_below (cs @ [c]) ?seq" using numbers_below_mono [OF Cons.prems(3) ge(1)] ge(2) by simp
    from Cons.IH [OF run _ this Cons.prems(4)] ge(1) Cons.prems(2) show ?thesis by simp
  qed (use Cons in simp)
qed simp

section \<open>Properties\<close>

text \<open>
  (C24) Every record fits the reader's line buffer: a container whose strings fit their fields
  is written as a line of at most 1013 bytes, newline included, below the 1023 bytes one
  \<^verbatim>\<open>fgets\<close> takes, so no record is ever split when it is read back.
\<close>

theorem metadata_line_fits:
  assumes "fits c"
  shows "length (metadata_line c) \<le> 1013 \<and> length (metadata_line c) < 1024"
  using length_metadata_line [OF assms] by simp

definition demo_container :: Container where
  "demo_container = \<lparr>id = ''container-0001'', name = ''web'', pid = 4242, hostname = ''host-a'',
     rootfs = ''/srv/rootfs'', command_line = ''/bin/sleep 20'',
     resource_limits = \<lparr>cpu_seconds = 5, memory_mb = 64, max_processes = 0\<rparr>,
     state = STATE_RUNNING, stack = True\<rparr>"

lemma demo_container_storable: "storable demo_container"
  by (simp add: storable_def fits_def clean_def demo_container_def)

theorem metadata_line_fits_witness: "length (metadata_line demo_container) < 1024"
  using metadata_line_fits [of demo_container] demo_container_storable by (simp add: storable_def)

text \<open>
  (C6) Saving and restoring is a round trip: for containers whose fields are non-empty, free of
  tabs and line breaks and short enough for their buffers, reading the saved text gives back
  the same containers in the same order with every field intact, except that child stacks
  are gone and a container saved as running whose process no longer exists is stopped.
\<close>

theorem metadata_roundtrip:
  assumes "\<forall>c \<in> set cs. storable c"
  shows "fst (restore alive (metadata_text cs) seq) = map (restarted alive) cs"
  using metadata_roundtrip_cs [OF assms] by simp

theorem metadata_roundtrip_witness:
  "fst (restore (\<lambda>_. True) (metadata_text [demo_container]) 1) = [demo_container\<lparr>stack := False\<rparr>]
   \<and> fst (restore (\<lambda>_. False) (metadata_text [demo_container]) 1)
       = [demo_container\<lparr>stack := False, state := STATE_STOPPED, pid := -1\<rparr>]"
  using metadata_roundtrip [of "[demo_container]" "\<lambda>_. True" 1]
    metadata_roundtrip [of "[demo_container]" "\<lambda>_. False" 1] demo_container_storable
  by (simp add: restarted_def) (simp add: demo_container_def)

text \<open>
  (C23) Restoring any file, well formed or not, leaves \<^verbatim>\<open>next_sequence\<close> above the number of
  every restored container, provided no id carries a number of \<open>INT_MAX\<close> or more (where the
  addition of \<^verbatim>\<open>update_next_sequence\<close> overflows).
\<close>

theorem restore_sequence_fresh:
  assumes "restore alive text 1 = (cs, seq)"
    and "\<forall>c \<in> set cs. \<forall>v. scan_container_number (id c) = Some v \<longrightarrow> v < INT_MAX"
  shows "1 \<le> seq \<and> (\<forall>c \<in> set cs. \<forall>v. scan_container_number (id c) = Some v \<longrightarrow> v < seq)"
  using restore_lines_sequence [of alive "fgets_lines 1024 text" "[]" 1 cs seq] assms
  by (simp add: restore_def numbers_below_def)

theorem restore_sequence_fresh_witness:
  "1 \<le> snd (restore (\<lambda>_. True) (metadata_text [demo_container]) 1)"
proof -
  obtain cs seq where r: "restore (\<lambda>_. True) (metadata_text [demo_container]) 1 = (cs, seq)"
    by (cases "restore (\<lambda>_. True) (metadata_text [demo_container]) 1")
  have cs: "cs = map (restarted (\<lambda>_. True)) [demo_container]"
    using metadata_roundtrip_cs [of "[demo_container]" "\<lambda>_. True" 1] r demo_container_storable by simp
  have "scan_container_number (id (restarted (\<lambda>_. True) demo_container)) = Some 1"
    using scan_container_id_of [of 1]
    by (simp add: restarted_def demo_container_def container_id_of_def snprintf_def show_int04_def
      show_nat.simps eval_nat_numeral Let_def)
  then have "\<forall>c \<in> set cs. \<forall>v. scan_container_number (id c) = Some v \<longrightarrow> v < INT_MAX" by (simp add: cs)
  from restore_sequence_fresh [OF r this] r show ?thesis by simp
qed

definition tab_container :: Container where
  "tab_container = demo_container\<lparr>name := ''a'' @ tab @ ''b''\<rparr>"


end
