(* ===== verification/Logger.thy ===== *)
theory Logger
  imports Container Metadata
begin

text \<open>
  The event log: \<^verbatim>\<open>src/logger.c\<close>. Writing appends one line per event to \<^verbatim>\<open>container.log\<close>; reading
  parses the lines back into records, rebuilds a catalog (name, pid and status per container)
  from the records seen so far, selects the records to show and renders them as a table. The
  log file is its text, \<^const>\<open>None\<close> while it does not exist. \<open>alloc n\<close> says whether an
  allocation of \<open>n\<close> bytes succeeds.
\<close>

section \<open>Types\<close>

record LogRecord =
  timestamp :: string
  event :: string
  message :: string
  container_id :: string
  matches_filter :: bool

record LogCatalogEntry =
  entry_id :: string
  entry_name :: string
  entry_pid :: pid
  has_pid :: bool
  entry_status :: string

record LogCatalog =
  entries :: "LogCatalogEntry list"
  capacity :: nat

definition LOG_TABLE_WIDTHS :: "nat list" where
  "LOG_TABLE_WIDTHS = [19, 18, 14, 12, 7, 10, 44]"

definition LOG_TABLE_HEADERS :: "string list" where
  "LOG_TABLE_HEADERS = [''TIME'', ''EVENT'', ''ID'', ''NAME'', ''PID'', ''STATUS'', ''DETAILS'']"

definition LOG_FILE :: string where
  "LOG_FILE = ''container.log''"

section \<open>Writing\<close>

definition log_line :: "string \<Rightarrow> string \<Rightarrow> string \<Rightarrow> string" where
  "log_line ts event_type msg = ''['' @ ts @ ''] '' @ event_type @ '': '' @ msg @ nl"

text \<open>
  \<open>opened\<close>: whether \<^verbatim>\<open>fopen\<close> succeeds (it creates the file); \<open>now\<close>: the formatted local time,
  \<^const>\<open>None\<close> when \<^verbatim>\<open>localtime\<close> fails.
\<close>

definition log_event_type_va ::
    "bool \<Rightarrow> string option \<Rightarrow> string \<Rightarrow> string \<Rightarrow> string option \<Rightarrow> string option" where
  "log_event_type_va opened now event_type msg file =
     (if \<not> opened then file
      else let text = (case file of None \<Rightarrow> [] | Some t \<Rightarrow> t) in
        case now of None \<Rightarrow> Some text | Some ts \<Rightarrow> Some (text @ log_line ts event_type msg))"

definition log_event_type ::
    "bool \<Rightarrow> string option \<Rightarrow> string option \<Rightarrow> string option \<Rightarrow> string option \<Rightarrow> string option" where
  "log_event_type opened now event_type msg file = (case event_type of
     None \<Rightarrow> file
   | Some e \<Rightarrow> if e = [] then file
       else (case msg of None \<Rightarrow> file | Some m \<Rightarrow> log_event_type_va opened now e m file))"

definition log_event :: "bool \<Rightarrow> string option \<Rightarrow> string option \<Rightarrow> string option \<Rightarrow> string option" where
  "log_event opened now msg file = (case msg of
     None \<Rightarrow> file | Some m \<Rightarrow> log_event_type_va opened now ''INFO'' m file)"

definition logger_path :: string where
  "logger_path = LOG_FILE"

section \<open>Text helpers\<close>

definition logger_safe_text :: "string option \<Rightarrow> string" where
  "logger_safe_text text = (case text of None \<Rightarrow> ''-'' | Some t \<Rightarrow> if t \<noteq> [] then t else ''-'')"

definition line_matches_container :: "string \<Rightarrow> string option \<Rightarrow> bool" where
  "line_matches_container line cid = (case cid of
     None \<Rightarrow> True | Some i \<Rightarrow> if i = [] then True else strstr line i \<noteq> None)"

function extract_container_id :: "string \<Rightarrow> nat \<Rightarrow> string option" where
  "extract_container_id cursor out_size = (if out_size = 0 then None else
     (case strstr cursor ''container-'' of
        None \<Rightarrow> None
      | Some found \<Rightarrow>
          let digits = drop 10 found in
          if digits = [] \<or> \<not> isdigit (hd digits) then extract_container_id digits out_size
          else let len = 10 + length (takeWhile isdigit digits) in
            Some (take (if len \<ge> out_size then out_size - 1 else len) found)))"
  by pat_completeness auto
termination
proof (relation "measure (\<lambda>(s, n). length s)", goal_cases)
  case (2 cursor out_size found digits)
  then have "prefix ''container-'' found" "suffix found cursor"
    using strstr_Some_prefix strstr_Some_suffix by blast+
  then have "length ''container-'' \<le> length found" "length found \<le> length cursor"
    by (auto simp only: prefix_length_le suffix_length_le)
  with 2 show ?case by simp
qed simp

declare extract_container_id.simps [simp del]

definition field_char :: "char \<Rightarrow> bool" where
  "field_char c \<longleftrightarrow> c \<noteq> CHR '' '' \<and> c \<noteq> CHR 0x0D \<and> c \<noteq> CHR 0x0A \<and> c \<noteq> CHR '')''"

definition extract_field_text :: "string \<Rightarrow> string \<Rightarrow> nat \<Rightarrow> string option" where
  "extract_field_text text key out_size = (if out_size = 0 then None else
     (case strstr text key of
        None \<Rightarrow> None
      | Some found \<Rightarrow>
          let val = takeWhile field_char (drop (length key) found) in
          if val = [] then None else Some (take (out_size - 1) val)))"

definition extract_int_after_key :: "string \<Rightarrow> string \<Rightarrow> int option" where
  "extract_int_after_key text key = (case strstr text key of
     None \<Rightarrow> None
   | Some found \<Rightarrow>
       let cursor = dropWhile (\<lambda>c. c = CHR '' '') (drop (length key) found) in
       if cursor = [] \<or> (hd cursor \<noteq> CHR ''-'' \<and> \<not> isdigit (hd cursor)) then None
       else if number_prefix cursor = None then None
       else Some (cast_int (strtol cursor)))"

definition extract_pid_from_message :: "string \<Rightarrow> int option" where
  "extract_pid_from_message msg = (case extract_int_after_key msg ''pid='' of
     Some v \<Rightarrow> Some v
   | None \<Rightarrow> extract_int_after_key msg ''(pid '')"

definition infer_record_status :: "LogRecord \<Rightarrow> nat \<Rightarrow> string" where
  "infer_record_status r status_size = snprintf status_size
     (if event r = ''CONTAINER_CREATED'' then ''CREATED''
      else if event r = ''CONTAINER_STARTED'' then ''RUNNING''
      else if event r = ''CONTAINER_STOPPED'' \<or> event r = ''RESOURCE_LIMIT_HIT'' then ''STOPPED''
      else if event r = ''CONTAINER_DELETED'' then ''DELETED''
      else if event r = ''ERROR'' then ''ERROR''
      else if container_id r = [] then ''SYSTEM''
      else ''-'')"

definition id_or_empty :: "string \<Rightarrow> string" where
  "id_or_empty msg = (case extract_container_id msg CONTAINER_ID_LEN of None \<Rightarrow> [] | Some i \<Rightarrow> i)"

definition parse_log_line :: "string \<Rightarrow> LogRecord" where
  "parse_log_line line =
     (let buffer = trim_newline (snprintf 1024 line);
          msg0 = snprintf 768 buffer;
          plain = \<lparr>timestamp = ''-'', event = ''LOG'', message = msg0,
                   container_id = id_or_empty msg0, matches_filter = False\<rparr> in
      if buffer = [] \<or> hd buffer \<noteq> CHR ''['' then plain
      else (case strstr buffer ''] '' of
          None \<Rightarrow> plain
        | Some close \<Rightarrow>
            let ts = take 31 (take (length buffer - length close - 1) (tl buffer));
                event_start = drop 2 close in
            (case strstr event_start '': '' of
               None \<Rightarrow> \<lparr>timestamp = ts, event = snprintf 64 event_start, message = [],
                        container_id = [], matches_filter = False\<rparr>
             | Some separator \<Rightarrow>
                 let ev = take 63 (take (length event_start - length separator) event_start);
                     msg = snprintf 768 (drop 2 separator) in
                 \<lparr>timestamp = ts, event = ev, message = msg, container_id = id_or_empty msg,
                  matches_filter = False\<rparr>)))"

section \<open>The catalog\<close>

definition logger_free_catalog :: "LogCatalog \<Rightarrow> LogCatalog" where
  "logger_free_catalog catalog = \<lparr>entries = [], capacity = 0\<rparr>"

definition empty_catalog :: LogCatalog where
  "empty_catalog = \<lparr>entries = [], capacity = 0\<rparr>"

fun entry_index :: "string \<Rightarrow> LogCatalogEntry list \<Rightarrow> nat \<Rightarrow> nat option" where
  "entry_index cid [] i = None"
| "entry_index cid (e # es) i = (if entry_id e = cid then Some i else entry_index cid es (Suc i))"

text \<open>The index of the entry, which is added when \<open>create\<close> is set and it is missing.\<close>

definition logger_catalog_get ::
    "(nat \<Rightarrow> bool) \<Rightarrow> LogCatalog \<Rightarrow> string \<Rightarrow> bool \<Rightarrow> nat option \<times> LogCatalog" where
  "logger_catalog_get alloc catalog cid create =
     (if cid = [] then (None, catalog)
      else case entry_index cid (entries catalog) 0 of
        Some i \<Rightarrow> (Some i, catalog)
      | None \<Rightarrow>
          if \<not> create then (None, catalog)
          else
            let grow = (length (entries catalog) = capacity catalog);
                next_capacity = (if capacity catalog = 0 then 8 else capacity catalog * 2) in
            if grow \<and> \<not> alloc (next_capacity * 152) then (None, catalog)
            else (Some (length (entries catalog)),
              catalog\<lparr>entries := entries catalog @
                 [\<lparr>entry_id = snprintf CONTAINER_ID_LEN cid, entry_name = [], entry_pid = 0,
                   has_pid = False, entry_status = []\<rparr>],
                capacity := (if grow then next_capacity else capacity catalog)\<rparr>))"

definition logger_catalog_find :: "LogCatalog \<Rightarrow> string \<Rightarrow> LogCatalogEntry option" where
  "logger_catalog_find catalog cid =
     (if cid = [] then None else find (\<lambda>e. entry_id e = cid) (entries catalog))"

definition update_entry :: "LogRecord \<Rightarrow> LogCatalogEntry \<Rightarrow> LogCatalogEntry" where
  "update_entry r e =
     (let e1 = (case extract_field_text (message r) ''name='' CONTAINER_NAME_LEN of
                  None \<Rightarrow> e | Some n \<Rightarrow> e\<lparr>entry_name := snprintf CONTAINER_NAME_LEN n\<rparr>);
          e2 = (case extract_pid_from_message (message r) of
                  None \<Rightarrow> e1 | Some p \<Rightarrow> e1\<lparr>entry_pid := p, has_pid := True\<rparr>);
          status = infer_record_status r 16
      in if status \<noteq> [] \<and> status \<noteq> ''-'' then e2\<lparr>entry_status := snprintf 16 status\<rparr> else e2)"

definition logger_catalog_update :: "(nat \<Rightarrow> bool) \<Rightarrow> LogCatalog \<Rightarrow> LogRecord \<Rightarrow> LogCatalog" where
  "logger_catalog_update alloc catalog r =
     (if container_id r = [] then catalog
      else case logger_catalog_get alloc catalog (container_id r) True of
        (None, catalog1) \<Rightarrow> catalog1
      | (Some i, catalog1) \<Rightarrow>
          catalog1\<lparr>entries := (entries catalog1)[i := update_entry r (entries catalog1 ! i)]\<rparr>)"

section \<open>What a line parses to\<close>

text \<open>An event that a line can carry: no field contains what separates it from the next.\<close>

definition loggable :: "string \<Rightarrow> string \<Rightarrow> string \<Rightarrow> bool" where
  "loggable ts ev msg \<longleftrightarrow> CHR '']'' \<notin> set ts \<and> CHR '':'' \<notin> set ev
     \<and> (\<forall>c \<in> set (ts @ ev @ msg). c \<noteq> CHR 0x0A \<and> c \<noteq> CHR 0x0D)
     \<and> length ts < 32 \<and> length ev < 64 \<and> length msg < 768"

definition record_of :: "string \<Rightarrow> string \<Rightarrow> string \<Rightarrow> LogRecord" where
  "record_of ts ev msg = \<lparr>timestamp = ts, event = ev, message = msg,
     container_id = id_or_empty msg, matches_filter = False\<rparr>"

lemma trim_log_line:
  "loggable ts ev msg \<Longrightarrow> trim_newline (log_line ts ev msg) = ''['' @ ts @ ''] '' @ ev @ '': '' @ msg"
  unfolding trim_newline_def log_line_def append_assoc [symmetric]
  by (rule takeWhile_append_stop) (auto simp: loggable_def)

lemma length_log_line: "loggable ts ev msg \<Longrightarrow> length (log_line ts ev msg) < 1024"
  by (simp add: loggable_def log_line_def)

lemma parse_log_line_of:
  assumes ok: "loggable ts ev msg"
  shows "parse_log_line (log_line ts ev msg) = record_of ts ev msg"
proof -
  let ?r = "ev @ '': '' @ msg" and ?b = "CHR ''['' # ts @ CHR '']'' # '' '' @ ev @ '': '' @ msg"
  have buffer: "trim_newline (snprintf 1024 (log_line ts ev msg)) = ?b"
    using trim_log_line [OF ok] length_log_line [OF ok] by (simp add: snprintf_id)
  have "CHR '']'' \<notin> set (CHR ''['' # ts)" using ok by (simp add: loggable_def)
  from strstr_char_prefix [OF this, of "'' ''" ?r]
  have close: "strstr ?b ''] '' = Some (CHR '']'' # '' '' @ ?r)" by simp
  have "CHR '':'' \<notin> set ev" using ok by (simp add: loggable_def)
  from strstr_char_prefix [OF this, of "'' ''" msg]
  have sep: "strstr ?r '': '' = Some ('': '' @ msg)" by simp
  have lens: "length ts < 32" "length ev < 64" "length msg < 768" using ok by (simp_all add: loggable_def)
  show ?thesis
    unfolding parse_log_line_def buffer Let_def using close sep lens
    by (simp add: record_of_def snprintf_id)
qed

lemma sublist_snprintf: "sublist (snprintf n s) s"
  by (simp add: snprintf_def sublist_take)

lemma extract_container_id_sublist:
  "extract_container_id s n = Some i \<Longrightarrow> sublist i s"
proof (induction s n rule: extract_container_id.induct)
  case (1 s n)
  from "1.prems" obtain found where n: "n \<noteq> 0" and found: "strstr s ''container-'' = Some found"
    by (auto simp: extract_container_id.simps [of s n] split: if_splits option.splits)
  have suf: "suffix found s" using found by (rule strstr_Some_suffix)
  let ?d = "drop 10 found"
  show ?case
  proof (cases "?d = [] \<or> \<not> isdigit (hd ?d)")
    case True
    then have "extract_container_id ?d n = Some i"
      using "1.prems" n found by (auto simp: extract_container_id.simps [of s n] Let_def)
    then have "sublist i ?d" using "1.IH" [OF n found refl True] by simp
    moreover have "suffix ?d s" using suf suffix_drop suffix_order.trans by blast
    ultimately show ?thesis by (meson sublist_order.order_trans suffix_imp_sublist)
  next
    case False
    then obtain k where "i = take k found"
      using "1.prems" n found by (auto simp: extract_container_id.simps [of s n] Let_def split: if_splits)
    then show ?thesis using suf by (meson sublist_order.order_trans sublist_take suffix_imp_sublist)
  qed
qed

lemma sublist_trim_newline: "sublist (trim_newline s) s"
  by (metis prefix_imp_sublist takeWhile_is_prefix trim_newline_def)

lemma message_sublist: "sublist (message (parse_log_line line)) line"
proof -
  let ?b = "trim_newline (snprintf 1024 line)"
  have b: "sublist ?b line" using sublist_trim_newline sublist_snprintf sublist_order.order_trans by blast
  have "sublist (message (parse_log_line line)) ?b"
  proof -
    have "sublist (snprintf 768 (drop 2 sep)) ?b"
      if "strstr ?b ''] '' = Some close" "strstr (drop 2 close) '': '' = Some sep" for close sep
    proof -
      have "suffix sep (drop 2 close)" "suffix close ?b" using that strstr_Some_suffix by blast+
      then have "suffix (drop 2 sep) ?b" by (meson suffix_drop suffix_order.trans)
      then show ?thesis using sublist_snprintf sublist_order.order_trans suffix_imp_sublist by blast
    qed
    then show ?thesis
      by (auto simp: parse_log_line_def Let_def sublist_snprintf split: option.splits)
  qed
  with b show ?thesis using sublist_order.order_trans by blast
qed

lemma parse_container_id:
  "container_id (parse_log_line line) \<noteq> [] \<Longrightarrow>
   container_id (parse_log_line line) = id_or_empty (message (parse_log_line line))"
  by (auto simp: parse_log_line_def Let_def split: option.splits if_splits)

lemma id_or_empty_length: "length (id_or_empty msg) < CONTAINER_ID_LEN"
proof -
  have "extract_container_id s n = Some i \<Longrightarrow> length i < n" for s n i
  proof (induction s n rule: extract_container_id.induct)
    case (1 s n)
    then show ?case
      by (auto simp: extract_container_id.simps [of s n] Let_def split: if_splits option.splits)
  qed
  then show ?thesis by (simp add: id_or_empty_def split: option.split)
qed

lemma parse_container_id_length: "length (container_id (parse_log_line line)) < CONTAINER_ID_LEN"
  using id_or_empty_length by (auto simp: parse_log_line_def Let_def split: option.split)

section \<open>The catalog as a keyed store\<close>

text \<open>
  A store of one entry per key, fed with records: the law a lookup obeys after an update. What
  is stored under a key then depends on the records of that key alone.
\<close>

locale event_store =
  fixes inv :: "'s \<Rightarrow> bool"
    and look :: "'s \<Rightarrow> 'k \<Rightarrow> 'e option"
    and feed :: "'r \<Rightarrow> 's \<Rightarrow> 's"
    and key :: "'r \<Rightarrow> 'k"
    and good :: "'r \<Rightarrow> bool"
    and advance :: "'r \<Rightarrow> 'e \<Rightarrow> 'e"
    and blank :: "'k \<Rightarrow> 'e"
    and valid :: "'k \<Rightarrow> bool"
  assumes inv_feed: "inv s \<Longrightarrow> good r \<Longrightarrow> inv (feed r s)"
    and look_same: "inv s \<Longrightarrow> good r \<Longrightarrow> valid (key r) \<Longrightarrow>
      look (feed r s) (key r) = Some (advance r (case look s (key r) of None \<Rightarrow> blank (key r) | Some e \<Rightarrow> e))"
    and look_other: "inv s \<Longrightarrow> good r \<Longrightarrow> k \<noteq> key r \<Longrightarrow> look (feed r s) k = look s k"
begin

definition entry_of :: "'k \<Rightarrow> 'r list \<Rightarrow> 'e option \<Rightarrow> 'e option" where
  "entry_of k rs e0 = fold (\<lambda>r e. Some (advance r (case e of None \<Rightarrow> blank k | Some e \<Rightarrow> e)))
     (filter (\<lambda>r. key r = k) rs) e0"

lemma inv_fold: "inv s \<Longrightarrow> \<forall>r \<in> set rs. good r \<Longrightarrow> inv (fold feed rs s)"
  by (induction rs arbitrary: s) (simp_all add: inv_feed)

lemma look_fold:
  "inv s \<Longrightarrow> \<forall>r \<in> set rs. good r \<Longrightarrow> valid k \<Longrightarrow> look (fold feed rs s) k = entry_of k rs (look s k)"
proof (induction rs arbitrary: s)
  case (Cons r rs)
  then show ?case
    by (cases "key r = k") (auto simp: entry_of_def inv_feed look_same look_other)
qed (simp add: entry_of_def)

end

definition catalog_inv :: "LogCatalog \<Rightarrow> bool" where
  "catalog_inv catalog \<longleftrightarrow> distinct (map entry_id (entries catalog))
     \<and> (\<forall>e \<in> set (entries catalog). entry_id e \<noteq> []) \<and> length (entries catalog) \<le> capacity catalog"

definition blank_entry :: "string \<Rightarrow> LogCatalogEntry" where
  "blank_entry cid = \<lparr>entry_id = cid, entry_name = [], entry_pid = 0, has_pid = False, entry_status = []\<rparr>"

definition catalog_feed :: "LogRecord \<Rightarrow> LogCatalog \<Rightarrow> LogCatalog" where
  "catalog_feed r catalog = logger_catalog_update (\<lambda>_. True) catalog r"

definition id_ok :: "LogRecord \<Rightarrow> bool" where
  "id_ok r \<longleftrightarrow> length (container_id r) < CONTAINER_ID_LEN"

lemma entry_id_update [simp]: "entry_id (update_entry r e) = entry_id e"
  by (simp add: update_entry_def Let_def split: option.split)

lemma entry_index_None: "entry_index cid es i = None \<longleftrightarrow> (\<forall>e \<in> set es. entry_id e \<noteq> cid)"
  by (induction es arbitrary: i) auto

lemma entry_index_Some:
  "entry_index cid es i = Some j \<Longrightarrow> \<exists>es1 e es2. es = es1 @ e # es2 \<and> j = i + length es1
     \<and> entry_id e = cid \<and> (\<forall>x \<in> set es1. entry_id x \<noteq> cid)"
proof (induction es arbitrary: i)
  case (Cons x es)
  show ?case
  proof (cases "entry_id x = cid")
    case True
    with Cons.prems have "x # es = [] @ x # es \<and> j = i + length ([] :: LogCatalogEntry list)" by simp
    with True show ?thesis by fastforce
  next
    case False
    with Cons.prems have "entry_index cid es (Suc i) = Some j" by simp
    from Cons.IH [OF this] obtain es1 e es2 where
      "es = es1 @ e # es2" "j = Suc i + length es1" "entry_id e = cid" "\<forall>y \<in> set es1. entry_id y \<noteq> cid"
      by blast
    with False have "x # es = (x # es1) @ e # es2 \<and> j = i + length (x # es1) \<and> entry_id e = cid
      \<and> (\<forall>y \<in> set (x # es1). entry_id y \<noteq> cid)" by simp
    then show ?thesis by blast
  qed
qed simp

text \<open>The two shapes an update can take: the entry is there, or it is appended.\<close>

lemma catalog_feed_cases [consumes 2]:
  assumes "id_ok r" "container_id r \<noteq> []"
  obtains (there) es1 e es2 where "entries catalog = es1 @ e # es2" "entry_id e = container_id r"
      "\<forall>x \<in> set es1. entry_id x \<noteq> container_id r"
      "entries (catalog_feed r catalog) = es1 @ update_entry r e # es2"
      "capacity (catalog_feed r catalog) = capacity catalog"
  | (fresh) "\<forall>x \<in> set (entries catalog). entry_id x \<noteq> container_id r"
      "entries (catalog_feed r catalog) = entries catalog @ [update_entry r (blank_entry (container_id r))]"
      "capacity (catalog_feed r catalog) = (if length (entries catalog) = capacity catalog
         then (if capacity catalog = 0 then 8 else capacity catalog * 2) else capacity catalog)"
proof (cases "entry_index (container_id r) (entries catalog) 0")
  case None
  then have "\<forall>x \<in> set (entries catalog). entry_id x \<noteq> container_id r" by (simp add: entry_index_None)
  moreover have "snprintf 64 (container_id r) = container_id r" using assms(1) by (simp add: id_ok_def snprintf_id)
  ultimately show ?thesis using None assms(2)
    by (intro fresh) (simp_all add: catalog_feed_def logger_catalog_update_def logger_catalog_get_def
      Let_def blank_entry_def nth_append)
next
  case (Some j)
  from entry_index_Some [OF this] obtain es1 e es2 where split: "entries catalog = es1 @ e # es2"
    "j = 0 + length es1" "entry_id e = container_id r" "\<forall>x \<in> set es1. entry_id x \<noteq> container_id r" by blast
  then show ?thesis using Some assms(2)
    by (intro there [of es1 e es2]) (simp_all add: catalog_feed_def logger_catalog_update_def
      logger_catalog_get_def)
qed

lemma catalog_feed_no_id: "container_id r = [] \<Longrightarrow> catalog_feed r catalog = catalog"
  by (simp add: catalog_feed_def logger_catalog_update_def)

lemma catalog_feed_inv: "catalog_inv catalog \<Longrightarrow> id_ok r \<Longrightarrow> catalog_inv (catalog_feed r catalog)"
proof (cases "container_id r = []")
  case False
  assume inv: "catalog_inv catalog" and ok: "id_ok r"
  from ok False show ?thesis
    by (cases rule: catalog_feed_cases [where catalog = catalog]) (use inv False in \<open>auto simp: catalog_inv_def blank_entry_def\<close>)
qed (simp add: catalog_feed_no_id)

lemma find_none: "\<forall>x \<in> set es. entry_id x \<noteq> k \<Longrightarrow> find (\<lambda>e. entry_id e = k) es = None"
  by (simp add: find_None_iff)

lemma find_append: "find P (xs @ ys) = (case find P xs of Some x \<Rightarrow> Some x | None \<Rightarrow> find P ys)"
  by (induction xs) auto

lemma find_feed_same:
  assumes "id_ok r" "container_id r \<noteq> []"
  shows "logger_catalog_find (catalog_feed r catalog) (container_id r) =
    Some (update_entry r (case logger_catalog_find catalog (container_id r) of
      None \<Rightarrow> blank_entry (container_id r) | Some e \<Rightarrow> e))"
  using assms by (cases rule: catalog_feed_cases [where catalog = catalog])
    (use assms(2) in \<open>simp_all add: logger_catalog_find_def find_append find_none blank_entry_def\<close>)

lemma find_feed_other:
  assumes "id_ok r" "k \<noteq> container_id r"
  shows "logger_catalog_find (catalog_feed r catalog) k = logger_catalog_find catalog k"
proof (cases "container_id r = []")
  case False
  from assms(1) False show ?thesis
    by (cases rule: catalog_feed_cases [where catalog = catalog])
      (use assms(2) in \<open>auto simp: logger_catalog_find_def find_append blank_entry_def split: option.split\<close>)
qed (simp add: catalog_feed_no_id)

interpretation lc: event_store catalog_inv logger_catalog_find catalog_feed container_id id_ok update_entry
  blank_entry "\<lambda>k. k \<noteq> []"
  by unfold_locales (auto intro: catalog_feed_inv find_feed_same find_feed_other)

section \<open>Properties\<close>

text \<open>
  (C25) A line of the log parses back to the event that was written: timestamp, event type and
  message are recovered and the container id is the one found in the message, for fields that
  fit their buffers and do not contain the characters that end them.
\<close>

theorem log_line_roundtrip:
  assumes "loggable ts ev msg"
  shows "parse_log_line (log_line ts ev msg) =
    \<lparr>timestamp = ts, event = ev, message = msg, container_id = id_or_empty msg, matches_filter = False\<rparr>"
  using parse_log_line_of [OF assms] by (simp add: record_of_def)

theorem log_line_roundtrip_witness:
  "parse_log_line (log_line ''2024-01-02 03:04:05'' ''CONTAINER_STARTED'' ''container-0001 (pid 42)'') =
    \<lparr>timestamp = ''2024-01-02 03:04:05'', event = ''CONTAINER_STARTED'', message = ''container-0001 (pid 42)'',
     container_id = id_or_empty ''container-0001 (pid 42)'', matches_filter = False\<rparr>"
  by (rule log_line_roundtrip) (simp add: loggable_def)

text \<open>
  (C29) The filter of the \<^verbatim>\<open>logs\<close> command loses nothing: a line whose record belongs to a container
  is matched by the filter for that container.
\<close>

theorem log_filter_complete:
  assumes "container_id (parse_log_line line) = cid"
  shows "line_matches_container line (Some cid)"
proof (cases "cid = []")
  case False
  with assms parse_container_id [of line] have "id_or_empty (message (parse_log_line line)) = cid" by simp
  with False have "extract_container_id (message (parse_log_line line)) 64 = Some cid"
    by (auto simp: id_or_empty_def split: option.splits)
  then have "sublist cid line"
    using extract_container_id_sublist message_sublist sublist_order.order_trans by blast
  then show ?thesis by (simp add: line_matches_container_def strstr_iff_sublist [simplified])
qed (simp add: line_matches_container_def)

theorem log_filter_complete_witness:
  "line_matches_container ''container-0001 stopped'' (Some ''container-0001'')"
  by (rule log_filter_complete)
     (simp add: parse_log_line_def trim_newline_def snprintf_def id_or_empty_def extract_container_id.simps isdigit_def)

text \<open>
  (C28) The catalog entry of a container is determined by the records of that container alone:
  after any sequence of records it is the fold of \<^verbatim>\<open>logger_catalog_update\<close>'s effect over the
  records that carry its id, starting from an empty entry, and it is absent when there is none.
\<close>

theorem catalog_tracks_container:
  assumes "\<forall>r \<in> set rs. length (container_id r) < CONTAINER_ID_LEN" and "cid \<noteq> []"
  shows "logger_catalog_find (fold (\<lambda>r c. logger_catalog_update (\<lambda>_. True) c r) rs empty_catalog) cid =
    (let own = filter (\<lambda>r. container_id r = cid) rs in
     if own = [] then None
     else Some (fold update_entry own
       \<lparr>entry_id = cid, entry_name = [], entry_pid = 0, has_pid = False, entry_status = []\<rparr>))"
proof -
  have step: "(\<lambda>r c. logger_catalog_update (\<lambda>_. True) c r) = catalog_feed"
    by (intro ext) (simp add: catalog_feed_def)
  have some: "fold (\<lambda>r e. Some (update_entry r (case e of None \<Rightarrow> b | Some e \<Rightarrow> e))) xs (Some e)
      = Some (fold update_entry xs e)" for xs b e
    by (induction xs arbitrary: e) simp_all
  have "catalog_inv empty_catalog" "logger_catalog_find empty_catalog cid = None"
    by (simp_all add: catalog_inv_def empty_catalog_def logger_catalog_find_def)
  with lc.look_fold [of empty_catalog rs cid] assms
  have "logger_catalog_find (fold catalog_feed rs empty_catalog) cid = lc.entry_of cid rs None"
    by (simp add: id_ok_def)
  then show ?thesis
    by (cases "filter (\<lambda>r. container_id r = cid) rs")
       (simp_all add: step lc.entry_of_def some blank_entry_def)
qed

theorem catalog_tracks_container_witness:
  "logger_catalog_find (fold (\<lambda>r c. logger_catalog_update (\<lambda>_. True) c r)
     [record_of ''t'' ''CONTAINER_STOPPED'' ''x''\<lparr>container_id := ''container-0002''\<rparr>,
      record_of ''t'' ''CONTAINER_STARTED'' ''pid=7''\<lparr>container_id := ''container-0001''\<rparr>] empty_catalog)
     ''container-0001''
   = Some \<lparr>entry_id = ''container-0001'', entry_name = [], entry_pid = 7, has_pid = True,
       entry_status = ''RUNNING''\<rparr>"
  by (subst catalog_tracks_container)
     (simp_all add: record_of_def update_entry_def Let_def extract_field_text_def extract_pid_from_message_def
       extract_int_after_key_def number_prefix_def isdigit_def isspace_def read_digits_def digit_val_def
       strtol_def cast_int_def infer_record_status_def snprintf_def)

end
