(* ===== verification/Log_View.thy ===== *)
theory Log_View
  imports Logger
begin

text \<open>
  Showing the event log: the second half of \<^verbatim>\<open>src/logger.c\<close>. The log file is read through
  \<^verbatim>\<open>fgets\<close> with a 1024 byte buffer, the records to show are selected by index, and one pass
  over all records updates the catalog and prints the selected ones. What a function prints is
  the string it returns. \<open>alloc n\<close> says whether an allocation of \<open>n\<close> bytes succeeds.
\<close>

section \<open>Tables\<close>

definition logger_print_repeat :: "string \<Rightarrow> nat \<Rightarrow> string" where
  "logger_print_repeat glyph count = concat (replicate count glyph)"

definition logger_table_inner_width :: "nat list \<Rightarrow> nat" where
  "logger_table_inner_width widths =
     (let total = foldl (\<lambda>t w. t + (w + 2)) 0 widths in
      if length widths > 0 then total + (length widths - 1) else total)"

definition logger_print_full_border :: "nat \<Rightarrow> string \<Rightarrow> string \<Rightarrow> string" where
  "logger_print_full_border inner_width left right =
     left @ logger_print_repeat box_h (inner_width + 2) @ right @ nl"

definition logger_print_full_row :: "nat \<Rightarrow> string option \<Rightarrow> string" where
  "logger_print_full_row inner_width text =
     box_v @ '' '' @ pad_cut inner_width (logger_safe_text text) @ '' '' @ box_v @ nl"

fun logger_border_cells :: "nat list \<Rightarrow> string \<Rightarrow> string \<Rightarrow> string" where
  "logger_border_cells [] middle right = []"
| "logger_border_cells [w] middle right = logger_print_repeat box_h (w + 2) @ right"
| "logger_border_cells (w # ws) middle right =
     logger_print_repeat box_h (w + 2) @ middle @ logger_border_cells ws middle right"

definition logger_print_table_border :: "nat list \<Rightarrow> string \<Rightarrow> string \<Rightarrow> string \<Rightarrow> string" where
  "logger_print_table_border widths left middle right =
     left @ logger_border_cells widths middle right @ nl"

fun logger_row_cells :: "string option list \<Rightarrow> nat list \<Rightarrow> string" where
  "logger_row_cells (v # vs) (w # ws) =
     '' '' @ pad_cut w (logger_safe_text v) @ '' '' @ box_v @ logger_row_cells vs ws"
| "logger_row_cells _ _ = []"

definition logger_print_table_row :: "string option list \<Rightarrow> nat list \<Rightarrow> string" where
  "logger_print_table_row values widths = box_v @ logger_row_cells values widths @ nl"

definition logger_print_header :: "string option \<Rightarrow> string" where
  "logger_print_header cid =
     (let inner_width = logger_table_inner_width LOG_TABLE_WIDTHS in
      logger_print_full_border inner_width box_tl box_tr @
      logger_print_full_row inner_width (Some ''Container Logs'') @
      (case cid of None \<Rightarrow> [] | Some i \<Rightarrow>
         if i = [] then []
         else logger_print_full_border inner_width box_vr box_vl @
              logger_print_full_row inner_width (Some (snprintf 96 (''Filter: '' @ i)))) @
      logger_print_table_border LOG_TABLE_WIDTHS box_vr box_ht box_vl @
      logger_print_table_row (map Some LOG_TABLE_HEADERS) LOG_TABLE_WIDTHS @
      logger_print_table_border LOG_TABLE_WIDTHS box_vr box_x box_vl)"

definition logger_print_footer :: string where
  "logger_print_footer = logger_print_table_border LOG_TABLE_WIDTHS box_bl box_hb box_br"

section \<open>One record\<close>

definition render_row :: "LogRecord \<Rightarrow> LogCatalog \<Rightarrow> string list" where
  "render_row r catalog =
     (let entry = (if container_id r \<noteq> [] then logger_catalog_find catalog (container_id r) else None);
          status0 = infer_record_status r 16;
          status = (case entry of None \<Rightarrow> status0
                    | Some e \<Rightarrow> if entry_status e \<noteq> [] then snprintf 16 (entry_status e) else status0);
          pid0 = (case entry of None \<Rightarrow> []
                  | Some e \<Rightarrow> if has_pid e then snprintf 16 (show_int (entry_pid e)) else []);
          pid_text = (if pid0 = [] then
              (case extract_pid_from_message (message r) of None \<Rightarrow> pid0
               | Some p \<Rightarrow> snprintf 16 (show_int p)) else pid0)
      in [timestamp r, event r,
          if container_id r \<noteq> [] then container_id r else ''-'',
          case entry of None \<Rightarrow> ''-'' | Some e \<Rightarrow> if entry_name e \<noteq> [] then entry_name e else ''-'',
          if pid_text \<noteq> [] then pid_text else ''-'',
          status, message r])"

definition logger_render_record :: "LogRecord \<Rightarrow> LogCatalog \<Rightarrow> string" where
  "logger_render_record r catalog = logger_print_table_row (map Some (render_row r catalog)) LOG_TABLE_WIDTHS"

section \<open>Reading and selecting\<close>

definition logger_open_read :: "string option \<Rightarrow> string option \<times> string" where
  "logger_open_read file = (case file of
     None \<Rightarrow> (None, ''[error] no logs found at '' @ LOG_FILE @ nl @ nl)
   | Some text \<Rightarrow> (Some text, []))"

definition read_record :: "string option \<Rightarrow> string \<Rightarrow> LogRecord" where
  "read_record cid line = (parse_log_line line)\<lparr>matches_filter := line_matches_container line cid\<rparr>"

text \<open>The array grows to 16, 32, 64, ... records of 932 bytes; \<^const>\<open>None\<close> when that fails.\<close>

fun read_lines :: "(nat \<Rightarrow> bool) \<Rightarrow> string option \<Rightarrow> string list \<Rightarrow> LogRecord list \<Rightarrow> nat \<Rightarrow> LogRecord list option" where
  "read_lines alloc cid [] records cap = Some records"
| "read_lines alloc cid (l # ls) records cap =
     (if length records = cap then
        (let next_cap = (if cap = 0 then 16 else cap * 2) in
         if \<not> alloc (next_cap * 932) then None
         else read_lines alloc cid ls (records @ [read_record cid l]) next_cap)
      else read_lines alloc cid ls (records @ [read_record cid l]) cap)"

definition logger_read_records ::
    "(nat \<Rightarrow> bool) \<Rightarrow> string \<Rightarrow> string option \<Rightarrow> LogRecord list option \<times> string" where
  "logger_read_records alloc text cid =
     (case read_lines alloc cid (fgets_lines 1024 text) [] 0 of
        None \<Rightarrow> (None, ''[error] out of memory'' @ nl @ nl)
      | Some records \<Rightarrow> (Some records, []))"

fun match_indexes :: "LogRecord list \<Rightarrow> nat \<Rightarrow> nat list" where
  "match_indexes [] i = []"
| "match_indexes (r # rs) i = (if matches_filter r then i # match_indexes rs (Suc i) else match_indexes rs (Suc i))"

definition logger_build_selection ::
    "(nat \<Rightarrow> bool) \<Rightarrow> LogRecord list \<Rightarrow> int \<Rightarrow> nat list option \<times> string" where
  "logger_build_selection alloc records tail_lines =
     (let match_count = length (filter matches_filter records) in
      if match_count = 0 then (Some [], [])
      else if \<not> alloc (match_count * 8) then (None, ''[error] out of memory'' @ nl @ nl)
      else
        let matches = match_indexes records 0;
            start = (if tail_lines > 0 \<and> length matches > nat tail_lines
                     then length matches - nat tail_lines else 0) in
        if \<not> alloc ((length matches - start) * 8) then (None, ''[error] out of memory'' @ nl @ nl)
        else (Some (drop start matches), []))"

section \<open>Rendering\<close>

text \<open>The catalog, whether the table is open, whether a row was printed, and the text printed.\<close>

type_synonym render_state = "LogCatalog \<times> bool \<times> bool \<times> string"

fun render_loop ::
    "(nat \<Rightarrow> bool) \<Rightarrow> string option \<Rightarrow> LogRecord list \<Rightarrow> nat \<Rightarrow> nat list \<Rightarrow> render_state \<Rightarrow> render_state" where
  "render_loop alloc cid [] i sel st = st"
| "render_loop alloc cid (r # rs) i sel (catalog, table_open, printed, out) =
     (let catalog1 = logger_catalog_update alloc catalog r in
      if sel = [] \<or> hd sel \<noteq> i then render_loop alloc cid rs (Suc i) sel (catalog1, table_open, printed, out)
      else render_loop alloc cid rs (Suc i) (tl sel)
        (catalog1, True, True,
         out @ (if table_open then [] else logger_print_header cid) @ logger_render_record r catalog1))"

text \<open>
  The result is the C function's return value (\<open>-1\<close> when there is no record array), then
  the state left behind. An empty record array is the NULL pointer.
\<close>

definition logger_render_records ::
    "(nat \<Rightarrow> bool) \<Rightarrow> LogRecord list \<Rightarrow> nat list \<Rightarrow> string option \<Rightarrow> bool \<Rightarrow> bool \<Rightarrow> LogCatalog
     \<Rightarrow> int \<times> LogCatalog \<times> bool \<times> string" where
  "logger_render_records alloc records sel cid keep_open table_open catalog =
     (if records = [] then (-1, catalog, table_open, [])
      else case render_loop alloc cid records 0 sel (catalog, table_open, False, []) of
        (catalog1, open1, printed, out) \<Rightarrow>
          if \<not> keep_open \<and> open1
          then (of_bool printed, catalog1, False, out @ logger_print_footer @ nl)
          else (of_bool printed, catalog1, open1, out))"

definition logger_print_no_results :: "string option \<Rightarrow> string" where
  "logger_print_no_results cid = (case cid of
     None \<Rightarrow> ''[manager] no logs recorded yet'' @ nl @ nl
   | Some i \<Rightarrow> if i = [] then ''[manager] no logs recorded yet'' @ nl @ nl
       else ''[manager] no logs found for '' @ i @ nl @ nl)"

definition logger_render_history ::
    "(nat \<Rightarrow> bool) \<Rightarrow> string option \<Rightarrow> string option \<Rightarrow> int \<Rightarrow> int \<times> string" where
  "logger_render_history alloc file cid tail_lines =
     (case logger_open_read file of
        (None, msg) \<Rightarrow> (-1, msg)
      | (Some text, _) \<Rightarrow>
        (case logger_read_records alloc text cid of
           (None, msg) \<Rightarrow> (-1, msg)
         | (Some records, _) \<Rightarrow>
           (case logger_build_selection alloc records tail_lines of
              (None, msg) \<Rightarrow> (-1, msg)
            | (Some sel, _) \<Rightarrow>
              (case logger_render_records alloc records sel cid False False empty_catalog of
                 (printed, _, _, out) \<Rightarrow>
                   if printed \<le> 0 then (0, out @ logger_print_no_results cid) else (0, out)))))"

definition logger_print :: "(nat \<Rightarrow> bool) \<Rightarrow> string option \<Rightarrow> string option \<Rightarrow> int \<times> string" where
  "logger_print alloc file cid = logger_render_history alloc file cid 0"

definition logger_tail :: "(nat \<Rightarrow> bool) \<Rightarrow> string option \<Rightarrow> string option \<Rightarrow> int \<Rightarrow> int \<times> string" where
  "logger_tail alloc file cid line_count =
     (if line_count \<le> 0 then (-1, ''[error] usage: logs [-f] [-n N] [id]'' @ nl @ nl)
      else logger_render_history alloc file cid line_count)"

section \<open>Following\<close>

record follow =
  fcatalog :: LogCatalog
  ftable_open :: bool
  foffset :: nat

text \<open>One round of the inner loop of \<^verbatim>\<open>logger_follow\<close>: a line that was appended.\<close>

definition follow_line ::
    "(nat \<Rightarrow> bool) \<Rightarrow> string option \<Rightarrow> string \<Rightarrow> LogCatalog \<times> bool \<times> string \<Rightarrow> LogCatalog \<times> bool \<times> string" where
  "follow_line alloc cid line st = (case st of (catalog, table_open, out) \<Rightarrow>
     let r = read_record cid line; catalog1 = logger_catalog_update alloc catalog r in
     if matches_filter r then
       (catalog1, True,
        out @ (if table_open then [] else logger_print_header cid) @ logger_render_record r catalog1)
     else (catalog1, table_open, out))"

text \<open>
  What one round of the poll loop finds: whether an interrupt is pending, the size \<^verbatim>\<open>stat\<close>
  reports and the text \<^verbatim>\<open>fopen\<close> gives, each \<^const>\<open>None\<close> when the call fails. \<open>seek\<close> is
  whether \<^verbatim>\<open>fseek\<close> succeeds.
\<close>

record tick =
  tick_interrupt :: bool
  tick_size :: "nat option"
  tick_text :: "string option"
  tick_seek :: bool

definition follow_tick ::
    "(nat \<Rightarrow> bool) \<Rightarrow> string option \<Rightarrow> tick \<Rightarrow> follow \<Rightarrow> follow \<times> string" where
  "follow_tick alloc cid t f = (case tick_size t of
     None \<Rightarrow> (f, [])
   | Some st_size \<Rightarrow>
       let f1 = (if st_size < foffset f then f\<lparr>foffset := 0\<rparr> else f) in
       if st_size > foffset f1 then
         (case tick_text t of
            None \<Rightarrow> (f1, [])
          | Some text \<Rightarrow>
              if tick_seek t then
                (case fold (follow_line alloc cid) (fgets_lines 1024 (drop (foffset f1) text))
                        (fcatalog f1, ftable_open f1, []) of
                   (catalog, table_open, out) \<Rightarrow>
                     (\<lparr>fcatalog = catalog, ftable_open = table_open,
                       foffset = max (foffset f1) (length text)\<rparr>, out))
              else (f1, []))
       else (f1, []))"

text \<open>
  The poll loop over the rounds that happen; the return value is \<^const>\<open>None\<close> while no round
  has seen an interrupt.
\<close>

fun follow_loop ::
    "(nat \<Rightarrow> bool) \<Rightarrow> string option \<Rightarrow> tick list \<Rightarrow> follow \<Rightarrow> int option \<times> string" where
  "follow_loop alloc cid [] f = (None, [])"
| "follow_loop alloc cid (t # ts) f =
     (if tick_interrupt t then (Some 0, (if ftable_open f then logger_print_footer else []) @ nl)
      else case follow_tick alloc cid t f of (f1, out) \<Rightarrow>
        (case follow_loop alloc cid ts f1 of (rc, rest) \<Rightarrow> (rc, out @ rest)))"

definition follow_hint :: "string option \<Rightarrow> string" where
  "follow_hint cid = ''[hint] following '' @ LOG_FILE @
     (case cid of None \<Rightarrow> [] | Some i \<Rightarrow> if i = [] then [] else '' for '' @ i) @
     ''; press Ctrl+C to stop'' @ nl"

definition logger_follow ::
    "(nat \<Rightarrow> bool) \<Rightarrow> bool \<Rightarrow> string option \<Rightarrow> string option \<Rightarrow> int \<Rightarrow> tick list \<Rightarrow> int option \<times> string" where
  "logger_follow alloc seek file cid initial_tail_lines ticks =
     (case logger_open_read file of
        (None, msg) \<Rightarrow> (Some (-1), msg)
      | (Some text, _) \<Rightarrow>
        (case logger_read_records alloc text cid of
           (None, msg) \<Rightarrow> (Some (-1), msg)
         | (Some records, _) \<Rightarrow>
           if \<not> seek then (Some (-1), ''[error] failed to seek logs'' @ nl @ nl)
           else (case logger_build_selection alloc records (max initial_tail_lines 0) of
              (None, msg) \<Rightarrow> (Some (-1), msg)
            | (Some sel, _) \<Rightarrow>
              (case logger_render_records alloc records sel cid True False empty_catalog of
                 (_, catalog, table_open, out) \<Rightarrow>
                   (case follow_loop alloc cid ticks
                           \<lparr>fcatalog = catalog, ftable_open = table_open, foffset = length text\<rparr> of
                      (rc, rest) \<Rightarrow> (rc, follow_hint cid @ out @ rest))))))"

section \<open>Reading and selecting, specified\<close>

abbreviation catalog_after :: "(nat \<Rightarrow> bool) \<Rightarrow> LogRecord list \<Rightarrow> LogCatalog \<Rightarrow> LogCatalog" where
  "catalog_after alloc rs c \<equiv> fold (\<lambda>r c. logger_catalog_update alloc c r) rs c"

text \<open>The last \<open>n\<close> elements; all of them when \<open>n\<close> is not positive.\<close>

definition last_n :: "int \<Rightarrow> 'a list \<Rightarrow> 'a list" where
  "last_n n xs = (if n > 0 then drop (length xs - nat n) xs else xs)"

lemma last_n_Nil [simp]: "last_n n xs = [] \<longleftrightarrow> xs = []"
  by (cases xs) (auto simp: last_n_def)

lemma last_n_0 [simp]: "last_n 0 xs = xs" "last_n n [] = []"
  by (simp_all add: last_n_def)

lemma read_lines_eq: "(\<And>n. alloc n) \<Longrightarrow> read_lines alloc cid ls rs c = Some (rs @ map (read_record cid) ls)"
  by (induction ls arbitrary: rs c) (simp_all add: Let_def)

lemma read_records_eq:
  "(\<And>n. alloc n) \<Longrightarrow> logger_read_records alloc text cid = (Some (map (read_record cid) (fgets_lines 1024 text)), [])"
  by (simp add: logger_read_records_def read_lines_eq)

lemma match_indexes_eq: "match_indexes rs i = filter (\<lambda>j. matches_filter (rs ! (j - i))) [i..<i + length rs]"
proof (induction rs arbitrary: i)
  case (Cons r rs)
  have "filter (\<lambda>j. matches_filter ((r # rs) ! (j - i))) [Suc i..<Suc i + length rs]
      = filter (\<lambda>j. matches_filter (rs ! (j - Suc i))) [Suc i..<Suc i + length rs]"
    by (intro filter_cong) (auto simp: nth_Cons' )
  moreover have "[i..<i + length (r # rs)] = i # [Suc i..<Suc i + length rs]"
    using upt_conv_Cons [of i "i + length (r # rs)"] by simp
  ultimately show ?case using Cons.IH [of "Suc i"] by simp
qed simp

lemma build_selection_eq:
  assumes "\<And>n. alloc n"
  shows "logger_build_selection alloc rs n = (Some (last_n n (match_indexes rs 0)), [])"
proof -
  have len: "length (match_indexes rs i) = length (filter matches_filter rs)" for i
    by (induction rs arbitrary: i) simp_all
  show ?thesis
  proof (cases "filter matches_filter rs = []")
    case True
    with len [of 0] have "match_indexes rs 0 = []" by simp
    with True show ?thesis by (simp add: logger_build_selection_def last_n_def)
  next
    case False
    with assms len [of 0] show ?thesis
      by (simp add: logger_build_selection_def last_n_def Let_def)
  qed
qed

section \<open>The rendering pass\<close>

lemma render_loop_eq:
  assumes "sorted_wrt (<) sel" "\<forall>j \<in> set sel. i \<le> j \<and> j < i + length rs"
  shows "render_loop alloc cid rs i sel (c, op, p, out) =
    (catalog_after alloc rs c, op \<or> sel \<noteq> [], p \<or> sel \<noteq> [],
     out @ (if sel \<noteq> [] \<and> \<not> op then logger_print_header cid else [])
         @ concat (map (\<lambda>j. logger_render_record (rs ! (j - i)) (catalog_after alloc (take (Suc (j - i)) rs) c)) sel))"
  using assms
proof (induction rs arbitrary: i sel c op p out)
  case Nil
  then have "sel = []" by (cases sel) auto
  then show ?case by simp
next
  case (Cons r rs)
  let ?c = "logger_catalog_update alloc c r"
  have shift: "logger_render_record ((r # rs) ! (j - i)) (catalog_after alloc (take (Suc (j - i)) (r # rs)) c)
      = logger_render_record (rs ! (j - Suc i)) (catalog_after alloc (take (Suc (j - Suc i)) rs) ?c)"
    if "i < j" for j
  proof -
    from that have "j - i = Suc (j - Suc i)" by simp
    then show ?thesis by (simp only: nth_Cons_Suc take_Suc_Cons fold_simps)
  qed
  show ?case
  proof (cases "sel = [] \<or> hd sel \<noteq> i")
    case True
    have later: "\<forall>j \<in> set sel. i < j"
    proof (cases sel)
      case (Cons j js)
      with True Cons.prems have "i < j" "\<forall>k \<in> set js. j < k" by auto
      with Cons show ?thesis by auto
    qed simp
    moreover have "\<forall>j \<in> set sel. Suc i \<le> j \<and> j < Suc i + length rs" using later Cons.prems by fastforce
    ultimately show ?thesis
      using True Cons.prems(1) shift
      by (simp add: Cons.IH Let_def cong: map_cong del: take_Suc_Cons)
  next
    case False
    then obtain js where sel: "sel = i # js" by (cases sel) auto
    have js: "\<forall>j \<in> set js. i < j" using Cons.prems(1) sel by simp
    moreover have "\<forall>j \<in> set js. Suc i \<le> j \<and> j < Suc i + length rs" using js Cons.prems(2) sel by auto
    ultimately show ?thesis
      using Cons.prems(1) shift sel by (simp add: Cons.IH Let_def cong: map_cong)
  qed
qed

section \<open>Following, specified\<close>

lemma follow_acc:
  "fold (follow_line alloc cid) ls (c, op, out) =
     (case fold (follow_line alloc cid) ls (c, op, []) of (c', op', out') \<Rightarrow> (c', op', out @ out'))"
proof (induction ls arbitrary: c op out)
  case (Cons l ls)
  have "\<exists>c1 op1 x. \<forall>o1. follow_line alloc cid l (c, op, o1) = (c1, op1, o1 @ x)"
    by (cases "matches_filter (read_record cid l)") (auto simp: follow_line_def Let_def)
  then obtain c1 op1 x where x: "\<And>o1. follow_line alloc cid l (c, op, o1) = (c1, op1, o1 @ x)" by blast
  show ?case
    using Cons.IH [of c1 op1 "out @ x"] Cons.IH [of c1 op1 x] by (simp add: x split: prod.splits)
qed simp

lemma match_indexes_ge: "j \<in> set (match_indexes rs i) \<Longrightarrow> i \<le> j"
  by (induction rs arbitrary: i) (fastforce split: if_splits)+

lemma render_loop_follow:
  "render_loop alloc cid (map (read_record cid) ls) i (match_indexes (map (read_record cid) ls) i) (c, op, p, out) =
     (case fold (follow_line alloc cid) ls (c, op, out) of (c', op', out') \<Rightarrow>
        (c', op', p \<or> (\<exists>l \<in> set ls. line_matches_container l cid), out'))"
proof (induction ls arbitrary: i c op p out)
  case (Cons l ls)
  let ?rs = "map (read_record cid) ls" and ?m = "match_indexes (map (read_record cid) ls) (Suc i)"
  have m: "matches_filter (read_record cid l) = line_matches_container l cid"
    by (simp add: read_record_def)
  show ?case
  proof (cases "line_matches_container l cid")
    case True
    then show ?thesis using m
      by (simp add: Let_def Cons.IH follow_line_def split: prod.splits)
  next
    case False
    have "?m = [] \<or> hd ?m \<noteq> i" using match_indexes_ge [of _ ?rs "Suc i"] by (cases ?m) fastforce+
    then show ?thesis using m False
      by (simp add: Let_def Cons.IH follow_line_def)
  qed
qed simp

definition whole_lines :: "string \<Rightarrow> bool" where
  "whole_lines s \<longleftrightarrow> s = [] \<or> last s = CHR 0x0A"

lemma fgets_lines_append:
  "whole_lines s \<Longrightarrow> fgets_lines n (s @ t) = fgets_lines n s @ fgets_lines n t"
proof (induction n s rule: fgets_lines.induct)
  case (1 n s)
  show ?case
  proof (cases "s = [] \<or> n < 2")
    case True
    then show ?thesis by (cases "s = []") (simp_all add: fgets_lines.simps)
  next
    case False
    then have mem: "CHR 0x0A \<in> set s" using "1.prems" last_in_set [of s] by (auto simp: whole_lines_def)
    then have tw: "takeWhile (\<lambda>c. c \<noteq> CHR 0x0A) (s @ t) = takeWhile (\<lambda>c. c \<noteq> CHR 0x0A) s"
      by (intro takeWhile_append1) auto
    have "length (takeWhile (\<lambda>c. c \<noteq> CHR 0x0A) s) < length s"
      using mem by (simp add: length_takeWhile_less)
    then have line: "fgets_line n (s @ t) = fgets_line n s" and len: "length (fgets_line n s) \<le> length s"
      by (auto simp: fgets_line_def Let_def tw)
    have "whole_lines (drop (length (fgets_line n s)) s)"
      using "1.prems" False last_drop [of "length (fgets_line n s)" s] not_le by (fastforce simp: whole_lines_def)
    with "1.IH" False len line show ?thesis
      by (simp add: fgets_lines.simps [of n "s @ t"] fgets_lines.simps [of n s])
  qed
qed

text \<open>The rounds of the poll loop while the log grows by the given chunks.\<close>

fun grow_ticks :: "string \<Rightarrow> string list \<Rightarrow> tick list" where
  "grow_ticks text [] = []"
| "grow_ticks text (c # cs) =
     \<lparr>tick_interrupt = False, tick_size = Some (length (text @ c)), tick_text = Some (text @ c), tick_seek = True\<rparr>
     # grow_ticks (text @ c) cs"

definition interrupt_tick :: tick where
  "interrupt_tick = \<lparr>tick_interrupt = True, tick_size = None, tick_text = None, tick_seek = False\<rparr>"

lemma follow_tick_grow:
  "follow_tick alloc cid \<lparr>tick_interrupt = False, tick_size = Some (length (body @ ch)), tick_text = Some (body @ ch),
      tick_seek = True\<rparr> \<lparr>fcatalog = c, ftable_open = op, foffset = length body\<rparr> =
   (case fold (follow_line alloc cid) (fgets_lines 1024 ch) (c, op, []) of (c', op', out) \<Rightarrow>
      (\<lparr>fcatalog = c', ftable_open = op', foffset = length (body @ ch)\<rparr>, out))"
  by (cases ch) (simp_all add: follow_tick_def Let_def split: prod.split)

lemma follow_loop_grow:
  assumes "\<forall>ch \<in> set chs. whole_lines ch"
  shows "follow_loop alloc cid (grow_ticks body chs @ [interrupt_tick])
      \<lparr>fcatalog = c, ftable_open = op, foffset = length body\<rparr> =
    (case fold (follow_line alloc cid) (fgets_lines 1024 (concat chs)) (c, op, []) of (_, op', out) \<Rightarrow>
       (Some 0, out @ (if op' then logger_print_footer else []) @ nl))"
  using assms
proof (induction chs arbitrary: body c op)
  case Nil
  show ?case by (simp add: interrupt_tick_def)
next
  case (Cons ch chs)
  obtain c1 op1 out1 where one: "fold (follow_line alloc cid) (fgets_lines 1024 ch) (c, op, []) = (c1, op1, out1)"
    by (rule prod_cases3)
  have "whole_lines ch" using Cons.prems by simp
  with one follow_acc [of alloc cid "fgets_lines 1024 (concat chs)" c1 op1 out1]
  have "fold (follow_line alloc cid) (fgets_lines 1024 (concat (ch # chs))) (c, op, []) =
      (case fold (follow_line alloc cid) (fgets_lines 1024 (concat chs)) (c1, op1, []) of (c', op', out') \<Rightarrow>
        (c', op', out1 @ out'))"
    by (simp add: fgets_lines_append)
  moreover have "follow_loop alloc cid (grow_ticks (body @ ch) chs @ [interrupt_tick])
      \<lparr>fcatalog = c1, ftable_open = op1, foffset = length (body @ ch)\<rparr> =
    (case fold (follow_line alloc cid) (fgets_lines 1024 (concat chs)) (c1, op1, []) of (_, op', out) \<Rightarrow>
       (Some 0, out @ (if op' then logger_print_footer else []) @ nl))"
    using Cons.IH [of "body @ ch" c1 op1] Cons.prems by simp
  ultimately show ?case
    using follow_tick_grow [of alloc cid body ch c op] one by (simp split: prod.splits)
qed

lemma render_records_follow:
  "logger_render_records alloc (map (read_record cid) ls) (match_indexes (map (read_record cid) ls) 0) cid keep False
      empty_catalog =
   (if ls = [] then (-1, empty_catalog, False, [])
    else case fold (follow_line alloc cid) ls (empty_catalog, False, []) of (c, op, out) \<Rightarrow>
      (of_bool (\<exists>l \<in> set ls. line_matches_container l cid), c, keep \<and> op,
       if \<not> keep \<and> op then out @ logger_print_footer @ nl else out))"
  using render_loop_follow [of alloc cid ls 0 empty_catalog False False "[]"]
  by (auto simp: logger_render_records_def split: prod.splits)

lemma follow_open:
  "fold (follow_line alloc cid) ls (c, op, out) = (c', op', out') \<Longrightarrow>
   op' \<longleftrightarrow> op \<or> (\<exists>l \<in> set ls. line_matches_container l cid)"
proof (induction ls arbitrary: c op out)
  case (Cons l ls)
  obtain c1 op1 out1 where one: "follow_line alloc cid l (c, op, out) = (c1, op1, out1)" by (rule prod_cases3)
  then have "op1 \<longleftrightarrow> op \<or> line_matches_container l cid"
    by (auto simp: follow_line_def Let_def read_record_def split: if_splits)
  with one Cons show ?case by auto
qed simp

section \<open>Properties\<close>

text \<open>
  (C26) What \<^verbatim>\<open>logs\<close> and \<^verbatim>\<open>logs -n N\<close> print, when memory suffices: the header, one row per
  selected record and the footer, where the selected records are the last \<open>N\<close> (all, without
  \<^verbatim>\<open>-n\<close>) of those that match the filter, in file order, and each row is rendered with the
  catalog of all the records up to it, shown or not. When nothing matches, only the message
  that says so is printed. The call succeeds either way.
\<close>

theorem logs_show_last_matching:
  assumes "\<And>n. alloc n"
  shows "logger_render_history alloc (Some body) cid tail_lines =
    (let records = map (read_record cid) (fgets_lines 1024 body);
         shown = last_n tail_lines (filter (\<lambda>i. matches_filter (records ! i)) [0..<length records])
     in (0, if shown = [] then logger_print_no_results cid
            else logger_print_header cid @
              concat (map (\<lambda>i. logger_render_record (records ! i)
                  (catalog_after alloc (take (Suc i) records) empty_catalog)) shown) @
              logger_print_footer @ nl))"
proof -
  let ?rs = "map (read_record cid) (fgets_lines 1024 body)"
  let ?sel = "last_n tail_lines (match_indexes ?rs 0)"
  have idx: "match_indexes ?rs 0 = filter (\<lambda>i. matches_filter (?rs ! i)) [0..<length ?rs]"
    using match_indexes_eq [of ?rs 0] by simp
  have "sorted_wrt (<) (match_indexes ?rs 0)" "\<forall>j \<in> set (match_indexes ?rs 0). j < length ?rs"
    unfolding idx by (auto intro: sorted_wrt_filter)
  then have "sorted_wrt (<) ?sel" "\<forall>j \<in> set ?sel. 0 \<le> j \<and> j < 0 + length ?rs"
    by (auto simp: last_n_def sorted_wrt_drop dest: in_set_dropD)
  from render_loop_eq [OF this, of alloc cid empty_catalog False False "[]"]
  show ?thesis
    unfolding logger_render_history_def logger_open_read_def option.case prod.case
      read_records_eq [of alloc, OF assms] build_selection_eq [of alloc, OF assms] logger_render_records_def
      Let_def idx [symmetric]
    by (auto simp: idx)
qed

theorem logs_show_last_matching_witness:
  "logger_render_history (\<lambda>_. True) (Some (''a'' @ nl @ ''b'' @ nl)) (Some ''b'') 1 =
    (0, logger_print_header (Some ''b'') @
        logger_render_record (read_record (Some ''b'') (''b'' @ nl)) empty_catalog @ logger_print_footer @ nl)"
proof -
  have "fgets_lines 1024 (''a'' @ nl @ ''b'' @ nl) = [''a'' @ nl, ''b'' @ nl]"
    by (simp add: fgets_lines.simps fgets_line_def)
  moreover have "\<not> matches_filter (read_record (Some ''b'') (''a'' @ nl))" "matches_filter (read_record (Some ''b'') (''b'' @ nl))"
    by (simp_all add: read_record_def line_matches_container_def)
  moreover have "container_id (read_record (Some ''b'') (''a'' @ nl)) = []" "container_id (read_record (Some ''b'') (''b'' @ nl)) = []"
    by (simp_all add: read_record_def parse_log_line_def snprintf_def trim_newline_def id_or_empty_def
      extract_container_id.simps)
  ultimately show ?thesis
    by (subst logs_show_last_matching)
       (simp_all add: Let_def last_n_def logger_catalog_update_def)
qed



end
