(* ===== verification/Prog.thy ===== *)
theory Prog
  imports Kernel
begin

text \<open>
  Programs over the kernel that may not return. A function of the C sources that makes system
  calls is a function from the kernel state to its outcome and the kernel state it leaves;
  \<^const>\<open>None\<close> is a run that never ends, so a loop is a \<^theory_text>\<open>partial_function (option)\<close>. An outcome
  is \<^term>\<open>Inl e\<close> for a return of \<open>-1\<close> with \<^verbatim>\<open>errno\<close> set to \<open>e\<close>, and \<^term>\<open>Inr x\<close> for success.
\<close>

section \<open>Combinators\<close>

type_synonym ('k, 'a) prog = "'k \<Rightarrow> ('a result \<times> 'k) option"

definition call :: "('k, 'a result) state \<Rightarrow> ('k, 'a) prog" where
  "call m k = Some (run_state m k)"

definition query :: "('k, 'a) state \<Rightarrow> ('k, 'a) prog" where
  "query m k = (case run_state m k of (x, k') \<Rightarrow> Some (Inr x, k'))"

definition succeed :: "'a \<Rightarrow> ('k, 'a) prog" where
  "succeed x k = Some (Inr x, k)"

definition fail :: "errno \<Rightarrow> ('k, 'a) prog" where
  "fail e k = Some (Inl e, k)"

text \<open>Run the next program on any outcome; run it on success only; run it for its effect only.\<close>

definition attempt :: "('k, 'a) prog \<Rightarrow> ('a result \<Rightarrow> ('k, 'b) prog) \<Rightarrow> ('k, 'b) prog" where
  "attempt m f k = Option.bind (m k) (\<lambda>(r, k'). f r k')"

definition chain :: "('k, 'a) prog \<Rightarrow> ('a \<Rightarrow> ('k, 'b) prog) \<Rightarrow> ('k, 'b) prog" where
  "chain m f k = Option.bind (m k) (\<lambda>(r, k'). case r of Inl e \<Rightarrow> Some (Inl e, k') | Inr x \<Rightarrow> f x k')"

definition andthen :: "('k, 'a) prog \<Rightarrow> ('k, 'b) prog \<Rightarrow> ('k, 'a) prog" where
  "andthen m c k = Option.bind (m k) (\<lambda>(r, k'). Option.bind (c k') (\<lambda>(_, k''). Some (r, k'')))"

fun each :: "('x \<Rightarrow> ('k, unit) prog) \<Rightarrow> 'x list \<Rightarrow> ('k, unit) prog" where
  "each f [] = succeed ()"
| "each f (x # xs) = chain (f x) (\<lambda>_. each f xs)"

text \<open>Read the state; change the state.\<close>

definition gets :: "('k \<Rightarrow> 'a) \<Rightarrow> ('k, 'a) prog" where
  "gets f k = Some (Inr (f k), k)"

definition modify :: "('k \<Rightarrow> 'k) \<Rightarrow> ('k, unit) prog" where
  "modify f k = Some (Inr (), f k)"

lemmas prog_defs = call_def query_def succeed_def fail_def attempt_def chain_def andthen_def

section \<open>Monotonicity, for the recursive programs\<close>

lemma attempt_mono [partial_function_mono]:
  assumes "\<And>k. mono_option (\<lambda>g. m g k)" "\<And>r k. mono_option (\<lambda>g. f g r k)"
  shows "mono_option (\<lambda>g. attempt (m g) (f g) k)"
  unfolding attempt_def by (intro bind_mono assms) (simp add: case_prod_beta assms)

lemma chain_mono [partial_function_mono]:
  assumes "\<And>k. mono_option (\<lambda>g. m g k)" "\<And>x k. mono_option (\<lambda>g. f g x k)"
  shows "mono_option (\<lambda>g. chain (m g) (f g) k)"
proof -
  have "mono_option (\<lambda>g. case r of Inl e \<Rightarrow> Some (Inl e, k') | Inr x \<Rightarrow> f g x k')" for r :: "'d result" and k'
    by (cases r) (simp_all add: assms option.const_mono)
  then show ?thesis
    unfolding chain_def by (intro bind_mono assms) (simp add: case_prod_beta)
qed

lemma case_sum_apply_mono [partial_function_mono]:
  assumes "\<And>e. mono_option (\<lambda>g. a g e k)" "\<And>x. mono_option (\<lambda>g. b g x k)"
  shows "mono_option (\<lambda>g. (case r of Inl e \<Rightarrow> a g e | Inr x \<Rightarrow> b g x) k)"
  by (cases r) (simp_all add: assms)

lemma if_apply_mono [partial_function_mono]:
  assumes "mono_option (\<lambda>g. a g k)" "mono_option (\<lambda>g. b g k)"
  shows "mono_option (\<lambda>g. (if c then a g else b g) k)"
  by (cases c) (simp_all add: assms)

lemma let_apply_mono [partial_function_mono]:
  assumes "\<And>x. mono_option (\<lambda>g. b g x k)"
  shows "mono_option (\<lambda>g. (let x = t in b g x) k)"
  by (simp add: assms)

lemma case_option_apply_mono [partial_function_mono]:
  assumes "mono_option (\<lambda>g. a g k)" "\<And>x. mono_option (\<lambda>g. b g x k)"
  shows "mono_option (\<lambda>g. (case r of None \<Rightarrow> a g | Some x \<Rightarrow> b g x) k)"
  by (cases r) (simp_all add: assms)

section \<open>Running\<close>

lemma run_simps [simp]:
  "succeed x k = Some (Inr x, k)" "fail e k = Some (Inl e, k)" "call m k = Some (run_state m k)"
  "gets f k = Some (Inr (f k), k)" "modify g k = Some (Inr (), g k)"
  by (simp_all add: prog_defs gets_def modify_def)

lemma attempt_None [simp]: "m k = None \<Longrightarrow> attempt m f k = None"
  by (simp add: attempt_def)

lemma chain_None [simp]: "m k = None \<Longrightarrow> chain m f k = None"
  by (simp add: chain_def)

lemma attempt_Some: "m k = Some (r, k') \<Longrightarrow> attempt m f k = f r k'"
  by (simp add: attempt_def)

lemma chain_Inr: "m k = Some (Inr x, k') \<Longrightarrow> chain m f k = f x k'"
  by (simp add: chain_def)

lemma chain_Inl: "m k = Some (Inl e, k') \<Longrightarrow> chain m f k = Some (Inl e, k')"
  by (simp add: chain_def)

lemma andthen_Some: "m k = Some (r, k') \<Longrightarrow> c k' = Some (r', k'') \<Longrightarrow> andthen m c k = Some (r, k'')"
  by (simp add: andthen_def)

lemma attemptE:
  assumes "attempt m f k = Some (r, k')"
  obtains r1 k1 where "m k = Some (r1, k1)" "f r1 k1 = Some (r, k')"
  using assms by (auto simp: attempt_def bind_eq_Some_conv)

lemma chainE:
  assumes "chain m f k = Some (r, k')"
  obtains (failed) e where "m k = Some (Inl e, k')" "r = Inl e"
  | (went_on) x k1 where "m k = Some (Inr x, k1)" "f x k1 = Some (r, k')"
proof (cases "m k")
  case (Some p)
  with assms that show ?thesis by (cases p; cases "fst p") (auto simp: chain_def)
qed (use assms in \<open>simp add: chain_def\<close>)

lemma andthenE:
  assumes "andthen m c k = Some (r, k')"
  obtains k1 r2 where "m k = Some (r, k1)" "c k1 = Some (r2, k')"
  using assms by (auto simp: andthen_def bind_eq_Some_conv)

section \<open>Triples\<close>

text \<open>If the program returns from a state with \<open>P\<close>, then outcome and final state satisfy \<open>Q\<close>.\<close>

definition post :: "('k \<Rightarrow> bool) \<Rightarrow> ('k, 'a) prog \<Rightarrow> ('a result \<Rightarrow> 'k \<Rightarrow> bool) \<Rightarrow> bool" where
  "post P m Q \<longleftrightarrow> (\<forall>k r k'. P k \<longrightarrow> m k = Some (r, k') \<longrightarrow> Q r k')"

abbreviation keeps :: "('k \<Rightarrow> bool) \<Rightarrow> ('k, 'a) prog \<Rightarrow> bool" where
  "keeps I m \<equiv> post I m (\<lambda>_. I)"

named_theorems post_intro \<open>structural rules of the triple over programs\<close>

lemma postI: "(\<And>k r k'. P k \<Longrightarrow> m k = Some (r, k') \<Longrightarrow> Q r k') \<Longrightarrow> post P m Q"
  by (simp add: post_def)

lemma postD: "post P m Q \<Longrightarrow> P k \<Longrightarrow> m k = Some (r, k') \<Longrightarrow> Q r k'"
  by (simp add: post_def)

lemma post_succeed [post_intro]: "(\<And>k. P k \<Longrightarrow> Q (Inr x) k) \<Longrightarrow> post P (succeed x) Q"
  by (simp add: post_def)

lemma post_fail [post_intro]: "(\<And>k. P k \<Longrightarrow> Q (Inl e) k) \<Longrightarrow> post P (fail e) Q"
  by (simp add: post_def)

lemma post_gets: "(\<And>k. P k \<Longrightarrow> Q (Inr (f k)) k) \<Longrightarrow> post P (gets f) Q"
  by (simp add: post_def)

lemma keeps_gets [post_intro]: "keeps I (gets f)"
  by (rule post_gets)

lemma post_modify: "(\<And>k. P k \<Longrightarrow> Q (Inr ()) (f k)) \<Longrightarrow> post P (modify f) Q"
  by (simp add: post_def)

text \<open>A program that goes on with a value read from the state.\<close>

lemma post_chain_gets:
  "(\<And>x. post (\<lambda>k. P k \<and> f k = x) (g x) Q) \<Longrightarrow> post P (chain (gets f) g) Q"
  unfolding post_def by (auto simp: chain_def)

lemma post_weaken:
  "post P m Q \<Longrightarrow> (\<And>k. P' k \<Longrightarrow> P k) \<Longrightarrow> (\<And>r k. Q r k \<Longrightarrow> Q' r k) \<Longrightarrow> post P' m Q'"
  by (fastforce simp: post_def)

lemma post_call: "triple P m Q \<Longrightarrow> post P (call m) Q"
  by (simp add: post_def triple_def)

lemma post_attempt: "post P m R \<Longrightarrow> (\<And>r. post (R r) (f r) Q) \<Longrightarrow> post P (attempt m f) Q"
  unfolding post_def by (blast elim: attemptE)

lemma post_chain:
  "post P m R \<Longrightarrow> (\<And>x. post (R (Inr x)) (f x) Q) \<Longrightarrow> (\<And>e k. R (Inl e) k \<Longrightarrow> Q (Inl e) k) \<Longrightarrow> post P (chain m f) Q"
  unfolding post_def by (blast elim: chainE)

lemma keeps_attempt [post_intro]: "keeps I m \<Longrightarrow> (\<And>r. keeps I (f r)) \<Longrightarrow> keeps I (attempt m f)"
  by (rule post_attempt)

lemma keeps_chain [post_intro]: "keeps I m \<Longrightarrow> (\<And>x. keeps I (f x)) \<Longrightarrow> keeps I (chain m f)"
  by (rule post_chain)

lemma keeps_andthen [post_intro]: "keeps I m \<Longrightarrow> keeps I c \<Longrightarrow> keeps I (andthen m c)"
  unfolding post_def by (blast elim: andthenE)

lemma keeps_if [post_intro]:
  "(b \<Longrightarrow> keeps I m) \<Longrightarrow> (\<not> b \<Longrightarrow> keeps I n) \<Longrightarrow> keeps I (if b then m else n)"
  by simp

lemma keeps_case_sum [post_intro]:
  "(\<And>e. x = Inl e \<Longrightarrow> keeps I (f e)) \<Longrightarrow> (\<And>y. x = Inr y \<Longrightarrow> keeps I (g y)) \<Longrightarrow>
   keeps I (case x of Inl e \<Rightarrow> f e | Inr y \<Rightarrow> g y)"
  by (cases x) auto

lemma keeps_case_option [post_intro]:
  "(x = None \<Longrightarrow> keeps I m) \<Longrightarrow> (\<And>y. x = Some y \<Longrightarrow> keeps I (f y)) \<Longrightarrow>
   keeps I (case x of None \<Rightarrow> m | Some y \<Rightarrow> f y)"
  by (cases x) auto

lemma keeps_case_prod [post_intro]:
  "(\<And>a b. x = (a, b) \<Longrightarrow> keeps I (f a b)) \<Longrightarrow> keeps I (case x of (a, b) \<Rightarrow> f a b)"
  by (cases x) auto

lemma keeps_Let [post_intro]: "keeps I (f t) \<Longrightarrow> keeps I (Let t f)"
  by simp

lemma keeps_each [post_intro]: "(\<And>x. x \<in> set xs \<Longrightarrow> keeps I (f x)) \<Longrightarrow> keeps I (each f xs)"
proof (induction xs)
  case (Cons x xs)
  then show ?case by (simp add: keeps_chain)
qed (simp add: post_succeed)

end
