(* ===== verification/Filesystem.thy ===== *)
theory Filesystem
  imports Prog
begin

text \<open>
  Preparing and entering a container's root file system: \<^verbatim>\<open>src/filesystem.c\<close>. Preparing creates
  the directory layout and copies the bootstrap binaries, the libraries \<^verbatim>\<open>ldd\<close> lists for them and
  the workload programs into it. Isolating enters it with \<^verbatim>\<open>pivot_root\<close>, or with \<^verbatim>\<open>chroot\<close> when
  the host denies that, and mounts \<^verbatim>\<open>/proc\<close>. Buffers of \<^verbatim>\<open>PATH_MAX\<close> bytes bound every path.
\<close>

section \<open>Constants\<close>

definition OLD_ROOT_DIR :: string where
  "OLD_ROOT_DIR = ''.old_root''"

definition FILESYSTEM_PROFILE :: string where
  "FILESYSTEM_PROFILE = ''pivot_root + /proc (chroot fallback, proc best-effort)''"

definition bootstrap_binaries :: "string list" where
  "bootstrap_binaries = [''/bin/sh'', ''/bin/echo'', ''/bin/hostname'', ''/bin/ps'', ''/bin/sleep'']"

record BootstrapWorkload =
  host_relative :: string
  container_path :: string

definition bootstrap_workloads :: "BootstrapWorkload list" where
  "bootstrap_workloads =
    [\<lparr>host_relative = ''./bin/workload-cpu'', container_path = ''/bin/workload-cpu''\<rparr>,
     \<lparr>host_relative = ''./bin/workload-mem'', container_path = ''/bin/workload-mem''\<rparr>,
     \<lparr>host_relative = ''./bin/workload-fork'', container_path = ''/bin/workload-fork''\<rparr>,
     \<lparr>host_relative = ''./bin/workload-netcheck'', container_path = ''/bin/workload-netcheck''\<rparr>]"

record FilesystemConfig =
  config_rootfs :: "string option"

definition layout_dirs :: "string list" where
  "layout_dirs = [''bin'', ''lib'', ''lib64'', ''usr'', ''usr/bin'', ''usr/lib'', ''usr/lib64'', ''proc'',
     ''tmp'', ''dev'', OLD_ROOT_DIR]"

abbreviation (input) mode_0755 :: nat where "mode_0755 \<equiv> 493"

section \<open>Paths\<close>

text \<open>\<^verbatim>\<open>snprintf\<close> into a path buffer, where a text that does not fit is the error \<^verbatim>\<open>ENAMETOOLONG\<close>.\<close>

definition path_fits :: "nat \<Rightarrow> string \<Rightarrow> string result" where
  "path_fits path_size path = (if length path \<ge> path_size then Inl ENAMETOOLONG else Inr path)"

definition path_join :: "nat \<Rightarrow> string \<Rightarrow> string \<Rightarrow> string result" where
  "path_join buffer_size left right = path_fits buffer_size (left @ ''/'' @ right)"

definition path_dirname :: "string option \<Rightarrow> nat \<Rightarrow> string result" where
  "path_dirname path buffer_size = (case path of
     None \<Rightarrow> Inl EINVAL
   | Some p \<Rightarrow>
       if p = [] \<or> buffer_size = 0 then Inl EINVAL
       else (case strrchr p (CHR ''/'') of
           None \<Rightarrow> Inl EINVAL
         | Some slash \<Rightarrow>
             let len0 = length p - length slash; len = (if len0 = 0 then 1 else len0) in
             if len \<ge> buffer_size then Inl ENAMETOOLONG else Inr (take len p)))"

definition resolve_symlink_target :: "string \<Rightarrow> string \<Rightarrow> nat \<Rightarrow> string result" where
  "resolve_symlink_target link_path target resolved_size =
     (if resolved_size = 0 then Inl EINVAL
      else if target \<noteq> [] \<and> hd target = CHR ''/'' then path_fits resolved_size target
      else (case path_dirname (Some link_path) PATH_MAX of
          Inl e \<Rightarrow> Inl e
        | Inr parent \<Rightarrow>
            let slash = (if parent = ''/'' then [] else ''/'') in
            (case path_fits resolved_size (parent @ slash @ target) of
               Inl e \<Rightarrow> Inl e
             | Inr resolved \<Rightarrow> if length parent = 0 then Inl EINVAL else Inr resolved)))"

section \<open>Directories\<close>

partial_function (option) ensure_directory :: "'k file_sys \<Rightarrow> string \<Rightarrow> nat \<Rightarrow> ('k, unit) prog" where
  "ensure_directory fs path mode k =
     attempt (call (sys_stat fs path)) (\<lambda>s. case s of
       Inr st \<Rightarrow> (if st_kind st \<noteq> S_DIR then fail ENOTDIR else succeed ())
     | Inl _ \<Rightarrow> attempt (call (sys_mkdir fs path mode)) (\<lambda>m. case m of
           Inr _ \<Rightarrow> succeed ()
         | Inl e \<Rightarrow> (if e = EEXIST then ensure_directory fs path mode else fail e))) k"

text \<open>The strings \<^verbatim>\<open>mkdir_p\<close> passes on: the path up to each slash after the first byte, then all of it.\<close>

definition mkdir_prefixes :: "string \<Rightarrow> string list" where
  "mkdir_prefixes buffer =
     map (\<lambda>i. take i buffer) (filter (\<lambda>i. buffer ! i = CHR ''/'') [1..<length buffer]) @ [buffer]"

definition strip_slash :: "string \<Rightarrow> string" where
  "strip_slash buffer = (if length buffer > 1 \<and> last buffer = CHR ''/'' then butlast buffer else buffer)"

definition mkdir_p :: "'k file_sys \<Rightarrow> string option \<Rightarrow> nat \<Rightarrow> ('k, unit) prog" where
  "mkdir_p fs path mode = (case path of
     None \<Rightarrow> fail EINVAL
   | Some p \<Rightarrow>
       if p = [] then fail EINVAL
       else if length p \<ge> PATH_MAX then fail ENAMETOOLONG
       else each (\<lambda>d. ensure_directory fs d mode) (mkdir_prefixes (strip_slash p)))"

definition of_result :: "'a result \<Rightarrow> ('k, 'a) prog" where
  "of_result r = (case r of Inl e \<Rightarrow> fail e | Inr x \<Rightarrow> succeed x)"

definition create_layout :: "'k file_sys \<Rightarrow> string \<Rightarrow> ('k, unit) prog" where
  "create_layout fs rootfs = each (\<lambda>d.
     chain (of_result (path_fits PATH_MAX (rootfs @ ''/'' @ d))) (\<lambda>path.
       mkdir_p fs (Some path) mode_0755)) layout_dirs"

section \<open>Copying\<close>

partial_function (option) write_all :: "'k file_sys \<Rightarrow> int \<Rightarrow> string \<Rightarrow> ('k, unit) prog" where
  "write_all fs dst_fd rest k =
     (if rest = [] then succeed ()
      else attempt (call (sys_write fs dst_fd rest)) (\<lambda>w. case w of
        Inl e \<Rightarrow> (if e = EINTR then write_all fs dst_fd rest else fail e)
      | Inr n \<Rightarrow> write_all fs dst_fd (drop n rest))) k"

partial_function (option) copy_file_contents :: "'k file_sys \<Rightarrow> int \<Rightarrow> int \<Rightarrow> ('k, unit) prog" where
  "copy_file_contents fs src_fd dst_fd k =
     attempt (call (sys_read fs src_fd 8192)) (\<lambda>r. case r of
       Inl e \<Rightarrow> (if e = EINTR then copy_file_contents fs src_fd dst_fd else fail e)
     | Inr buffer \<Rightarrow>
         (if buffer = [] then succeed ()
          else chain (write_all fs dst_fd buffer) (\<lambda>_. copy_file_contents fs src_fd dst_fd))) k"

definition copy_regular_file :: "'k file_sys \<Rightarrow> string \<Rightarrow> string \<Rightarrow> ('k, unit) prog" where
  "copy_regular_file fs src dst =
     chain (call (sys_stat fs src)) (\<lambda>st.
     chain (call (sys_open fs src O_RDONLY)) (\<lambda>src_fd.
     attempt (call (sys_open fs dst (O_WRONLY_CREAT_TRUNC (st_mode st mod 512)))) (\<lambda>d. case d of
       Inl e \<Rightarrow> andthen (fail e) (call (sys_close fs src_fd))
     | Inr dst_fd \<Rightarrow>
         attempt (copy_file_contents fs src_fd dst_fd) (\<lambda>c. case c of
           Inl e \<Rightarrow> andthen (andthen (fail e) (call (sys_close fs src_fd))) (call (sys_close fs dst_fd))
         | Inr _ \<Rightarrow>
             attempt (call (sys_close fs src_fd)) (\<lambda>s. case s of
               Inl e \<Rightarrow> andthen (fail e) (call (sys_close fs dst_fd))
             | Inr _ \<Rightarrow> call (sys_close fs dst_fd))))))"

definition copy_symlink :: "'k file_sys \<Rightarrow> string \<Rightarrow> string \<Rightarrow> ('k, unit) prog" where
  "copy_symlink fs src dst =
     chain (call (sys_readlink fs src (PATH_MAX - 1))) (\<lambda>target.
     attempt (call (sys_unlink fs dst)) (\<lambda>u.
       if (case u of Inl e \<Rightarrow> e \<noteq> ENOENT | Inr _ \<Rightarrow> False) then fail (case u of Inl e \<Rightarrow> e | Inr _ \<Rightarrow> 0)
       else call (sys_symlink fs target dst)))"

partial_function (option) copy_path_into_rootfs :: "'k file_sys \<Rightarrow> string \<Rightarrow> string \<Rightarrow> ('k, unit) prog" where
  "copy_path_into_rootfs fs rootfs host_path k =
     (if host_path = [] \<or> hd host_path \<noteq> CHR ''/'' then fail EINVAL
      else
        chain (of_result (path_fits PATH_MAX (rootfs @ host_path))) (\<lambda>destination.
        chain (of_result (path_dirname (Some destination) PATH_MAX)) (\<lambda>destination_dir.
        chain (mkdir_p fs (Some destination_dir) mode_0755) (\<lambda>_.
        chain (call (sys_lstat fs host_path)) (\<lambda>st.
          (if st_kind st = S_LNK then
             chain (call (sys_readlink fs host_path (PATH_MAX - 1))) (\<lambda>link_target.
             chain (copy_symlink fs host_path destination) (\<lambda>_.
             chain (of_result (resolve_symlink_target host_path link_target PATH_MAX)) (\<lambda>resolved_target.
               copy_path_into_rootfs fs rootfs resolved_target)))
           else if st_kind st \<noteq> S_REG then fail EINVAL
           else copy_regular_file fs host_path destination)))))) k"

definition copy_host_binary_to_container_path :: "'k file_sys \<Rightarrow> string \<Rightarrow> string \<Rightarrow> string \<Rightarrow> ('k, unit) prog" where
  "copy_host_binary_to_container_path fs rootfs host_binary cpath =
     (if cpath = [] \<or> hd cpath \<noteq> CHR ''/'' then fail EINVAL
      else
        chain (call (sys_lstat fs host_binary)) (\<lambda>st.
        if st_kind st \<noteq> S_REG then fail EINVAL
        else
          chain (of_result (path_fits PATH_MAX (rootfs @ cpath))) (\<lambda>destination.
          chain (of_result (path_dirname (Some destination) PATH_MAX)) (\<lambda>destination_dir.
          chain (mkdir_p fs (Some destination_dir) mode_0755) (\<lambda>_.
            copy_regular_file fs host_binary destination)))))"

section \<open>Shared libraries\<close>

definition parse_ldd_dependency :: "string \<Rightarrow> nat \<Rightarrow> string result" where
  "parse_ldd_dependency line path_size =
     (if path_size = 0 then Inl EINVAL
      else if strstr line ''=> not found'' \<noteq> None then Inl ENOENT
      else
        let start = (case strstr line ''=> '' of
              Some s \<Rightarrow> dropWhile (\<lambda>c. c = CHR '' '') (drop 3 s)
            | None \<Rightarrow> dropWhile (\<lambda>c. c = CHR '' '' \<or> c = CHR 0x09) line) in
        if start = [] \<or> hd start \<noteq> CHR ''/'' then Inl EINVAL
        else
          let path = takeWhile (\<lambda>c. c \<noteq> CHR '' '' \<and> c \<noteq> CHR 0x09 \<and> c \<noteq> CHR 0x0A) start in
          if path = [] \<or> length path \<ge> path_size then Inl ENAMETOOLONG else Inr path)"

partial_function (option) dependency_loop :: "'k file_sys \<Rightarrow> string \<Rightarrow> int \<Rightarrow> ('k, unit) prog" where
  "dependency_loop fs rootfs pipe k =
     chain (query (sys_fgets fs pipe (PATH_MAX * 2))) (\<lambda>l. case l of
       None \<Rightarrow> attempt (call (sys_pclose fs pipe)) (\<lambda>r. of_result r)
     | Some line \<Rightarrow> (case parse_ldd_dependency line PATH_MAX of
         Inl e \<Rightarrow> (if e = EINVAL then dependency_loop fs rootfs pipe
                  else andthen (fail e) (call (sys_pclose fs pipe)))
       | Inr dependency \<Rightarrow>
           attempt (copy_path_into_rootfs fs rootfs dependency) (\<lambda>c. case c of
             Inl e \<Rightarrow> andthen (fail e) (call (sys_pclose fs pipe))
           | Inr _ \<Rightarrow> dependency_loop fs rootfs pipe))) k"

definition copy_binary_dependencies :: "'k file_sys \<Rightarrow> string \<Rightarrow> string \<Rightarrow> ('k, unit) prog" where
  "copy_binary_dependencies fs rootfs binary_path =
     chain (of_result (path_fits (PATH_MAX + 16) (''ldd '' @ binary_path))) (\<lambda>command.
     chain (call (sys_popen fs command)) (\<lambda>pipe.
       dependency_loop fs rootfs pipe))"

definition bootstrap_rootfs_tools :: "'k file_sys \<Rightarrow> string \<Rightarrow> ('k, unit) prog" where
  "bootstrap_rootfs_tools fs rootfs = each (\<lambda>binary.
     chain (copy_path_into_rootfs fs rootfs binary) (\<lambda>_.
       copy_binary_dependencies fs rootfs binary)) bootstrap_binaries"

definition bootstrap_rootfs_workloads :: "'k file_sys \<Rightarrow> string \<Rightarrow> ('k, unit) prog" where
  "bootstrap_rootfs_workloads fs rootfs = each (\<lambda>w.
     attempt (call (sys_realpath fs (host_relative w))) (\<lambda>r. case r of
       Inl e \<Rightarrow> if e = ENOENT then succeed () else fail e
     | Inr host_abs \<Rightarrow>
         chain (copy_host_binary_to_container_path fs rootfs host_abs (container_path w)) (\<lambda>_.
           copy_binary_dependencies fs rootfs host_abs))) bootstrap_workloads"

section \<open>Preparing and entering the root\<close>

definition filesystem_prepare_rootfs :: "'k file_sys \<Rightarrow> string option \<Rightarrow> nat \<Rightarrow> ('k, string) prog" where
  "filesystem_prepare_rootfs fs requested_rootfs resolved_rootfs_size = (case requested_rootfs of
     None \<Rightarrow> fail EINVAL
   | Some requested \<Rightarrow>
       if requested = [] \<or> resolved_rootfs_size = 0 then fail EINVAL
       else
         chain (mkdir_p fs (Some requested) mode_0755) (\<lambda>_.
         chain (call (sys_realpath fs requested)) (\<lambda>absolute_rootfs.
         chain (create_layout fs absolute_rootfs) (\<lambda>_.
         chain (bootstrap_rootfs_tools fs absolute_rootfs) (\<lambda>_.
         chain (bootstrap_rootfs_workloads fs absolute_rootfs) (\<lambda>_.
           of_result (path_fits resolved_rootfs_size absolute_rootfs)))))))"

definition enter_root_with_pivot_root :: "'k file_sys \<Rightarrow> string \<Rightarrow> ('k, unit) prog" where
  "enter_root_with_pivot_root fs rootfs =
     chain (call (sys_mount fs (Some rootfs) rootfs None [MS_BIND, MS_REC])) (\<lambda>_.
     chain (of_result (path_join PATH_MAX rootfs OLD_ROOT_DIR)) (\<lambda>old_root_path.
     chain (mkdir_p fs (Some old_root_path) mode_0755) (\<lambda>_.
     chain (call (sys_chdir fs rootfs)) (\<lambda>_.
     chain (call (sys_pivot_root fs ''.'' OLD_ROOT_DIR)) (\<lambda>_.
     chain (call (sys_chdir fs ''/'')) (\<lambda>_.
     chain (call (sys_umount_detach fs (''/'' @ OLD_ROOT_DIR))) (\<lambda>_.
       call (sys_rmdir fs (''/'' @ OLD_ROOT_DIR)))))))))"

definition enter_root_with_chroot :: "'k file_sys \<Rightarrow> string \<Rightarrow> ('k, unit) prog" where
  "enter_root_with_chroot fs rootfs =
     chain (call (sys_chdir fs rootfs)) (\<lambda>_.
     chain (call (sys_chroot fs ''.'')) (\<lambda>_.
       call (sys_chdir fs ''/'')))"

definition unless :: "errno set \<Rightarrow> ('k, unit) prog \<Rightarrow> ('k, unit) prog \<Rightarrow> ('k, unit) prog" where
  "unless tolerated m other = attempt m (\<lambda>r. case r of
     Inr _ \<Rightarrow> succeed () | Inl e \<Rightarrow> if e \<in> tolerated then other else fail e)"

definition filesystem_isolate_rootfs :: "'k file_sys \<Rightarrow> FilesystemConfig option \<Rightarrow> ('k, unit) prog" where
  "filesystem_isolate_rootfs fs config = (case Option.bind config config_rootfs of
     None \<Rightarrow> fail EINVAL
   | Some rootfs \<Rightarrow>
       if rootfs = [] then fail EINVAL
       else
         chain (unless {EPERM} (call (sys_mount fs None ''/'' None [MS_REC, MS_PRIVATE])) (succeed ())) (\<lambda>_.
         chain (unless {EPERM, EINVAL} (enter_root_with_pivot_root fs rootfs) (enter_root_with_chroot fs rootfs)) (\<lambda>_.
           unless {EPERM} (call (sys_mount fs (Some ''proc'') ''/proc'' (Some ''proc'') [MS_NOSUID, MS_NOEXEC, MS_NODEV]))
             (succeed ()))))"

definition filesystem_profile :: string where
  "filesystem_profile = FILESYSTEM_PROFILE"

definition filesystem_format_error :: "(errno \<Rightarrow> string) \<Rightarrow> errno \<Rightarrow> nat \<Rightarrow> string" where
  "filesystem_format_error strerror err buffer_size = snprintf buffer_size
     (if err = ENOENT then ''rootfs path is missing or incomplete''
      else if err = ENOTDIR then ''rootfs path exists but is not a directory''
      else if err = ENAMETOOLONG then ''rootfs path is too long for the current runtime limits''
      else if err = ENOEXEC then ''rootfs bootstrap could not prepare runnable container tools''
      else if err = EBUSY then ''pivot_root could not detach the old root cleanly''
      else if err = EPERM then ''filesystem isolation needs privileges the current host denied''
      else if err = EINVAL then ''filesystem isolation received an invalid rootfs configuration''
      else strerror err)"

end
