(* ===== verification/Network.thy ===== *)
theory Network
  imports Prog
begin

unbundle bit_operations_syntax

text \<open>
  Bringing up the loopback interface: \<^verbatim>\<open>src/network.c\<close>. The interface flags are the 16 bits of
  \<^verbatim>\<open>ifr_flags\<close>. Every exit after the socket is open closes it and keeps the error number.
\<close>

abbreviation (input) IFF_UP :: "16 word" where "IFF_UP \<equiv> 1"
abbreviation (input) IFF_RUNNING :: "16 word" where "IFF_RUNNING \<equiv> 64"
abbreviation (input) IFNAMSIZ :: nat where "IFNAMSIZ \<equiv> 16"

definition NETWORK_PROFILE :: string where
  "NETWORK_PROFILE = ''loopback up (netns)''"

definition closing :: "'k net_sys \<Rightarrow> int \<Rightarrow> ('k, unit) prog" where
  "closing N fd = query (sys_sockclose N fd)"

definition network_setup_loopback :: "'k net_sys \<Rightarrow> ('k, unit) prog" where
  "network_setup_loopback N =
     chain (call (sys_socket N)) (\<lambda>fd.
       let ifr_name = snprintf IFNAMSIZ ''lo'' in
       attempt (call (sys_getifflags N fd ifr_name)) (\<lambda>g. case g of
         Inl e \<Rightarrow> andthen (fail e) (closing N fd)
       | Inr ifr_flags \<Rightarrow>
           attempt (call (sys_setifflags N fd ifr_name (ifr_flags OR IFF_UP OR IFF_RUNNING))) (\<lambda>s. case s of
             Inl e \<Rightarrow> andthen (fail e) (closing N fd)
           | Inr _ \<Rightarrow> andthen (succeed ()) (closing N fd))))"

definition network_profile :: string where
  "network_profile = NETWORK_PROFILE"

section \<open>What the kernel documents\<close>

text \<open>
  \<open>socks k\<close>: the open sockets; \<open>flags k\<close>: the flags of each interface. A socket is new when
  it is opened and gone when it is closed; the two ioctls read and write the flags.
\<close>

definition net_contract :: "'k net_sys \<Rightarrow> ('k \<Rightarrow> int set) \<Rightarrow> ('k \<Rightarrow> string \<Rightarrow> 16 word) \<Rightarrow> bool" where
  "net_contract N socks flags \<longleftrightarrow>
     (\<forall>k r k'. run_state (sys_socket N) k = (r, k') \<longrightarrow> flags k' = flags k \<and>
        (case r of Inl e \<Rightarrow> socks k' = socks k | Inr fd \<Rightarrow> fd \<notin> socks k \<and> socks k' = insert fd (socks k))) \<and>
     (\<forall>k fd n r k'. run_state (sys_getifflags N fd n) k = (r, k') \<longrightarrow>
        socks k' = socks k \<and> flags k' = flags k \<and> (\<forall>f. r = Inr f \<longrightarrow> f = flags k n)) \<and>
     (\<forall>k fd n f r k'. run_state (sys_setifflags N fd n f) k = (r, k') \<longrightarrow> socks k' = socks k \<and>
        flags k' = (case r of Inl e \<Rightarrow> flags k | Inr _ \<Rightarrow> (flags k)(n := f))) \<and>
     (\<forall>k fd x k'. run_state (sys_sockclose N fd) k = (x, k') \<longrightarrow> socks k' = socks k - {fd} \<and> flags k' = flags k)"

lemmas net_contractD =
  net_contract_def [THEN iffD1, THEN conjunct1, rule_format]
  net_contract_def [THEN iffD1, THEN conjunct2, THEN conjunct1, rule_format]
  net_contract_def [THEN iffD1, THEN conjunct2, THEN conjunct2, THEN conjunct1, rule_format]
  net_contract_def [THEN iffD1, THEN conjunct2, THEN conjunct2, THEN conjunct2, rule_format]

section \<open>Properties\<close>

lemma loopback_effect:
  assumes N: "net_contract N socks flags"
  shows "\<exists>r k'. network_setup_loopback N k = Some (r, k') \<and> socks k' = socks k \<and>
    flags k' = (case r of Inl e \<Rightarrow> flags k
                | Inr _ \<Rightarrow> (flags k)(''lo'' := flags k ''lo'' OR IFF_UP OR IFF_RUNNING))"
proof -
  obtain r1 k1 where 1: "run_state (sys_socket N) k = (r1, k1)" by fastforce
  note one = net_contractD(1) [OF N 1]
  show ?thesis
  proof (cases r1)
    case (Inl e)
    with 1 one show ?thesis by (simp add: network_setup_loopback_def chain_Inl)
  next
    case (Inr fd)
    obtain r2 k2 where 2: "run_state (sys_getifflags N fd ''lo'') k1 = (r2, k2)" by fastforce
    obtain x3 k3 where 3: "run_state (sys_sockclose N fd) k2 = (x3, k3)" by (rule prod.exhaust)
    let ?f = "flags k ''lo'' OR IFF_UP OR IFF_RUNNING"
    obtain r4 k4 where 4: "run_state (sys_setifflags N fd ''lo'' ?f) k2 = (r4, k4)" by fastforce
    obtain x5 k5 where 5: "run_state (sys_sockclose N fd) k4 = (x5, k5)" by (rule prod.exhaust)
    have lo: "snprintf 16 ''lo'' = ''lo''" by (simp add: snprintf_def)
    have socks: "socks k1 = insert fd (socks k)" "fd \<notin> socks k" "flags k1 = flags k"
      using one Inr by simp_all
    note two = net_contractD(2) [OF N 2] and three = net_contractD(4) [OF N 3]
      and four = net_contractD(3) [OF N 4] and five = net_contractD(4) [OF N 5]
    show ?thesis
    proof (cases r2)
      case (Inl e)
      then show ?thesis using 1 2 3 Inr socks two three lo
        by (simp add: network_setup_loopback_def prog_defs closing_def Let_def)
    next
      case (Inr f)
      then show ?thesis using 1 2 4 5 \<open>r1 = Inr fd\<close> socks two four five lo
        by (cases r4) (simp_all add: network_setup_loopback_def prog_defs closing_def Let_def)
    qed
  qed
qed

text \<open>
  (C30) Setting up the loopback interface always returns, leaves no socket open on any path,
  and either fails without changing a flag or turns on exactly the bits UP and RUNNING of
  \<^verbatim>\<open>lo\<close>.
\<close>

theorem loopback_up_no_leak:
  assumes N: "net_contract N socks flags"
  shows "\<exists>r k'. network_setup_loopback N k = Some (r, k') \<and> socks k' = socks k \<and>
    flags k' = (case r of Inl e \<Rightarrow> flags k
                | Inr _ \<Rightarrow> (flags k)(''lo'' := flags k ''lo'' OR IFF_UP OR IFF_RUNNING))"
  using assms by (rule loopback_effect)

text \<open>A kernel with one socket and one interface, as a witness that the contract can hold.\<close>

definition small_net :: "(int set \<times> (string \<Rightarrow> 16 word)) net_sys" where
  "small_net = \<lparr>sys_socket = State (\<lambda>(s, f). if 3 \<in> s then (Inl EAGAIN, (s, f)) else (Inr 3, (insert 3 s, f))),
     sys_getifflags = (\<lambda>fd n. State (\<lambda>(s, f). (Inr (f n), (s, f)))),
     sys_setifflags = (\<lambda>fd n v. State (\<lambda>(s, f). (Inr (), (s, f(n := v))))),
     sys_sockclose = (\<lambda>fd. State (\<lambda>(s, f). ((), (s - {fd}, f))))\<rparr>"

theorem loopback_up_no_leak_witness:
  "\<exists>r k'. network_setup_loopback small_net ({}, (\<lambda>_. 0)) = Some (r, k') \<and> fst k' = {} \<and>
    snd k' = (case r of Inl e \<Rightarrow> (\<lambda>_. 0) | Inr _ \<Rightarrow> (\<lambda>_. 0)(''lo'' := 0 OR IFF_UP OR IFF_RUNNING))"
proof -
  have "net_contract small_net fst snd"
    by (auto simp: net_contract_def small_net_def split: if_splits)
  from loopback_up_no_leak [OF this, of "({}, (\<lambda>_. 0))"] show ?thesis unfolding fst_conv snd_conv .
qed

end
