(* ===== verification/Namespace.thy ===== *)
theory Namespace
  imports Filesystem Network Resource
begin

text \<open>
  Starting a container: \<^verbatim>\<open>src/namespace.c\<close>. The parent clones a child into new namespaces, writes
  its user and group maps, lets it go through the continue pipe, and learns through the status
  pipe and the exec pipe whether set-up and \<^verbatim>\<open>exec\<close> worked. The child sets its identity, host
  name, root, network, limits and process group, reports on the status pipe and executes the
  command. The records that cross the status pipe are modelled by their bytes. \<^verbatim>\<open>clone\<close> is an
  operation of the kernel that is given the flags and the arguments of the child.
\<close>

section \<open>Types\<close>

record NamespaceStatus =
  ready :: int
  error_number :: int
  namespace_pid :: pid

record NamespaceChildArgs =
  child_hostname :: "string option"
  child_rootfs :: "string option"
  child_command_line :: "string option"
  child_resource_limits :: ResourceConfig
  status_fd :: int
  continue_fd :: int
  exec_fd :: int

record NamespaceConfig =
  ns_hostname :: "string option"
  ns_rootfs :: "string option"
  ns_command_line :: "string option"
  ns_resource_limits :: ResourceConfig

record NamespaceStartResult =
  host_pid :: pid
  result_namespace_pid :: pid

definition NAMESPACE_PROFILE :: string where
  "NAMESPACE_PROFILE = ''PID | UTS | MOUNT | NET''"

type_synonym 'k clone_op = "clone_flag list \<Rightarrow> NamespaceChildArgs \<Rightarrow> ('k, pid result) state"

section \<open>Bytes of the records on the pipes\<close>

text \<open>A 32-bit \<^verbatim>\<open>int\<close> in memory, least significant byte first.\<close>

definition le32 :: "int \<Rightarrow> string" where
  "le32 i = (let n = nat (i mod 4294967296) in
     [char_of (n mod 256), char_of (n div 256 mod 256), char_of (n div 65536 mod 256), char_of (n div 16777216 mod 256)])"

definition of_le32 :: "string \<Rightarrow> int" where
  "of_le32 s = cast_int (int (of_char (s ! 0) + 256 * of_char (s ! 1) + 65536 * of_char (s ! 2)
     + 16777216 * of_char (s ! 3)))"

definition encode_status :: "NamespaceStatus \<Rightarrow> string" where
  "encode_status st = le32 (ready st) @ le32 (error_number st) @ le32 (namespace_pid st)"

definition decode_status :: "string \<Rightarrow> NamespaceStatus" where
  "decode_status b = \<lparr>ready = of_le32 (take 4 b), error_number = of_le32 (take 4 (drop 4 b)),
     namespace_pid = of_le32 (take 4 (drop 8 b))\<rparr>"

definition blank_status :: NamespaceStatus where
  "blank_status = \<lparr>ready = 0, error_number = 0, namespace_pid = -1\<rparr>"

section \<open>The command line\<close>

definition build_exec_argv :: "string option \<Rightarrow> nat \<Rightarrow> nat \<Rightarrow> string list result" where
  "build_exec_argv command_line buffer_size max_args = (case command_line of
     None \<Rightarrow> Inl EINVAL
   | Some c \<Rightarrow>
       if c = [] \<or> buffer_size = 0 \<or> max_args < 2 then Inl EINVAL
       else if length c \<ge> buffer_size then Inl ENAMETOOLONG
       else let argv = strtok {CHR '' ''} c in
         if length argv > max_args - 1 then Inl E2BIG
         else if argv = [] then Inl EINVAL
         else Inr argv)"

section \<open>User and group maps\<close>

definition write_text_file :: "'k file_sys \<Rightarrow> string \<Rightarrow> string \<Rightarrow> ('k, unit) prog" where
  "write_text_file fs path content =
     chain (call (sys_fopen_w fs path)) (\<lambda>file.
     attempt (call (sys_fputs fs file content)) (\<lambda>r. case r of
       Inl e \<Rightarrow> andthen (fail e) (call (sys_fclose fs file))
     | Inr _ \<Rightarrow> call (sys_fclose fs file)))"

definition proc_path :: "pid \<Rightarrow> string \<Rightarrow> string" where
  "proc_path p leaf = snprintf 128 (''/proc/'' @ show_int p @ ''/'' @ leaf)"

definition id_map :: "int \<Rightarrow> string" where
  "id_map i = snprintf 128 (''0 '' @ show_int i @ '' 1'' @ [CHR 0x0A])"

definition configure_user_namespace :: "'k file_sys \<Rightarrow> 'k proc_sys \<Rightarrow> pid \<Rightarrow> ('k, unit) prog" where
  "configure_user_namespace fs ps p =
     chain (unless {ENOENT} (write_text_file fs (proc_path p ''setgroups'') (''deny'' @ [CHR 0x0A])) (succeed ())) (\<lambda>_.
     chain (query (sys_geteuid ps)) (\<lambda>euid.
     chain (write_text_file fs (proc_path p ''uid_map'') (id_map euid)) (\<lambda>_.
     chain (query (sys_getegid ps)) (\<lambda>egid.
       write_text_file fs (proc_path p ''gid_map'') (id_map egid)))))"

section \<open>The child\<close>

text \<open>
  A token other than 1 is an error that leaves \<^verbatim>\<open>errno\<close> as it was (\<open>stale\<close>).
\<close>

partial_function (option) wait_for_parent_ready :: "'k file_sys \<Rightarrow> errno \<Rightarrow> int \<Rightarrow> ('k, unit) prog" where
  "wait_for_parent_ready fs stale fd k =
     attempt (call (sys_read fs fd 1)) (\<lambda>r. case r of
       Inr bytes \<Rightarrow>
         (if bytes \<noteq> [] then
            andthen (if hd bytes = CHR ''1'' then succeed () else fail stale) (call (sys_close fs fd))
          else andthen (fail EPROTO) (call (sys_close fs fd)))
     | Inl e \<Rightarrow>
         (if e \<noteq> EINTR then andthen (fail e) (call (sys_close fs fd))
          else wait_for_parent_ready fs stale fd)) k"

text \<open>How the child ends: by returning an exit code or by becoming the command.\<close>

datatype child_end = Exited int | Executed "string list"

definition send_status :: "'k file_sys \<Rightarrow> int \<Rightarrow> NamespaceStatus \<Rightarrow> ('k, unit) prog" where
  "send_status fs fd st =
     attempt (call (sys_write fs fd (encode_status st))) (\<lambda>_.
     attempt (call (sys_close fs fd)) (\<lambda>_. succeed ()))"

definition report_error :: "'k file_sys \<Rightarrow> NamespaceChildArgs \<Rightarrow> errno \<Rightarrow> ('k, child_end) prog" where
  "report_error fs a e = chain (send_status fs (status_fd a) (blank_status\<lparr>error_number := e\<rparr>)) (\<lambda>_. succeed (Exited 1))"

definition child_setup ::
    "'k file_sys \<Rightarrow> 'k proc_sys \<Rightarrow> 'k net_sys \<Rightarrow> 'k rlimit_sys \<Rightarrow> errno \<Rightarrow> NamespaceChildArgs
     \<Rightarrow> ('k, string list) prog" where
  "child_setup fs ps N K stale a =
     chain (wait_for_parent_ready fs stale (continue_fd a)) (\<lambda>_.
     chain (call (sys_setgid ps 0)) (\<lambda>_.
     chain (call (sys_setuid ps 0)) (\<lambda>_.
     chain (case child_hostname a of
              None \<Rightarrow> succeed ()
            | Some h \<Rightarrow> if h = [] then succeed () else call (sys_sethostname ps h)) (\<lambda>_.
     chain (filesystem_isolate_rootfs fs (Some \<lparr>config_rootfs = child_rootfs a\<rparr>)) (\<lambda>_.
     chain (unless {EINVAL} (call (sys_mount fs None ''/proc'' None [MS_REMOUNT, MS_NOSUID, MS_NOEXEC, MS_NODEV]))
              (succeed ())) (\<lambda>_.
     chain (unless {EPERM} (network_setup_loopback N) (succeed ())) (\<lambda>_.
     chain (of_result (build_exec_argv (child_command_line a) 256 32)) (\<lambda>argv.
     chain (attempt (call (resource_apply_limits K (Some (child_resource_limits a)))) (\<lambda>r. case r of
              Inl e \<Rightarrow> fail (RESOURCE_ERROR_BASE + e) | Inr _ \<Rightarrow> succeed ())) (\<lambda>_.
     chain (call (sys_setpgid ps 0 0)) (\<lambda>_.
       succeed argv))))))))))"

definition namespace_child ::
    "'k file_sys \<Rightarrow> 'k proc_sys \<Rightarrow> 'k net_sys \<Rightarrow> 'k rlimit_sys \<Rightarrow> errno \<Rightarrow> NamespaceChildArgs
     \<Rightarrow> ('k, child_end) prog" where
  "namespace_child fs ps N K stale a =
     attempt (child_setup fs ps N K stale a) (\<lambda>r. case r of
       Inl e \<Rightarrow> report_error fs a e
     | Inr argv \<Rightarrow>
         chain (query (sys_getpid ps)) (\<lambda>p.
         chain (send_status fs (status_fd a) \<lparr>ready = 1, error_number = 0, namespace_pid = p\<rparr>) (\<lambda>_.
         chain (query (sys_execvp ps (hd argv) argv)) (\<lambda>x. case x of
           None \<Rightarrow> succeed (Executed argv)
         | Some exec_errno \<Rightarrow>
             attempt (call (sys_write fs (exec_fd a) (le32 exec_errno))) (\<lambda>_.
             attempt (call (sys_close fs (exec_fd a))) (\<lambda>_.
               succeed (Exited 127)))))))"

section \<open>The parent\<close>

text \<open>
  Whether the whole record arrived, and the bytes that did; an error other than an interrupt
  stops reading like the end of the file.
\<close>

partial_function (option) read_status :: "'k file_sys \<Rightarrow> int \<Rightarrow> string \<Rightarrow> ('k, bool \<times> string) prog" where
  "read_status fs fd buffer k =
     (if length buffer \<ge> 12 then succeed (length buffer = 12, buffer)
      else attempt (call (sys_read fs fd (12 - length buffer))) (\<lambda>r. case r of
        Inr bytes \<Rightarrow>
          (if bytes = [] then succeed (length buffer = 12, buffer)
           else read_status fs fd (buffer @ bytes))
      | Inl e \<Rightarrow> (if e = EINTR then read_status fs fd buffer else succeed (False, buffer)))) k"

partial_function (option) read_exec_status :: "'k file_sys \<Rightarrow> int \<Rightarrow> ('k, unit) prog" where
  "read_exec_status fs fd k =
     attempt (call (sys_read fs fd 4)) (\<lambda>r. case r of
       Inr bytes \<Rightarrow>
         andthen (if bytes = [] then succeed ()
                  else if length bytes = 4 then fail (of_le32 bytes) else fail EPROTO) (call (sys_close fs fd))
     | Inl e \<Rightarrow>
         (if e = EINTR then read_exec_status fs fd
          else andthen (fail e) (call (sys_close fs fd)))) k"

fun close_all :: "'k file_sys \<Rightarrow> int list \<Rightarrow> ('k, unit) prog" where
  "close_all fs [] = succeed ()"
| "close_all fs (fd # fds) = attempt (call (sys_close fs fd)) (\<lambda>_. close_all fs fds)"

declare close_all.simps [simp del]

definition reap :: "'k proc_sys \<Rightarrow> pid \<Rightarrow> ('k, unit) prog" where
  "reap ps p = attempt (call (sys_waitpid ps p False)) (\<lambda>_. succeed ())"

definition kill_and_reap :: "'k proc_sys \<Rightarrow> pid \<Rightarrow> ('k, unit) prog" where
  "kill_and_reap ps p = attempt (call (sys_kill ps p SIGKILL)) (\<lambda>_. reap ps p)"

definition clone_flags :: "clone_flag list" where
  "clone_flags = [CLONE_NEWUSER, CLONE_NEWPID, CLONE_NEWUTS, CLONE_NEWNS, CLONE_NEWNET, CLONE_SIGCHLD]"

text \<open>
  What the parent does once the child runs, in three stages; \<open>s0\<close>, \<open>x0\<close> and \<open>c1\<close> are its ends of
  the status, exec and continue pipes. A write of no byte leaves \<^verbatim>\<open>errno\<close> alone; it is 0 here.
\<close>

definition await_exec :: "'k file_sys \<Rightarrow> 'k proc_sys \<Rightarrow> pid \<Rightarrow> int \<Rightarrow> pid \<Rightarrow> ('k, NamespaceStartResult) prog" where
  "await_exec fs ps p x0 npid =
     attempt (read_exec_status fs x0) (\<lambda>x. case x of
       Inl e \<Rightarrow> andthen (fail e) (kill_and_reap ps p)
     | Inr _ \<Rightarrow> succeed \<lparr>host_pid = p, result_namespace_pid = npid\<rparr>)"

definition await_status :: "'k file_sys \<Rightarrow> 'k proc_sys \<Rightarrow> pid \<Rightarrow> int \<Rightarrow> int \<Rightarrow> ('k, NamespaceStartResult) prog" where
  "await_status fs ps p s0 x0 =
     chain (read_status fs s0 []) (\<lambda>(whole, bytes).
       let status = decode_status (bytes @ drop (length bytes) (encode_status blank_status)) in
       if \<not> whole \<or> ready status = 0 then
         andthen (andthen (fail (if error_number status \<noteq> 0 then error_number status else EPROTO))
           (close_all fs [s0, x0])) (reap ps p)
       else
         chain (close_all fs [s0]) (\<lambda>_. await_exec fs ps p x0 (namespace_pid status)))"

definition await_child :: "'k file_sys \<Rightarrow> 'k proc_sys \<Rightarrow> pid \<Rightarrow> int \<Rightarrow> int \<Rightarrow> int \<Rightarrow> ('k, NamespaceStartResult) prog" where
  "await_child fs ps p s0 x0 c1 =
     attempt (configure_user_namespace fs ps p) (\<lambda>u. case u of
       Inl e \<Rightarrow> andthen (andthen (fail e) (close_all fs [c1, s0, x0])) (kill_and_reap ps p)
     | Inr _ \<Rightarrow>
         attempt (call (sys_write fs c1 ''1'')) (\<lambda>w.
           if w \<noteq> Inr 1 then
             andthen (andthen (fail (case w of Inl e \<Rightarrow> e | Inr _ \<Rightarrow> 0)) (close_all fs [c1, s0, x0])) (kill_and_reap ps p)
           else
             chain (close_all fs [c1]) (\<lambda>_. await_status fs ps p s0 x0)))"

definition namespace_start_container ::
    "'k file_sys \<Rightarrow> 'k proc_sys \<Rightarrow> 'k clone_op \<Rightarrow> NamespaceConfig option \<Rightarrow> bool \<Rightarrow> nat
     \<Rightarrow> ('k, NamespaceStartResult) prog" where
  "namespace_start_container fs ps clone config stack_given stack_size = (case config of
     None \<Rightarrow> fail EINVAL
   | Some c \<Rightarrow>
     if ns_command_line c = None \<or> ns_command_line c = Some [] \<or> \<not> stack_given \<or> stack_size = 0 then fail EINVAL
     else
     chain (call (sys_pipe ps)) (\<lambda>(s0, s1).
     attempt (call (sys_pipe ps)) (\<lambda>x. case x of
       Inl e \<Rightarrow> andthen (fail e) (close_all fs [s0, s1])
     | Inr (x0, x1) \<Rightarrow>
     attempt (call (sys_set_cloexec ps x1)) (\<lambda>f. case f of
       Inl e \<Rightarrow> andthen (fail e) (close_all fs [s0, s1, x0, x1])
     | Inr _ \<Rightarrow>
     attempt (call (sys_pipe ps)) (\<lambda>cp. case cp of
       Inl e \<Rightarrow> andthen (fail e) (close_all fs [s0, s1, x0, x1])
     | Inr (c0, c1) \<Rightarrow>
     attempt (call (clone clone_flags
         \<lparr>child_hostname = ns_hostname c, child_rootfs = ns_rootfs c, child_command_line = ns_command_line c,
          child_resource_limits = ns_resource_limits c, status_fd = s1, continue_fd = c0, exec_fd = x1\<rparr>)) (\<lambda>p. case p of
       Inl e \<Rightarrow> andthen (fail e) (close_all fs [s0, s1, x0, x1, c0, c1])
     | Inr pid \<Rightarrow>
     chain (close_all fs [x1, s1, c0]) (\<lambda>_. await_child fs ps pid s0 x0 c1)))))))"

definition namespace_profile :: string where
  "namespace_profile = NAMESPACE_PROFILE"

definition namespace_format_start_error :: "(errno \<Rightarrow> string) \<Rightarrow> errno \<Rightarrow> nat \<Rightarrow> string" where
  "namespace_format_start_error strerror err buffer_size =
     (if err = RESOURCE_ERROR_BASE + EPERM then resource_format_error strerror EPERM buffer_size
      else if err = RESOURCE_ERROR_BASE + EINVAL then resource_format_error strerror EINVAL buffer_size
      else if err = EPERM then snprintf buffer_size
        ''permission denied while creating namespaces; try sudo or enable unprivileged namespaces''
      else if err = EINVAL then snprintf buffer_size ''kernel rejected the requested namespace flags on this host''
      else if err = ENOSPC then snprintf buffer_size ''namespace limit reached on this host''
      else if err = EPROTO then snprintf buffer_size ''namespace child exited before finishing setup''
      else if err = E2BIG then snprintf buffer_size ''container command has too many arguments for the current runtime''
      else if err = ENOENT then snprintf buffer_size ''container command was not found inside the isolated rootfs''
      else if err = ENOTDIR \<or> err = ENAMETOOLONG \<or> err = EBUSY then filesystem_format_error strerror err buffer_size
      else snprintf buffer_size (strerror err))"

end
