(* ===== verification/Monitor.thy ===== *)
theory Monitor
  imports Complex_Main CString
begin

text \<open>
  Reading a process's statistics: \<^verbatim>\<open>src/monitor.c\<close>. \<open>read_file\<close> stands for opening and reading a
  file under \<^verbatim>\<open>/proc\<close>: its text, or the error number. A buffer is its text, the terminating NUL
  and the bytes that happen to follow (\<open>beyond\<close>), because the parser steps over characters
  without checking that they are there. The type \<^verbatim>\<open>double\<close> is modelled by exact rationals.
\<close>

section \<open>Types\<close>

record MonitorStats =
  stats_pid :: pid
  stats_state :: char
  utime_ticks :: u64
  stime_ticks :: u64
  vsize_bytes :: u64
  rss_pages :: int
  threads :: int
  rss_bytes :: u64
  stats_cpu_seconds :: rat

definition MONITOR_PROFILE :: string where
  "MONITOR_PROFILE = ''/proc: stat + status''"

section \<open>Memory\<close>

abbreviation (input) NUL :: char where "NUL \<equiv> CHR 0x00"

text \<open>The C string at an offset of a buffer.\<close>

definition cstr :: "string \<Rightarrow> nat \<Rightarrow> string" where
  "cstr mem i = takeWhile (\<lambda>c. c \<noteq> NUL) (drop i mem)"

definition read_file_to_buffer :: "(string \<Rightarrow> string result) \<Rightarrow> string \<Rightarrow> nat \<Rightarrow> string result" where
  "read_file_to_buffer read_file path buffer_size = (case read_file path of
     Inl e \<Rightarrow> Inl e | Inr content \<Rightarrow> Inr (take (buffer_size - 1) content))"

section \<open>\<^verbatim>\<open>/proc/<pid>/stat\<close>\<close>

text \<open>The text up to each blank, at most \<open>n\<close> pieces.\<close>

fun tokens_at_blank :: "nat \<Rightarrow> string \<Rightarrow> string list" where
  "tokens_at_blank 0 s = []"
| "tokens_at_blank (Suc n) s = (case strchr s (CHR '' '') of
     None \<Rightarrow> [s]
   | Some rest \<Rightarrow> takeWhile (\<lambda>c. c \<noteq> CHR '' '') s # tokens_at_blank n (tl rest))"

definition parse_proc_stat ::
    "(string \<Rightarrow> string result) \<Rightarrow> string \<Rightarrow> pid \<Rightarrow> MonitorStats \<Rightarrow> MonitorStats result" where
  "parse_proc_stat read_file beyond p out =
     (case read_file_to_buffer read_file (snprintf 128 (''/proc/'' @ show_int p @ ''/stat'')) 4096 of
        Inl e \<Rightarrow> Inl e
      | Inr content \<Rightarrow>
          let mem = content @ [NUL] @ beyond; buffer = cstr mem 0 in
          (case (strchr buffer (CHR ''(''), strrchr buffer (CHR '')'')) of
             (Some left, Some right) \<Rightarrow>
               if length right \<ge> length left then Inl EPROTO
               else
                 let pos = length buffer - length right + 2; rest = cstr mem pos in
                 if rest = [] then Inl EPROTO
                 else
                   let tokens = tokens_at_blank 64 (cstr mem (pos + 2)) in
                   if length tokens < 21 then Inl EPROTO
                   else Inr (out\<lparr>stats_state := hd rest, utime_ticks := strtoul (tokens ! 10),
                     stime_ticks := strtoul (tokens ! 11), threads := strtol (tokens ! 16),
                     vsize_bytes := strtoul (tokens ! 19), rss_pages := strtol (tokens ! 20)\<rparr>)
           | _ \<Rightarrow> Inl EPROTO))"

section \<open>\<^verbatim>\<open>/proc/<pid>/status\<close>\<close>

fun threads_line :: "string list \<Rightarrow> int \<Rightarrow> int" where
  "threads_line [] t = t"
| "threads_line (l # ls) t = threads_line ls (if take 8 l = ''Threads:'' then strtol (drop 8 l) else t)"

definition parse_proc_status ::
    "(string \<Rightarrow> string result) \<Rightarrow> pid \<Rightarrow> MonitorStats \<Rightarrow> MonitorStats result" where
  "parse_proc_status read_file p out =
     (case read_file_to_buffer read_file (snprintf 128 (''/proc/'' @ show_int p @ ''/status'')) 8192 of
        Inl e \<Rightarrow> Inl e
      | Inr content \<Rightarrow>
          let t = threads_line (strtok {CHR 0x0A} (cstr (content @ [NUL]) 0)) (-1) in
          Inr (if t > 0 then out\<lparr>threads := t\<rparr> else out))"

section \<open>Reading and formatting\<close>

definition monitor_read ::
    "(string \<Rightarrow> string result) \<Rightarrow> string \<Rightarrow> int \<Rightarrow> int \<Rightarrow> pid \<Rightarrow> MonitorStats result" where
  "monitor_read read_file beyond page_size hz p =
     (if p \<le> 0 then Inl EINVAL
      else case parse_proc_stat read_file beyond p
          \<lparr>stats_pid = p, stats_state = NUL, utime_ticks = 0, stime_ticks = 0, vsize_bytes = 0, rss_pages = 0,
           threads = -1, rss_bytes = 0, stats_cpu_seconds = 0\<rparr> of
        Inl e \<Rightarrow> Inl e
      | Inr out1 \<Rightarrow>
          let out2 = (case parse_proc_status read_file p out1 of Inl _ \<Rightarrow> out1 | Inr o2 \<Rightarrow> o2);
              out3 = (if page_size > 0 \<and> rss_pages out2 > 0
                then out2\<lparr>rss_bytes := of_int (rss_pages out2) * of_int page_size\<rparr> else out2)
          in Inr (if hz > 0
               then out3\<lparr>stats_cpu_seconds := of_nat (unat (utime_ticks out3 + stime_ticks out3)) / of_int hz\<rparr>
               else out3))"

definition monitor_profile :: string where
  "monitor_profile = MONITOR_PROFILE"

text \<open>The conversion \<^verbatim>\<open>%.<d>f\<close> of a non-negative number: rounded to \<open>d\<close> decimals, ties to even.\<close>

definition round_even :: "rat \<Rightarrow> nat" where
  "round_even x = (let n = nat \<lfloor>x\<rfloor>; r = x - of_nat n in
     if r > 1 / 2 \<or> (r = 1 / 2 \<and> odd n) then n + 1 else n)"

definition show_fixed :: "nat \<Rightarrow> rat \<Rightarrow> string" where
  "show_fixed d x = (let n = round_even (x * 10 ^ d); whole = show_nat (n div 10 ^ d); frac = show_nat (n mod 10 ^ d)
     in whole @ ''.'' @ replicate (d - length frac) (CHR ''0'') @ frac)"

definition megabytes :: "u64 \<Rightarrow> rat" where
  "megabytes b = of_nat (unat b) / (1024 * 1024)"

definition monitor_format :: "MonitorStats \<Rightarrow> nat \<Rightarrow> string" where
  "monitor_format stats buffer_size = snprintf buffer_size
     (''state='' @ [stats_state stats] @ '' cpu='' @ show_fixed 2 (stats_cpu_seconds stats) @
      ''s rss='' @ show_fixed 1 (megabytes (rss_bytes stats)) @ ''MB vsize='' @
      show_fixed 1 (megabytes (vsize_bytes stats)) @ ''MB thr='' @ show_int (threads stats))"

section \<open>Splitting a line of \<^verbatim>\<open>/proc/<pid>/stat\<close>\<close>

lemma tokens_at_blank_join:
  assumes "ws \<noteq> []" "\<And>w. w \<in> set ws \<Longrightarrow> CHR '' '' \<notin> set w"
  shows "tokens_at_blank n (join '' '' ws) = take n ws"
  using assms
proof (induction n arbitrary: ws)
  case (Suc n)
  show ?case
  proof (cases "tl ws")
    case Nil
    with Suc.prems obtain w where "ws = [w]" by (cases ws) auto
    with Suc.prems show ?thesis by (simp add: strchr_def)
  next
    case (Cons v vs)
    with Suc.prems obtain w where ws: "ws = w # v # vs" by (cases ws) auto
    let ?r = "join '' '' (v # vs)"
    have w: "\<And>c. c \<in> set w \<Longrightarrow> c \<noteq> CHR '' ''" using Suc.prems(2) ws by auto
    have "takeWhile (\<lambda>c. c \<noteq> CHR '' '') (w @ CHR '' '' # ?r) = w"
      "dropWhile (\<lambda>c. c \<noteq> CHR '' '') (w @ CHR '' '' # ?r) = CHR '' '' # ?r"
      using w by (auto intro!: takeWhile_append_stop dropWhile_append_stop)
    moreover have "tokens_at_blank n ?r = take n (v # vs)"
      by (rule Suc.IH) (use Suc.prems(2) ws in auto)
    ultimately show ?thesis by (simp add: ws strchr_def)
  qed
qed simp

lemma cstr_whole: "NUL \<notin> set s \<Longrightarrow> i \<le> length s \<Longrightarrow> cstr (s @ [NUL] @ b) i = drop i s"
proof -
  assume s: "NUL \<notin> set s" and i: "i \<le> length s"
  have "takeWhile (\<lambda>c. c \<noteq> NUL) (drop i s @ NUL # b) = drop i s"
    using s by (intro takeWhile_append_stop) (auto dest: in_set_dropD)
  with i show "cstr (s @ [NUL] @ b) i = drop i s" by (simp add: cstr_def)
qed

text \<open>A line of the file, as the kernel writes it, for any command name.\<close>

definition stat_line :: "pid \<Rightarrow> string \<Rightarrow> char \<Rightarrow> string list \<Rightarrow> string" where
  "stat_line p comm st fs = show_int p @ '' ('' @ comm @ '') '' @ [st] @ '' '' @ join '' '' fs"

definition stat_fields_ok :: "char \<Rightarrow> string list \<Rightarrow> bool" where
  "stat_fields_ok st fs \<longleftrightarrow> 21 \<le> length fs \<and> st \<noteq> NUL \<and> st \<noteq> CHR '')''
     \<and> (\<forall>f \<in> set fs. \<forall>c \<in> set f. c \<noteq> CHR '' '' \<and> c \<noteq> CHR '')'' \<and> c \<noteq> NUL)"

lemma join_free: "c \<notin> set sep \<Longrightarrow> \<forall>f \<in> set fs. c \<notin> set f \<Longrightarrow> c \<notin> set (join sep fs)"
  by (induction sep fs rule: join.induct) auto

lemma parse_stat_line:
  assumes body: "read_file (snprintf 128 (''/proc/'' @ show_int p @ ''/stat'')) = Inr (stat_line p comm st fs)"
    and len: "length (stat_line p comm st fs) < 4096" and ok: "stat_fields_ok st fs" and comm: "NUL \<notin> set comm"
  shows "parse_proc_stat read_file beyond p out =
    Inr (out\<lparr>stats_state := st, utime_ticks := strtoul (fs ! 10), stime_ticks := strtoul (fs ! 11),
      threads := strtol (fs ! 16), vsize_bytes := strtoul (fs ! 19), rss_pages := strtol (fs ! 20)\<rparr>)"
proof -
  let ?f = "join '' '' fs" and ?s = "stat_line p comm st fs" and ?pre = "show_int p @ '' ('' @ comm"
  have free: "CHR '')'' \<notin> set ?f" "NUL \<notin> set ?f"
    using ok unfolding stat_fields_ok_def by (intro join_free; force)+
  have pid: "\<And>c. c \<in> set (show_int p) \<Longrightarrow> c \<noteq> CHR ''('' \<and> c \<noteq> NUL"
    by (auto dest!: show_int_chars simp: isdigit_def)
  have nul: "NUL \<notin> set ?s" using pid ok comm free by (auto simp: stat_line_def stat_fields_ok_def)
  have s: "?s = ?pre @ CHR '')'' # '' '' @ [st] @ '' '' @ ?f" by (simp add: stat_line_def)
  have right: "strrchr ?s (CHR '')'') = Some (CHR '')'' # '' '' @ [st] @ '' '' @ ?f)"
    unfolding s using ok free by (intro strrchr_append) (auto simp: stat_fields_ok_def)
  have "dropWhile (\<lambda>c. c \<noteq> CHR ''('') ((show_int p @ '' '') @ CHR ''('' # comm @ '') '' @ [st] @ '' '' @ ?f)
      = CHR ''('' # comm @ '') '' @ [st] @ '' '' @ ?f"
    by (rule dropWhile_append_stop) (use pid in auto)
  then have left: "strchr ?s (CHR ''('') = Some (CHR ''('' # comm @ '') '' @ [st] @ '' '' @ ?f)"
    by (simp add: strchr_def stat_line_def)
  have pos: "length ?s - length (CHR '')'' # '' '' @ [st] @ '' '' @ ?f) + 2 = length ?pre + 2" by (simp add: s)
  have "drop (length q + 2) (q @ CHR '')'' # '' '' @ [st] @ '' '' @ f) = st # '' '' @ f"
    "drop (length q + 2 + 2) (q @ CHR '')'' # '' '' @ [st] @ '' '' @ f) = f" for q f :: string
    by simp_all
  note drops = this [of ?pre ?f, folded s]
  have le: "length ?pre + 2 + 2 \<le> length ?s" "length ?pre + 2 \<le> length ?s" by (simp_all add: stat_line_def)
  note rest = cstr_whole [OF nul le(2), of beyond, unfolded drops] cstr_whole [OF nul le(1), of beyond, unfolded drops]
    cstr_whole [OF nul le0, of beyond, unfolded drop0]
  have ne: "fs \<noteq> []" using ok by (cases fs) (simp_all add: stat_fields_ok_def)
  have "tokens_at_blank 64 ?f = take 64 fs"
  proof (rule tokens_at_blank_join [OF ne])
    fix w assume "w \<in> set fs"
    with ok have "\<forall>c \<in> set w. c \<noteq> CHR '' ''" unfolding stat_fields_ok_def by blast
    then show "CHR '' '' \<notin> set w" by blast
  qed
  moreover have "read_file_to_buffer read_file (snprintf 128 (''/proc/'' @ show_int p @ ''/stat'')) 4096 = Inr ?s"
    using body len by (simp add: read_file_to_buffer_def)
  ultimately show ?thesis
    using ok unfolding parse_proc_stat_def
    by (simp only: sum.case Let_def rest left right option.case prod.case pos) (simp add: stat_fields_ok_def min_def)
qed

section \<open>The thread count of \<^verbatim>\<open>/proc/<pid>/status\<close>\<close>

definition status_text :: "string list \<Rightarrow> string" where
  "status_text ls = concat (map (\<lambda>l. l @ [CHR 0x0A]) ls)"

definition status_lines_ok :: "string list \<Rightarrow> bool" where
  "status_lines_ok ls \<longleftrightarrow> (\<forall>l \<in> set ls. l \<noteq> [] \<and> CHR 0x0A \<notin> set l \<and> NUL \<notin> set l)"

lemma strtok_status_text: "status_lines_ok ls \<Longrightarrow> strtok {CHR 0x0A} (status_text ls) = ls"
  by (induction ls) (simp_all add: status_text_def status_lines_ok_def strtok_token)

lemma status_text_no_nul: "status_lines_ok ls \<Longrightarrow> NUL \<notin> set (status_text ls)"
  by (auto simp: status_text_def status_lines_ok_def)

lemma threads_line_none: "\<forall>l \<in> set ls. take 8 l \<noteq> ''Threads:'' \<Longrightarrow> threads_line ls t = t"
  by (induction ls arbitrary: t) simp_all

lemma threads_line_append: "threads_line (xs @ ys) t = threads_line ys (threads_line xs t)"
  by (induction xs arbitrary: t) auto

lemma strtol_blank: "isspace c \<Longrightarrow> strtol (c # s) = strtol s"
  by (simp add: strtol_def number_prefix_def)

lemma threads_line_reads:
  assumes "\<forall>l \<in> set ys. take 8 l \<noteq> ''Threads:''" and "0 \<le> n" "n \<le> LONG_MAX"
  shows "threads_line (xs @ (''Threads:'' @ CHR 0x09 # show_int n) # ys) t = n"
proof -
  have "strtol (CHR 0x09 # show_int n) = n"
    using assms by (simp add: strtol_blank isspace_def) (simp add: strtol_def show_int_def)
  then show ?thesis by (simp add: threads_line_append threads_line_none assms(1))
qed

section \<open>Properties\<close>

text \<open>
  (C16) The statistics of a process are read correctly whatever its command name, blanks and
  parentheses included: the fields are counted from the last closing parenthesis. The
  number of threads is the one of the \<^verbatim>\<open>Threads:\<close> line of \<^verbatim>\<open>status\<close>; the resident size is converted to
  bytes and the ticks to seconds.
\<close>

theorem monitor_reads_stat:
  assumes "0 < p" and "NUL \<notin> set comm" and "stat_fields_ok st fs"
    and "read_file (snprintf 128 (''/proc/'' @ show_int p @ ''/stat'')) = Inr (stat_line p comm st fs)"
    and "length (stat_line p comm st fs) < 4096"
    and "read_file (snprintf 128 (''/proc/'' @ show_int p @ ''/status'')) = Inr (status_text ls)"
    and "status_lines_ok ls" and "length (status_text ls) < 8192"
    and ls: "ls = xs @ (''Threads:'' @ CHR 0x09 # show_int n) # ys"
    and "\<forall>l \<in> set ys. take 8 l \<noteq> ''Threads:''" and "0 < n" and "n \<le> LONG_MAX"
    and "0 < page_size" and "0 < strtol (fs ! 20)" and "0 < hz"
  shows "monitor_read read_file beyond page_size hz p =
    Inr \<lparr>stats_pid = p, stats_state = st, utime_ticks = strtoul (fs ! 10), stime_ticks = strtoul (fs ! 11),
      vsize_bytes = strtoul (fs ! 19), rss_pages = strtol (fs ! 20), threads = n,
      rss_bytes = of_int (strtol (fs ! 20)) * of_int page_size,
      stats_cpu_seconds = of_nat (unat (strtoul (fs ! 10) + strtoul (fs ! 11))) / of_int hz\<rparr>"
proof -
  note stat = parse_stat_line [where read_file = read_file and p = p and comm = comm and st = st and fs = fs
      and beyond = beyond, OF assms(4,5,3,2)]
  have "cstr (status_text ls @ [NUL]) 0 = status_text ls"
    using cstr_whole [OF status_text_no_nul [OF assms(7)] le0, of "[]"] by simp
  moreover have "read_file_to_buffer read_file (snprintf 128 (''/proc/'' @ show_int p @ ''/status'')) 8192 =
      Inr (status_text ls)"
    unfolding read_file_to_buffer_def assms(6) using assms(8) by simp
  ultimately have "parse_proc_status read_file p out = Inr (out\<lparr>threads := n\<rparr>)" for out
    unfolding parse_proc_status_def Let_def
    by (simp only: sum.case strtok_status_text [OF assms(7), unfolded ls]
      ls threads_line_reads [OF assms(10) less_imp_le [OF assms(11)] assms(12)] assms(11) if_True)
  then show ?thesis
    using assms(1,13-15) by (simp add: monitor_read_def stat)
qed

definition demo_fields :: "string list" where
  "demo_fields = [''1'', ''1'', ''1'', ''1'', ''1'', ''1'', ''1'', ''1'', ''1'', ''1'', ''250'', ''50'', ''1'', ''1'', ''1'', ''1'',
     ''3'', ''1'', ''1'', ''4096'', ''7'']"

theorem monitor_reads_stat_witness:
  "monitor_read (\<lambda>f. if f = ''/proc/9/stat'' then Inr (stat_line 9 ''a) (b c'' (CHR ''S'') demo_fields)
       else if f = ''/proc/9/status'' then Inr (status_text [''Name: b'', ''Threads:'' @ CHR 0x09 # ''3''])
       else Inl ENOENT) [] 4096 100 9 =
   Inr \<lparr>stats_pid = 9, stats_state = CHR ''S'', utime_ticks = 250, stime_ticks = 50,
      vsize_bytes = 4096, rss_pages = 7, threads = 3, rss_bytes = 28672, stats_cpu_seconds = 3\<rparr>"
proof -
  let ?file = "\<lambda>f. if f = ''/proc/9/stat'' then Inr (stat_line 9 ''a) (b c'' (CHR ''S'') demo_fields)
       else if f = ''/proc/9/status'' then Inr (status_text [''Name: b'', ''Threads:'' @ CHR 0x09 # ''3''])
       else Inl ENOENT"
  have at_index: "demo_fields ! 10 = ''250''" "demo_fields ! 11 = ''50''" "demo_fields ! 19 = ''4096''"
    "demo_fields ! 20 = ''7''"
    by (simp_all add: demo_fields_def)
  have nums: "strtoul (demo_fields ! 10) = 250" "strtoul (demo_fields ! 11) = 50" "strtoul (demo_fields ! 19) = 4096"
    "strtol (demo_fields ! 20) = 7"
    by (simp_all add: at_index strtoul_def strtol_def number_prefix_def isspace_def isdigit_def
      read_digits_def digit_val_def)
  have texts: "show_int 9 = ''9''" "show_int 3 = ''3''" by (simp_all add: show_int_def show_nat.simps)
  have len: "length (stat_line 9 ''a) (b c'' (CHR ''S'') demo_fields) < 4096"
    by (simp add: stat_line_def texts demo_fields_def)
  have ok: "stat_fields_ok (CHR ''S'') demo_fields" by (auto simp: stat_fields_ok_def demo_fields_def)
  have "monitor_read ?file [] 4096 100 9 = Inr \<lparr>stats_pid = 9, stats_state = CHR ''S'',
      utime_ticks = strtoul (demo_fields ! 10), stime_ticks = strtoul (demo_fields ! 11),
      vsize_bytes = strtoul (demo_fields ! 19), rss_pages = strtol (demo_fields ! 20), threads = 3,
      rss_bytes = of_int (strtol (demo_fields ! 20)) * of_int 4096,
      stats_cpu_seconds = of_nat (unat (strtoul (demo_fields ! 10) + strtoul (demo_fields ! 11))) / of_int 100\<rparr>"
    by (rule monitor_reads_stat [where xs = "[''Name: b'']" and ys = "[]" and ls = "[''Name: b'', ''Threads:'' @ CHR 0x09 # ''3'']", OF _ _ ok _ len])
      (simp_all add: texts nums snprintf_def status_lines_ok_def status_text_def)
  then show ?thesis by (simp add: nums)
qed

end
