(* ===== verification/Manager.thy ===== *)
theory Manager
  imports Container_List Log_View Namespace Monitor Scheduler
begin

text \<open>
  The container manager: the functions of \<^verbatim>\<open>src/container.c\<close> that change the program's state. The
  globals of the program are the record \<open>world\<close>: the container list, \<^verbatim>\<open>next_sequence\<close>, the
  interrupt flag, the scheduler's state, what was written to standard output, the log file and the
  state of the kernel. A function is a program over the world (theory \<open>Prog\<close>); a return of
  \<open>0\<close> or \<open>-1\<close> is the value \<^term>\<open>Inr 0\<close> or \<^term>\<open>Inr (-1)\<close>. A \<^verbatim>\<open>Container *\<close> is an index into the
  list; theory \<open>Container_List\<close> shows that the linked list is such a sequence. The scheduler
  thread runs beside these functions; its interleaving is the subject of \<open>Sched_Threads\<close>.
\<close>

section \<open>The world\<close>

record 'k world =
  containers :: "Container list"
  next_sequence :: int
  interrupt_requested :: bool
  sched :: SchedulerState
  out :: string
  log_file :: "string option"
  kern :: 'k

text \<open>
  The operations of the host the manager calls. \<open>sys_fopen_r\<close> gives the text of a file,
  \<open>sys_isatty\<close> the error number when a descriptor is no terminal, \<open>sys_proc_files\<close> the answers
  of \<^verbatim>\<open>/proc\<close> to one reading of statistics, \<open>sys_allocator\<close> the answers \<^verbatim>\<open>realloc\<close> gives by size,
  \<open>sys_sigint\<close> whether \<^verbatim>\<open>SIGINT\<close> came in since it was last asked, \<open>sys_stdin\<close> a line of input or the
  value of \<^verbatim>\<open>errno\<close> when \<^verbatim>\<open>fgets\<close> returns NULL, \<open>sys_follow\<close> whether \<^verbatim>\<open>fseek\<close> succeeds and the
  rounds of the poll loop of \<^verbatim>\<open>logs -f\<close>.
\<close>

record 'k host =
  files :: "'k file_sys"
  procs :: "'k proc_sys"
  clone_op :: "'k clone_op"
  sys_fopen_r :: "string \<Rightarrow> ('k, string result) state"
  sys_rename :: "string \<Rightarrow> string \<Rightarrow> ('k, unit result) state"
  sys_fopen_log :: "('k, bool) state"
  sys_localtime :: "('k, string option) state"
  sys_isatty :: "int \<Rightarrow> ('k, unit result) state"
  sys_tcsetpgrp :: "pid \<Rightarrow> ('k, unit result) state"
  sys_allocator :: "('k, nat \<Rightarrow> bool) state"
  sys_proc_files :: "('k, (string \<Rightarrow> string result) \<times> string) state"
  sys_pagesize :: int
  sys_clk_tck :: int
  sys_clock_gettime :: "('k, u64 \<times> u64) state"
  sys_nanosleep :: "u32 \<Rightarrow> ('k, unit) state"
  sys_sigint :: "('k, bool) state"
  sys_stdin :: "nat \<Rightarrow> ('k, string result) state"
  sys_pthread_create :: "('k, bool) state"
  sys_follow :: "('k, bool \<times> tick list) state"
  strerror :: "errno \<Rightarrow> string"

abbreviation (input) METADATA_FILE :: string where "METADATA_FILE \<equiv> ''containers.meta''"
abbreviation (input) METADATA_FILE_TMP :: string where "METADATA_FILE_TMP \<equiv> ''containers.meta.tmp''"
abbreviation (input) SIZEOF_CONTAINER :: nat where "SIZEOF_CONTAINER \<equiv> 1000"
abbreviation (input) SIZEOF_CPUSAMPLE :: nat where "SIZEOF_CPUSAMPLE \<equiv> 24"

definition on_kernel :: "('k, 'a) prog \<Rightarrow> ('k world, 'a) prog" where
  "on_kernel m w = map_option (\<lambda>(r, k). (r, w\<lparr>kern := k\<rparr>)) (m (kern w))"

abbreviation kcall :: "('k, 'a result) state \<Rightarrow> ('k world, 'a) prog" where
  "kcall m \<equiv> on_kernel (call m)"

abbreviation kquery :: "('k, 'a) state \<Rightarrow> ('k world, 'a) prog" where
  "kquery m \<equiv> on_kernel (query m)"

definition emit :: "string \<Rightarrow> ('k world, unit) prog" where
  "emit s = modify (\<lambda>w. w\<lparr>out := out w @ s\<rparr>)"

text \<open>Print and return.\<close>

definition saying :: "string \<Rightarrow> 'a \<Rightarrow> ('k world, 'a) prog" where
  "saying s x = chain (emit s) (\<lambda>_. succeed x)"

definition log_world :: "'k host \<Rightarrow> string \<Rightarrow> string \<Rightarrow> ('k world, unit) prog" where
  "log_world H event_type msg =
     chain (kquery (sys_fopen_log H)) (\<lambda>opened.
     chain (if opened then kquery (sys_localtime H) else succeed None) (\<lambda>now.
       modify (\<lambda>w. w\<lparr>log_file := log_event_type opened now (Some event_type) (Some msg) (log_file w)\<rparr>)))"

definition with_container :: "nat \<Rightarrow> (Container \<Rightarrow> Container) \<Rightarrow> ('k world, unit) prog" where
  "with_container i f = modify (\<lambda>w. w\<lparr>containers := (containers w)[i := f (containers w ! i)]\<rparr>)"

definition the_container :: "nat \<Rightarrow> ('k world, Container) prog" where
  "the_container i = gets (\<lambda>w. containers w ! i)"

section \<open>Interrupts\<close>

definition container_request_interrupt :: "'k world \<Rightarrow> 'k world" where
  "container_request_interrupt w = w\<lparr>interrupt_requested := True\<rparr>"

definition deliver_sigint :: "'k host \<Rightarrow> ('k world, unit) prog" where
  "deliver_sigint H = chain (kquery (sys_sigint H)) (\<lambda>pending.
     if pending then modify container_request_interrupt else succeed ())"

definition container_consume_interrupt :: "'k host \<Rightarrow> ('k world, bool) prog" where
  "container_consume_interrupt H =
     chain (deliver_sigint H) (\<lambda>_.
     chain (gets interrupt_requested) (\<lambda>b.
       if b then chain (modify (\<lambda>w. w\<lparr>interrupt_requested := False\<rparr>)) (\<lambda>_. succeed True) else succeed False))"

section \<open>Looking up, saving\<close>

fun find_container :: "string \<Rightarrow> Container list \<Rightarrow> nat option" where
  "find_container i [] = None"
| "find_container i (c # cs) = (if id c = i then Some 0 else map_option Suc (find_container i cs))"

definition remove_at :: "nat \<Rightarrow> 'a list \<Rightarrow> 'a list" where
  "remove_at i xs = take i xs @ drop (Suc i) xs"

definition free_container_stack :: "Container \<Rightarrow> Container" where
  "free_container_stack c = (if stack c then c\<lparr>stack := False\<rparr> else c)"

fun write_lines :: "'k host \<Rightarrow> int \<Rightarrow> Container list \<Rightarrow> ('k world, unit) prog" where
  "write_lines H file [] = succeed ()"
| "write_lines H file (c # cs) =
     attempt (kcall (sys_fputs (files H) file (metadata_line c))) (\<lambda>_. write_lines H file cs)"

definition save_failed :: "'k host \<Rightarrow> string \<Rightarrow> string \<Rightarrow> ('k world, int) prog" where
  "save_failed H shown logged =
     chain (emit (''[error] failed to '' @ shown @ '' container metadata'' @ nl @ nl)) (\<lambda>_.
     chain (log_world H ''ERROR'' (''metadata save failed: '' @ logged)) (\<lambda>_. succeed (-1)))"

definition save_metadata :: "'k host \<Rightarrow> ('k world, int) prog" where
  "save_metadata H =
     attempt (kcall (sys_fopen_w (files H) METADATA_FILE_TMP)) (\<lambda>r. case r of
       Inl _ \<Rightarrow> save_failed H ''write'' ''could not open temp file''
     | Inr file \<Rightarrow>
         chain (gets containers) (\<lambda>cs.
         chain (write_lines H file cs) (\<lambda>_.
         attempt (kcall (sys_fclose (files H) file)) (\<lambda>closed. case closed of
           Inl _ \<Rightarrow> save_failed H ''flush'' ''fclose''
         | Inr _ \<Rightarrow>
             attempt (kcall (sys_rename H METADATA_FILE_TMP METADATA_FILE)) (\<lambda>renamed. case renamed of
               Inl _ \<Rightarrow> save_failed H ''finalize'' ''rename''
             | Inr _ \<Rightarrow> succeed 0)))))"

section \<open>Scheduler hooks\<close>

definition container_scheduler_on_started :: "'k host \<Rightarrow> pid \<Rightarrow> ('k world, unit) prog" where
  "container_scheduler_on_started H p =
     chain (kquery (sys_allocator H)) (\<lambda>alloc.
       modify (\<lambda>w. w\<lparr>sched := snd (scheduler_add_target alloc p (sched w))\<rparr>))"

definition container_scheduler_on_stopped :: "pid \<Rightarrow> ('k world, unit) prog" where
  "container_scheduler_on_stopped p = modify (\<lambda>w. w\<lparr>sched := snd (scheduler_remove_target p (sched w))\<rparr>)"

definition running :: "Container \<Rightarrow> bool" where
  "running c \<longleftrightarrow> state c = STATE_RUNNING \<and> pid c > 0"

definition running_pids :: "Container list \<Rightarrow> pid list" where
  "running_pids cs = map pid (filter running cs)"

fun add_targets :: "'k host \<Rightarrow> pid list \<Rightarrow> ('k world, unit) prog" where
  "add_targets H [] = succeed ()"
| "add_targets H (p # ps) = chain (container_scheduler_on_started H p) (\<lambda>_. add_targets H ps)"

fun kill_each :: "'k host \<Rightarrow> int \<Rightarrow> pid list \<Rightarrow> ('k world, unit) prog" where
  "kill_each H sig [] = succeed ()"
| "kill_each H sig (p # ps) = attempt (kcall (sys_kill (procs H) p sig)) (\<lambda>_. kill_each H sig ps)"

definition container_scheduler_refresh_targets :: "'k host \<Rightarrow> ('k world, unit) prog" where
  "container_scheduler_refresh_targets H =
     chain (gets (\<lambda>w. scheduler_is_enabled (sched w))) (\<lambda>on.
     chain (modify (\<lambda>w. w\<lparr>sched := scheduler_clear_targets (sched w)\<rparr>)) (\<lambda>_.
     chain (gets (\<lambda>w. running_pids (containers w))) (\<lambda>ps.
     chain (add_targets H ps) (\<lambda>_.
       if on \<and> ps \<noteq> [] then
         chain (kill_each H SIGSTOP (filter (\<lambda>p. p \<noteq> hd ps) ps)) (\<lambda>_. kill_each H SIGCONT [hd ps])
       else if \<not> on then kill_each H SIGCONT ps
       else succeed ()))))"

section \<open>Noticing that containers ended\<close>

definition is_pid_alive :: "'k host \<Rightarrow> pid \<Rightarrow> ('k world, bool) prog" where
  "is_pid_alive H p = (if p \<le> 0 then succeed False
     else attempt (kcall (sys_kill (procs H) p 0)) (\<lambda>r. case r of
       Inr _ \<Rightarrow> succeed True | Inl e \<Rightarrow> succeed (e = EPERM)))"

definition log_container_exit_status :: "'k host \<Rightarrow> string \<Rightarrow> string \<Rightarrow> int \<Rightarrow> ('k world, unit) prog" where
  "log_container_exit_status H cid pre status =
     (case exit_status_event cid pre status of (ty, msg) \<Rightarrow> log_world H ty msg)"

definition mark_stopped :: "Container \<Rightarrow> Container" where
  "mark_stopped c = free_container_stack (c\<lparr>state := STATE_STOPPED, pid := -1\<rparr>)"

definition sync_reaped :: "'k host \<Rightarrow> nat \<Rightarrow> Container \<Rightarrow> int \<Rightarrow> ('k world, bool) prog" where
  "sync_reaped H i c status =
     chain (with_container i mark_stopped) (\<lambda>_.
     chain (container_scheduler_on_stopped (pid c)) (\<lambda>_.
     chain (log_container_exit_status H (id c) ''reaped by manager'' status) (\<lambda>_. succeed True)))"

definition sync_missing :: "'k host \<Rightarrow> nat \<Rightarrow> Container \<Rightarrow> ('k world, bool) prog" where
  "sync_missing H i c =
     chain (is_pid_alive H (pid c)) (\<lambda>alive.
       if alive then succeed False
       else
         chain (with_container i mark_stopped) (\<lambda>_.
         chain (log_world H ''CONTAINER_STOPPED'' (id c @ '' marked stopped after recovery check'')) (\<lambda>_.
           succeed True)))"

definition sync_container_state :: "'k host \<Rightarrow> nat \<Rightarrow> ('k world, bool) prog" where
  "sync_container_state H i = chain (the_container i) (\<lambda>c.
     if \<not> running c then succeed False
     else attempt (kcall (sys_waitpid (procs H) (pid c) True)) (\<lambda>r. case r of
       Inr (result, status) \<Rightarrow> if result > 0 then sync_reaped H i c status else succeed False
     | Inl e \<Rightarrow> if e = ECHILD then sync_missing H i c else succeed False))"

fun sync_all :: "'k host \<Rightarrow> nat list \<Rightarrow> bool \<Rightarrow> ('k world, bool) prog" where
  "sync_all H [] changed = succeed changed"
| "sync_all H (i # is) changed = chain (sync_container_state H i) (\<lambda>b. sync_all H is (changed \<or> b))"

definition poll_states :: "'k host \<Rightarrow> ('k world, unit) prog" where
  "poll_states H =
     chain (gets (\<lambda>w. [0..<length (containers w)])) (\<lambda>is.
     chain (sync_all H is False) (\<lambda>changed.
       if changed then chain (save_metadata H) (\<lambda>_. succeed ()) else succeed ()))"

definition container_refresh_state :: "'k host \<Rightarrow> ('k world, unit) prog" where
  "container_refresh_state H = poll_states H"

section \<open>Waiting and stopping\<close>

text \<open>
  The return value and \<^verbatim>\<open>errno\<close> afterwards; \<open>e\<close> is \<^verbatim>\<open>errno\<close> before. The signal dispositions saved
  and restored around \<^verbatim>\<open>tcsetpgrp\<close> only keep the process from being stopped by it.
\<close>

definition move_terminal_foreground :: "'k host \<Rightarrow> errno \<Rightarrow> pid \<Rightarrow> ('k world, int \<times> errno) prog" where
  "move_terminal_foreground H e pgrp =
     attempt (kcall (sys_isatty H 0)) (\<lambda>tty. case tty of
       Inl e1 \<Rightarrow> succeed (0, e1)
     | Inr _ \<Rightarrow>
         attempt (kcall (sys_tcsetpgrp H pgrp)) (\<lambda>r. case r of
           Inl e1 \<Rightarrow> succeed (-1, e1)
         | Inr _ \<Rightarrow> succeed (0, e)))"

definition finish_wait :: "'k host \<Rightarrow> nat \<Rightarrow> bool \<Rightarrow> int \<Rightarrow> bool \<Rightarrow> pid \<Rightarrow> ('k world, int) prog" where
  "finish_wait H i quiet status terminal_moved shell_pgrp =
     chain (if terminal_moved then chain (move_terminal_foreground H 0 shell_pgrp) (\<lambda>_. succeed ()) else succeed ()) (\<lambda>_.
     chain (the_container i) (\<lambda>c.
     chain (log_container_exit_status H (id c) ''finished'' status) (\<lambda>_.
     chain (with_container i mark_stopped) (\<lambda>_.
     chain (save_metadata H) (\<lambda>saved.
       if saved \<noteq> 0 then succeed (-1)
       else saying (if quiet then [] else ''[manager] '' @ id c @ '' finished'' @ nl @ nl) 0)))))"

definition wait_for_container_process :: "'k host \<Rightarrow> nat \<Rightarrow> bool \<Rightarrow> ('k world, int) prog" where
  "wait_for_container_process H i quiet =
     chain (kquery (sys_getpgrp (procs H))) (\<lambda>shell_pgrp.
     chain (the_container i) (\<lambda>c.
       if \<not> running c then succeed (-1)
       else
         chain (move_terminal_foreground H 0 (pid c)) (\<lambda>(moved, _).
         attempt (kcall (sys_waitpid (procs H) (pid c) False)) (\<lambda>r. case r of
           Inr (_, status) \<Rightarrow> finish_wait H i quiet status (moved = 0) shell_pgrp
         | Inl e \<Rightarrow>
             chain (if moved = 0 then move_terminal_foreground H e shell_pgrp else succeed (0, e)) (\<lambda>(_, e1).
               if e1 = ECHILD then
                 chain (is_pid_alive H (pid c)) (\<lambda>alive.
                   if alive then succeed (-1) else finish_wait H i quiet 0 (moved = 0) shell_pgrp)
               else succeed (-1))))))"

definition stop_failed :: "'k host \<Rightarrow> bool \<Rightarrow> string \<Rightarrow> Container \<Rightarrow> ('k world, int) prog" where
  "stop_failed H quiet what c =
     chain (emit (if quiet then [] else ''[error] failed to '' @ what @ '' '' @ id c @ nl @ nl)) (\<lambda>_.
     chain (log_world H ''ERROR'' (''failed to '' @ what @ '' '' @ id c @ '' (pid '' @ show_int (pid c) @ '')'')) (\<lambda>_.
       succeed (-1)))"

definition stop_done :: "'k host \<Rightarrow> nat \<Rightarrow> bool \<Rightarrow> Container \<Rightarrow> ('k world, int) prog" where
  "stop_done H i quiet c =
     chain (log_world H ''CONTAINER_STOPPED'' (id c @ '' stopped (pid '' @ show_int (pid c) @ '')'')) (\<lambda>_.
     chain (container_scheduler_on_stopped (pid c)) (\<lambda>_.
     chain (with_container i mark_stopped) (\<lambda>_.
     chain (save_metadata H) (\<lambda>_.
       saying (if quiet then [] else ''[manager] '' @ id c @ '' stopped'' @ nl @ nl) 0))))"

definition stop_container_process :: "'k host \<Rightarrow> nat \<Rightarrow> bool \<Rightarrow> ('k world, int) prog" where
  "stop_container_process H i quiet = chain (the_container i) (\<lambda>c.
     if \<not> running c then
       saying (if quiet then [] else ''[manager] '' @ id c @ '' is not running'' @ nl @ nl) (-1)
     else
       attempt (kcall (sys_kill (procs H) (pid c) SIGKILL)) (\<lambda>killed.
         if (case killed of Inl e \<Rightarrow> e \<noteq> ESRCH | Inr _ \<Rightarrow> False) then stop_failed H quiet ''stop'' c
         else
           attempt (kcall (sys_waitpid (procs H) (pid c) False)) (\<lambda>reaped.
             if (case reaped of Inl e \<Rightarrow> e \<noteq> ECHILD | Inr _ \<Rightarrow> False) then stop_failed H quiet ''reap'' c
             else stop_done H i quiet c)))"

end
