(* ===== verification/Manager_List.thy ===== *)
theory Manager_List
  imports Manager
begin

text \<open>
  The manager's list of containers and the linked list of \<^verbatim>\<open>src/container.c\<close>. The programs of theory
  \<open>Manager\<close> keep the containers as a sequence and use a position for a \<^verbatim>\<open>Container *\<close>. Here this view
  is shown to be an abstraction of the list of nodes: finding, appending and removing on the
  sequence are what the pointer operations do to the nodes in the order of the list.
\<close>

section \<open>The abstraction\<close>

definition contents :: "clist \<Rightarrow> addr list \<Rightarrow> Container list" where
  "contents l as = map (node l) as"

section \<open>The operations\<close>

lemma find_container_map:
  "find_container i (map f as) = None \<longleftrightarrow> find (\<lambda>a. id (f a) = i) as = None"
  "find_container i (map f as) = Some k \<Longrightarrow> find (\<lambda>a. id (f a) = i) as = Some (as ! k) \<and> k < length as"
  by (induction as arbitrary: k) (auto split: if_splits)

lemma remove_at_map: "distinct as \<Longrightarrow> k < length as \<Longrightarrow> remove_at k (map f as) = map f (remove1 (as ! k) as)"
proof (induction as arbitrary: k)
  case (Cons a as)
  then show ?case by (cases k) (auto simp: remove_at_def)
qed simp

lemma append_node: "node (append_container a l) = node l"
  by (simp add: append_container_def Let_def split: option.split)

section \<open>Properties\<close>

text \<open>
  (C12) Positions in a sequence are a correct view of the pointers: on a well-formed list of
  nodes, looking up an id gives the node at the position the manager finds, appending a node puts its
  container last, and removing the node at a position returns and removes exactly that position.
\<close>

theorem manager_list_refines:
  assumes "represents l as"
  shows "find_container_ptr i l = Some (map_option ((!) as) (find_container i (contents l as)))
    \<and> (\<forall>a. a \<notin> set as \<longrightarrow> represents (append_container a l) (as @ [a])
         \<and> contents (append_container a l) (as @ [a]) = contents l as @ [node l a])
    \<and> (\<forall>k < length as. \<exists>l'. remove_container (as ! k) l = Some l' \<and> represents l' (remove1 (as ! k) as)
         \<and> contents l' (remove1 (as ! k) as) = remove_at k (contents l as))"
proof (intro conjI allI impI)
  show "find_container_ptr i l = Some (map_option ((!) as) (find_container i (contents l as)))"
    unfolding cl.lookup_repr [OF assms] contents_def
    using find_container_map [of i "node l" as] by (cases "find_container i (map (node l) as)") auto
next
  fix a assume "a \<notin> set as"
  then show "represents (append_container a l) (as @ [a])" by (rule cl.add_repr [OF assms])
  show "contents (append_container a l) (as @ [a]) = contents l as @ [node l a]"
    by (simp add: contents_def append_node)
next
  fix k assume k: "k < length as"
  obtain l' where "remove_container (as ! k) l = Some l'" "represents l' (remove1 (as ! k) as)"
    using cl.remove_repr [OF assms] by blast
  moreover from this(1) have "node l' = node l" by (rule remove_container_node)
  ultimately show "\<exists>l'. remove_container (as ! k) l = Some l' \<and> represents l' (remove1 (as ! k) as)
      \<and> contents l' (remove1 (as ! k) as) = remove_at k (contents l as)"
    using remove_at_map [OF cl.repr_distinct [OF assms] k, of "node l"] by (auto simp: contents_def)
qed

theorem manager_list_refines_witness:
  "represents (append_container 9 demo_clist) [5, 7, 9]
   \<and> (\<exists>l'. remove_container 7 demo_clist = Some l' \<and> represents l' [5])"
  using manager_list_refines [OF demo_clist_represents, THEN conjunct2, THEN conjunct1, THEN spec, of 9]
    manager_list_refines [OF demo_clist_represents, THEN conjunct2, THEN conjunct2, THEN spec, of 1]
  by auto

end
