(* ===== verification/Manager_Commands.thy ===== *)
theory Manager_Commands
  imports Manager
begin

text \<open>
  The entry points of \<^verbatim>\<open>src/container.c\<close>: restoring the containers at start-up, the commands of the
  life cycle (create, start, run, stop, delete), the tables (list, stats, stats with
  \<^verbatim>\<open>--watch\<close>) and the clean-up at exit. The watch loops only end on an interrupt or an error, so
  they are partial functions.
\<close>

section \<open>Messages\<close>

definition pid_text :: "Container \<Rightarrow> string" where
  "pid_text c = (if pid c > 0 then snprintf 16 (show_int (pid c)) else copy_string [] 16 (Some ''-''))"

definition print_container_banner :: "Container \<Rightarrow> pid \<Rightarrow> string" where
  "print_container_banner c npid =
     nl @ print_detail_box_header ''Container Summary'' @
     print_detail_row ''id'' (id c) @
     print_detail_row ''state'' (state_to_string (state c)) @
     print_detail_row ''name'' (name c) @
     print_detail_row ''hostname'' (hostname c) @
     print_detail_row ''pid''
       (if npid > 0 then snprintf 48 (''host pid '' @ pid_text c @ '' | ns pid '' @ show_int npid) else pid_text c) @
     print_detail_row ''rootfs'' (rootfs c) @
     print_detail_row ''command'' (command_line c) @
     print_detail_row ''limits'' (resource_format_limits (resource_limits c) 128) @
     print_detail_row ''isolate'' namespace_profile @
     print_detail_row ''fs mode'' filesystem_profile @
     print_detail_row ''net mode'' network_profile @
     print_detail_row ''res mode'' resource_profile @
     print_detail_box_footer @ nl"

definition format_start_error_message :: "'k host \<Rightarrow> errno \<Rightarrow> nat \<Rightarrow> string" where
  "format_start_error_message H e buffer_size = namespace_format_start_error (strerror H) e buffer_size"

definition print_start_error :: "'k host \<Rightarrow> Container \<Rightarrow> errno \<Rightarrow> string" where
  "print_start_error H c e =
     ''[error] failed to start '' @ id c @ '' with isolation setup'' @ nl @
     ''[hint] rootfs: '' @ rootfs c @ nl @
     ''[hint] '' @ namespace_format_start_error (strerror H) e 256 @ nl @ nl"

definition limits_message :: "ResourceConfig \<Rightarrow> string" where
  "limits_message r = '' cpu='' @ show_uint (cpu_seconds r) @ ''s mem='' @ show_uint (memory_mb r) @
     ''MB nproc='' @ show_uint (max_processes r)"

definition not_found :: "string \<Rightarrow> string" where
  "not_found i = ''[error] container '' @ i @ '' not found'' @ nl @ nl"

section \<open>Start-up\<close>

definition append_world :: "Container \<Rightarrow> ('k world, unit) prog" where
  "append_world c = modify (\<lambda>w. w\<lparr>containers := containers w @ [c]\<rparr>)"

text \<open>
  The loop over the lines: the number of records restored, \<^const>\<open>None\<close> when memory ran out. A line is
  first read as if its process lived; then the process is looked for.
\<close>

fun restore_loop :: "'k host \<Rightarrow> string list \<Rightarrow> nat \<Rightarrow> ('k world, nat option) prog" where
  "restore_loop H [] restored = succeed (Some restored)"
| "restore_loop H (l # ls) restored = (case parse_record (\<lambda>_. True) l of
     None \<Rightarrow> restore_loop H ls restored
   | Some c \<Rightarrow>
       chain (kquery (sys_malloc (procs H) SIZEOF_CONTAINER)) (\<lambda>ok.
         if \<not> ok then saying (''[error] out of memory while restoring containers'' @ nl @ nl) None
         else
           chain (if state c = STATE_RUNNING then is_pid_alive H (pid c) else succeed True) (\<lambda>alive.
           chain (append_world (if alive then c else c\<lparr>state := STATE_STOPPED, pid := -1\<rparr>)) (\<lambda>_.
           chain (modify (\<lambda>w. w\<lparr>next_sequence := update_next_sequence (id c) (next_sequence w)\<rparr>)) (\<lambda>_.
             restore_loop H ls (restored + 1))))))"

definition container_manager_init :: "'k host \<Rightarrow> ('k world, int) prog" where
  "container_manager_init H =
     attempt (kcall (sys_fopen_r H METADATA_FILE)) (\<lambda>r. case r of
       Inl _ \<Rightarrow> succeed 0
     | Inr content \<Rightarrow>
         chain (restore_loop H (fgets_lines 1024 content) 0) (\<lambda>res. case res of
           None \<Rightarrow> succeed (-1)
         | Some n \<Rightarrow>
             chain (poll_states H) (\<lambda>_.
               if n > 0 then
                 chain (emit (''[manager] restored '' @ show_nat n @ '' container record(s) from '' @
                   METADATA_FILE @ nl @ nl)) (\<lambda>_.
                 chain (log_world H ''MANAGER'' (''restored '' @ show_nat n @ '' container record(s)'')) (\<lambda>_.
                   succeed 0))
               else succeed 0)))"

section \<open>Create\<close>

definition given :: "string option \<Rightarrow> string \<Rightarrow> string" where
  "given field preset = (case field of None \<Rightarrow> preset | Some s \<Rightarrow> if s = [] then preset else s)"

definition new_container :: "ContainerSpec option \<Rightarrow> int \<Rightarrow> Container" where
  "new_container spec sequence =
     (let i = container_id_of sequence;
          field = (\<lambda>f. case spec of None \<Rightarrow> None | Some s \<Rightarrow> f s);
          nm = copy_string [] CONTAINER_NAME_LEN (Some (given (field spec_name) i))
      in \<lparr>id = i, name = nm, pid = 0,
          hostname = copy_string [] CONTAINER_HOSTNAME_LEN (Some (given (field spec_hostname) nm)),
          rootfs = [],
          command_line = copy_string [] CONTAINER_COMMAND_LEN
            (Some (given (field spec_command_line) DEFAULT_CONTAINER_COMMAND)),
          resource_limits = (case spec of None \<Rightarrow> no_limits | Some s \<Rightarrow> spec_resource_limits s),
          state = STATE_CREATED, stack = False\<rparr>)"

definition requested_rootfs :: "ContainerSpec option \<Rightarrow> string \<Rightarrow> string" where
  "requested_rootfs spec i = snprintf CONTAINER_ROOTFS_LEN
     (given (case spec of None \<Rightarrow> None | Some s \<Rightarrow> spec_rootfs s) (''./rootfs/'' @ i))"

text \<open>Adding a prepared container to the list; on success its id, which the callers copy out.\<close>

definition enlist :: "'k host \<Rightarrow> Container \<Rightarrow> ('k world, string option) prog" where
  "enlist H c =
     chain (append_world c) (\<lambda>_.
     chain (save_metadata H) (\<lambda>saved.
       if saved \<noteq> 0 then
         chain (modify (\<lambda>w. w\<lparr>containers := butlast (containers w)\<rparr>)) (\<lambda>_. succeed None)
       else
         chain (emit (''[manager] created '' @ id c @ nl @ print_container_banner c (-1))) (\<lambda>_.
         chain (log_world H ''CONTAINER_CREATED''
           (id c @ '' name='' @ name c @ '' hostname='' @ hostname c @ '' rootfs='' @ rootfs c @
            '' command='' @ command_line c @ limits_message (resource_limits c))) (\<lambda>_.
           succeed (Some (id c))))))"

definition create_sequenced :: "'k host \<Rightarrow> ContainerSpec option \<Rightarrow> int \<Rightarrow> ('k world, string option) prog" where
  "create_sequenced H spec sequence =
     (let c0 = new_container spec sequence in
      chain (modify (\<lambda>w. w\<lparr>next_sequence := cast_int (sequence + 1)\<rparr>)) (\<lambda>_.
      attempt (on_kernel (filesystem_prepare_rootfs (files H) (Some (requested_rootfs spec (id c0)))
          CONTAINER_ROOTFS_LEN)) (\<lambda>r. case r of
        Inl e \<Rightarrow>
          saying (''[error] failed to prepare rootfs for '' @ id c0 @ nl @
            ''[hint] '' @ strerror H e @ nl @ nl) None
      | Inr resolved \<Rightarrow> enlist H (c0\<lparr>rootfs := resolved, pid := -1, state := STATE_CREATED\<rparr>))))"

definition container_create :: "'k host \<Rightarrow> ContainerSpec option \<Rightarrow> ('k world, string option) prog" where
  "container_create H spec =
     chain (kquery (sys_malloc (procs H) SIZEOF_CONTAINER)) (\<lambda>ok.
       if \<not> ok then saying (''[error] out of memory'' @ nl @ nl) None
       else chain (gets next_sequence) (create_sequenced H spec))"

section \<open>Start, run, stop, delete\<close>

definition start_failed :: "'k host \<Rightarrow> nat \<Rightarrow> Container \<Rightarrow> errno \<Rightarrow> ('k world, int) prog" where
  "start_failed H i c e =
     chain (emit (print_start_error H c e)) (\<lambda>_.
     chain (log_world H ''ERROR'' (''startup isolation failed for '' @ id c @ '': '' @
       format_start_error_message H e 256)) (\<lambda>_.
     chain (with_container i free_container_stack) (\<lambda>_. succeed (-1))))"

definition start_worked :: "'k host \<Rightarrow> nat \<Rightarrow> bool \<Rightarrow> NamespaceStartResult \<Rightarrow> ('k world, int) prog" where
  "start_worked H i schedule_target start_result =
     chain (with_container i (\<lambda>c. c\<lparr>pid := host_pid start_result, state := STATE_RUNNING\<rparr>)) (\<lambda>_.
     chain (save_metadata H) (\<lambda>saved.
       if saved \<noteq> 0 then chain (stop_container_process H i True) (\<lambda>_. succeed (-1))
       else
         chain (the_container i) (\<lambda>c.
         chain (emit (''[manager] started '' @ id c @ nl @
           print_container_banner c (result_namespace_pid start_result))) (\<lambda>_.
         chain (log_world H ''CONTAINER_STARTED''
           (id c @ '' pid='' @ show_int (pid c) @ '' ns_pid='' @ show_int (result_namespace_pid start_result) @
            '' isolation='' @ namespace_profile @ '' command='' @ command_line c @
            limits_message (resource_limits c))) (\<lambda>_.
         chain (if schedule_target then container_scheduler_on_started H (pid c) else succeed ()) (\<lambda>_.
           succeed 0))))))"

definition start_found :: "'k host \<Rightarrow> nat \<Rightarrow> bool \<Rightarrow> ('k world, int) prog" where
  "start_found H i schedule_target = chain (the_container i) (\<lambda>c.
     if state c = STATE_RUNNING then saying (''[manager] '' @ id c @ '' is already running'' @ nl @ nl) (-1)
     else
       chain (kquery (sys_malloc (procs H) STACK_SIZE)) (\<lambda>ok.
       chain (with_container i (\<lambda>c. c\<lparr>stack := ok\<rparr>)) (\<lambda>_.
         if \<not> ok then saying (''[error] out of memory'' @ nl @ nl) (-1)
         else
           attempt (on_kernel (namespace_start_container (files H) (procs H) (clone_op H)
               (Some \<lparr>ns_hostname = Some (hostname c), ns_rootfs = Some (rootfs c),
                 ns_command_line = Some (command_line c), ns_resource_limits = resource_limits c\<rparr>) True STACK_SIZE)) (\<lambda>r.
           case r of
             Inl e \<Rightarrow> start_failed H i c e
           | Inr start_result \<Rightarrow> start_worked H i schedule_target start_result))))"

text \<open>The common beginning of the commands that name a container.\<close>

definition for_container ::
    "'k host \<Rightarrow> string \<Rightarrow> string option \<Rightarrow> (nat \<Rightarrow> ('k world, int) prog) \<Rightarrow> ('k world, int) prog" where
  "for_container H usage i f = (case i of
     None \<Rightarrow> saying (''[error] usage: '' @ usage @ nl @ nl) (-1)
   | Some i' \<Rightarrow>
       if i' = [] then saying (''[error] usage: '' @ usage @ nl @ nl) (-1)
       else
         chain (poll_states H) (\<lambda>_.
         chain (gets (\<lambda>w. find_container i' (containers w))) (\<lambda>found. case found of
           None \<Rightarrow> saying (not_found i') (-1)
         | Some k \<Rightarrow> f k)))"

definition start_container_by_id :: "'k host \<Rightarrow> string option \<Rightarrow> bool \<Rightarrow> ('k world, int) prog" where
  "start_container_by_id H i schedule_target =
     for_container H ''start <id>'' i (\<lambda>k. start_found H k schedule_target)"

definition container_run :: "'k host \<Rightarrow> ContainerSpec option \<Rightarrow> ('k world, int \<times> string) prog" where
  "container_run H spec =
     chain (container_create H spec) (\<lambda>created. case created of
       None \<Rightarrow> succeed (-1, [])
     | Some i \<Rightarrow>
         chain (start_container_by_id H (Some i) False) (\<lambda>started.
           if started \<noteq> 0 then succeed (-1, [])
           else
             chain (gets (\<lambda>w. find_container i (containers w))) (\<lambda>found. case found of
               None \<Rightarrow> succeed (-1, i)
             | Some k \<Rightarrow> chain (wait_for_container_process H k False) (\<lambda>rc. succeed (rc, i)))))"

definition container_run_background :: "'k host \<Rightarrow> ContainerSpec option \<Rightarrow> ('k world, int \<times> string) prog" where
  "container_run_background H spec =
     chain (container_create H spec) (\<lambda>created. case created of
       None \<Rightarrow> succeed (-1, [])
     | Some i \<Rightarrow>
         chain (start_container_by_id H (Some i) True) (\<lambda>started.
           if started \<noteq> 0 then succeed (-1, []) else succeed (0, i)))"

definition container_start :: "'k host \<Rightarrow> string option \<Rightarrow> ('k world, int) prog" where
  "container_start H i = start_container_by_id H i True"

definition container_stop :: "'k host \<Rightarrow> string option \<Rightarrow> ('k world, int) prog" where
  "container_stop H i = for_container H ''stop <id>'' i (\<lambda>k. stop_container_process H k False)"

definition delete_found :: "'k host \<Rightarrow> nat \<Rightarrow> ('k world, int) prog" where
  "delete_found H k = chain (the_container k) (\<lambda>c.
     if state c = STATE_RUNNING then saying (''[error] stop '' @ id c @ '' before deleting it'' @ nl @ nl) (-1)
     else
       chain (modify (\<lambda>w. w\<lparr>containers := remove_at k (containers w)\<rparr>)) (\<lambda>_.
       chain (save_metadata H) (\<lambda>saved.
         if saved \<noteq> 0 then chain (append_world c) (\<lambda>_. succeed (-1))
         else
           chain (log_world H ''CONTAINER_DELETED'' (id c @ '' deleted'')) (\<lambda>_.
             saying (''[manager] deleted '' @ id c @ nl @ nl) 0))))"

definition container_delete :: "'k host \<Rightarrow> string option \<Rightarrow> ('k world, int) prog" where
  "container_delete H i = for_container H ''delete <id>'' i (delete_found H)"

section \<open>Tables\<close>

definition inventory_row :: "Container \<Rightarrow> string" where
  "inventory_row c = print_cli_table_row
     (map Some [id c, name c, state_to_string (state c), pid_text c, hostname c, rootfs c, command_line c,
       resource_format_limits (resource_limits c) 128]) INVENTORY_WIDTHS"

definition inventory_table :: "Container list \<Rightarrow> string" where
  "inventory_table cs =
     nl @ print_detail_box_header ''Container Inventory'' @
     print_detail_row ''Isolation'' namespace_profile @
     print_detail_row ''Filesystem'' filesystem_profile @
     print_detail_row ''Network'' network_profile @
     print_detail_row ''Resources'' resource_profile @
     print_detail_box_footer @
     print_inventory_table_header @
     concat (map inventory_row cs) @
     (if length cs = 0 then print_table_message INVENTORY_WIDTHS ''no containers found'' else []) @
     print_inventory_table_footer @ nl"

definition container_list :: "'k host \<Rightarrow> ('k world, int) prog" where
  "container_list H =
     chain (poll_states H) (\<lambda>_.
     chain (gets containers) (\<lambda>cs. saying (inventory_table cs) 0))"

definition print_stats_header :: string where
  "print_stats_header =
     (let inner_width = table_inner_width STATS_WIDTHS in
      nl @ print_cli_full_border inner_width box_tl box_tr @
      print_cli_full_row inner_width (Some ''Container Monitoring'') @
      print_cli_full_border inner_width box_vr box_vl @
      print_cli_full_row inner_width (Some (snprintf 160 (''Monitor profile: '' @ monitor_profile))) @
      print_cli_table_border STATS_WIDTHS box_vr box_ht box_vl @
      print_cli_table_row (map Some STATS_HEADERS) STATS_WIDTHS @
      print_cli_table_border STATS_WIDTHS box_vr box_x box_vl)"

definition print_stats_row :: "Container \<Rightarrow> MonitorStats \<Rightarrow> rat option \<Rightarrow> string" where
  "print_stats_row c stats cpu_pct = print_cli_table_row
     (map Some [id c,
       snprintf 16 (show_int (stats_pid stats)),
       snprintf 8 (if stats_state stats = CHR 0x00 then [] else [stats_state stats]),
       snprintf 16 (show_fixed 2 (stats_cpu_seconds stats)),
       snprintf 16 (case cpu_pct of None \<Rightarrow> ''-'' | Some x \<Rightarrow> show_fixed 1 x),
       snprintf 16 (show_fixed 1 (megabytes (rss_bytes stats))),
       snprintf 16 (show_fixed 1 (megabytes (vsize_bytes stats))),
       snprintf 16 (show_int (threads stats)),
       command_line c]) STATS_WIDTHS"

text \<open>Reading the statistics of a process through \<^verbatim>\<open>/proc\<close>.\<close>

definition read_stats :: "'k host \<Rightarrow> pid \<Rightarrow> ('k world, MonitorStats option) prog" where
  "read_stats H p =
     chain (kquery (sys_proc_files H)) (\<lambda>(read_file, beyond).
       succeed (case monitor_read read_file beyond (sys_pagesize H) (sys_clk_tck H) p of
         Inl _ \<Rightarrow> None | Inr stats \<Rightarrow> Some stats))"

definition stats_unreadable :: "Container \<Rightarrow> string" where
  "stats_unreadable c = ''[error] failed to read stats for '' @ id c @ '' (pid '' @ show_int (pid c) @ '')'' @ nl @ nl"

definition container_stats :: "'k host \<Rightarrow> string option \<Rightarrow> ('k world, int) prog" where
  "container_stats H i = for_container H ''stats <id>'' i (\<lambda>k.
     chain (the_container k) (\<lambda>c.
       if \<not> running c then saying (''[manager] '' @ id c @ '' is not running'' @ nl @ nl) (-1)
       else
         chain (read_stats H (pid c)) (\<lambda>r. case r of
           None \<Rightarrow> saying (stats_unreadable c) (-1)
         | Some stats \<Rightarrow> saying (print_stats_header @ print_stats_row c stats None @ print_stats_footer @ nl) 0)))"

fun stats_rows :: "'k host \<Rightarrow> Container list \<Rightarrow> bool \<Rightarrow> ('k world, bool) prog" where
  "stats_rows H [] any = succeed any"
| "stats_rows H (c # cs) any =
     (if \<not> running c then stats_rows H cs any
      else
        chain (read_stats H (pid c)) (\<lambda>r. case r of
          None \<Rightarrow> stats_rows H cs any
        | Some stats \<Rightarrow> chain (emit (print_stats_row c stats None)) (\<lambda>_. stats_rows H cs True)))"

definition stats_end :: "bool \<Rightarrow> string" where
  "stats_end any = (if any then [] else print_table_message STATS_WIDTHS ''no running containers'') @
     print_stats_footer @ nl"

definition container_stats_all :: "'k host \<Rightarrow> ('k world, int) prog" where
  "container_stats_all H =
     chain (poll_states H) (\<lambda>_.
     chain (emit print_stats_header) (\<lambda>_.
     chain (gets containers) (\<lambda>cs.
     chain (stats_rows H cs False) (\<lambda>any. saying (stats_end any) 0))))"

section \<open>Watching\<close>

record CpuSample =
  sample_pid :: pid
  sample_cpu_seconds :: rat
  wall_ns :: u64

definition monotonic_ns :: "'k host \<Rightarrow> ('k world, u64) prog" where
  "monotonic_ns H = chain (kquery (sys_clock_gettime H)) (\<lambda>(tv_sec, tv_nsec).
     succeed (tv_sec * 1000000000 + tv_nsec))"

fun find_sample :: "CpuSample list \<Rightarrow> pid \<Rightarrow> nat option" where
  "find_sample [] p = None"
| "find_sample (s # ss) p = (if sample_pid s = p then Some 0 else map_option Suc (find_sample ss p))"

definition sleep_interval :: "'k host \<Rightarrow> u32 \<Rightarrow> ('k world, unit) prog" where
  "sleep_interval H interval_sec = kquery (sys_nanosleep H interval_sec)"

definition clear_screen_if_tty :: "'k host \<Rightarrow> ('k world, unit) prog" where
  "clear_screen_if_tty H = attempt (kcall (sys_isatty H 1)) (\<lambda>tty. case tty of
     Inl _ \<Rightarrow> succeed ()
   | Inr _ \<Rightarrow> emit (CHR 0x1B # ''[H'' @ CHR 0x1B # ''[J''))"

text \<open>The share of a processor used since the last sample, in percent.\<close>

definition cpu_percent :: "CpuSample \<Rightarrow> MonitorStats \<Rightarrow> u64 \<Rightarrow> rat option" where
  "cpu_percent prev stats now =
     (let delta_cpu = stats_cpu_seconds stats - sample_cpu_seconds prev;
          delta_wall = of_nat (unat (now - wall_ns prev)) / 1000000000 in
      if delta_wall > 0 \<and> delta_cpu \<ge> 0 then Some (delta_cpu / delta_wall * 100) else None)"

definition watch_hint :: "u32 \<Rightarrow> string" where
  "watch_hint sec = ''[hint] watching every '' @ show_uint sec @ ''s; press Ctrl+C to stop'' @ nl"

definition watch_line :: "u32 \<Rightarrow> string" where
  "watch_line sec = ''[watch] interval='' @ show_uint sec @ ''s (Ctrl+C to stop)'' @ nl"

definition watch_usage :: string where
  "watch_usage = ''[error] usage: stats --watch <sec> [id]'' @ nl @ nl"

text \<open>
  One round of \<^verbatim>\<open>container_stats_watch\<close>: the value it returns, or the sample it goes on with.
\<close>

definition watch_round ::
    "'k host \<Rightarrow> string \<Rightarrow> u32 \<Rightarrow> CpuSample option \<Rightarrow> ('k world, int + CpuSample) prog" where
  "watch_round H i sec prev =
     chain (container_consume_interrupt H) (\<lambda>interrupted.
       if interrupted then saying nl (Inl 0)
       else
         chain (poll_states H) (\<lambda>_.
         chain (gets (\<lambda>w. find_container i (containers w))) (\<lambda>found. case found of
           None \<Rightarrow> saying (nl @ not_found i) (Inl (-1))
         | Some k \<Rightarrow>
             chain (the_container k) (\<lambda>c.
               if \<not> running c then saying (nl @ ''[manager] '' @ id c @ '' is not running'' @ nl @ nl) (Inl (-1))
               else
                 chain (read_stats H (pid c)) (\<lambda>r. case r of
                   None \<Rightarrow> saying (nl @ stats_unreadable c) (Inl (-1))
                 | Some stats \<Rightarrow>
                     chain (monotonic_ns H) (\<lambda>now.
                     let pct = (case prev of None \<Rightarrow> None
                       | Some s \<Rightarrow> if sample_pid s = stats_pid stats then cpu_percent s stats now else None) in
                     chain (clear_screen_if_tty H) (\<lambda>_.
                     chain (emit (watch_line sec @ print_stats_header @ print_stats_row c stats pct @
                       print_stats_footer @ nl)) (\<lambda>_.
                     chain (sleep_interval H sec) (\<lambda>_.
                       succeed (Inr \<lparr>sample_pid = stats_pid stats, sample_cpu_seconds = stats_cpu_seconds stats,
                         wall_ns = now\<rparr>))))))))))"

partial_function (option) watch_loop ::
    "'k host \<Rightarrow> string \<Rightarrow> u32 \<Rightarrow> CpuSample option \<Rightarrow> ('k world, int) prog" where
  "watch_loop H i sec prev w = chain (watch_round H i sec prev) (\<lambda>r. case r of
     Inl rc \<Rightarrow> succeed rc
   | Inr s \<Rightarrow> watch_loop H i sec (Some s)) w"

definition container_stats_watch :: "'k host \<Rightarrow> string \<Rightarrow> u32 \<Rightarrow> ('k world, int) prog" where
  "container_stats_watch H i sec =
     (if sec = 0 then saying watch_usage (-1)
      else chain (emit (watch_hint sec)) (\<lambda>_. watch_loop H i sec None))"

text \<open>The samples of all containers, with the capacity of their array.\<close>

fun watch_rows ::
    "'k host \<Rightarrow> u64 \<Rightarrow> Container list \<Rightarrow> CpuSample list \<Rightarrow> nat \<Rightarrow> bool
     \<Rightarrow> ('k world, (CpuSample list \<times> nat \<times> bool) option) prog" where
  "watch_rows H now [] prev prev_capacity any = succeed (Some (prev, prev_capacity, any))"
| "watch_rows H now (c # cs) prev prev_capacity any =
     (if \<not> running c then watch_rows H now cs prev prev_capacity any
      else
        chain (read_stats H (pid c)) (\<lambda>r. case r of
          None \<Rightarrow> watch_rows H now cs prev prev_capacity any
        | Some stats \<Rightarrow>
            (case find_sample prev (stats_pid stats) of
               Some k \<Rightarrow>
                 chain (emit (print_stats_row c stats (cpu_percent (prev ! k) stats now))) (\<lambda>_.
                   watch_rows H now cs
                     (prev[k := (prev ! k)\<lparr>sample_cpu_seconds := stats_cpu_seconds stats, wall_ns := now\<rparr>])
                     prev_capacity True)
             | None \<Rightarrow>
                 let full = (length prev = prev_capacity);
                     next_capacity = (if prev_capacity = 0 then 8 else prev_capacity * 2) in
                 chain (if full then kquery (sys_malloc (procs H) (next_capacity * SIZEOF_CPUSAMPLE)) else succeed True) (\<lambda>ok.
                   if \<not> ok then saying (nl @ ''[error] out of memory'' @ nl @ nl) None
                   else
                     chain (emit (print_stats_row c stats None)) (\<lambda>_.
                       watch_rows H now cs
                         (prev @ [\<lparr>sample_pid = stats_pid stats, sample_cpu_seconds = stats_cpu_seconds stats,
                           wall_ns = now\<rparr>])
                         (if full then next_capacity else prev_capacity) True)))))"

definition watch_all_round ::
    "'k host \<Rightarrow> u32 \<Rightarrow> CpuSample list \<Rightarrow> nat \<Rightarrow> ('k world, int + (CpuSample list \<times> nat)) prog" where
  "watch_all_round H sec prev prev_capacity =
     chain (container_consume_interrupt H) (\<lambda>interrupted.
       if interrupted then saying nl (Inl 0)
       else
         chain (monotonic_ns H) (\<lambda>now.
         chain (poll_states H) (\<lambda>_.
         chain (clear_screen_if_tty H) (\<lambda>_.
         chain (emit (watch_line sec @ print_stats_header)) (\<lambda>_.
         chain (gets containers) (\<lambda>cs.
         chain (watch_rows H now cs prev prev_capacity False) (\<lambda>r. case r of
           None \<Rightarrow> succeed (Inl (-1))
         | Some (prev1, prev_capacity1, any) \<Rightarrow>
             chain (emit (stats_end any)) (\<lambda>_.
             chain (sleep_interval H sec) (\<lambda>_. succeed (Inr (prev1, prev_capacity1)))))))))))"

partial_function (option) watch_all_loop ::
    "'k host \<Rightarrow> u32 \<Rightarrow> CpuSample list \<Rightarrow> nat \<Rightarrow> ('k world, int) prog" where
  "watch_all_loop H sec prev prev_capacity w = chain (watch_all_round H sec prev prev_capacity) (\<lambda>r. case r of
     Inl rc \<Rightarrow> succeed rc
   | Inr s \<Rightarrow> watch_all_loop H sec (fst s) (snd s)) w"

definition container_stats_all_watch :: "'k host \<Rightarrow> u32 \<Rightarrow> ('k world, int) prog" where
  "container_stats_all_watch H sec =
     (if sec = 0 then saying watch_usage (-1)
      else chain (emit (watch_hint sec)) (\<lambda>_. watch_all_loop H sec [] 0))"

section \<open>Exit\<close>

fun stop_each :: "'k host \<Rightarrow> nat list \<Rightarrow> ('k world, unit) prog" where
  "stop_each H [] = succeed ()"
| "stop_each H (i # is) =
     chain (the_container i) (\<lambda>c.
     chain (if state c = STATE_RUNNING then chain (stop_container_process H i True) (\<lambda>_. succeed ()) else succeed ()) (\<lambda>_.
       stop_each H is))"

definition cleanup_all_containers :: "'k host \<Rightarrow> ('k world, unit) prog" where
  "cleanup_all_containers H =
     chain (poll_states H) (\<lambda>_.
     chain (gets (\<lambda>w. [0..<length (containers w)])) (\<lambda>is.
     chain (stop_each H is) (\<lambda>_.
     chain (save_metadata H) (\<lambda>_.
       modify (\<lambda>w. w\<lparr>containers := [], sched := scheduler_stop (sched w)\<rparr>)))))"

end
