(* ===== verification/Cli.thy ===== *)
theory Cli
  imports Manager_Commands
begin

text \<open>
  The interactive command line: \<^verbatim>\<open>src/main.c\<close>. A line of input is split into arguments, the first
  of which selects the command; every command calls the container manager, the scheduler or the
  logger. The loop ends with the command \<^verbatim>\<open>exit\<close> or with the input, so it is a partial function.
\<close>

section \<open>Reading a command line\<close>

definition blank :: "char \<Rightarrow> bool" where
  "blank c \<longleftrightarrow> c = CHR '' '' \<or> c = CHR 0x09"

definition is_quote :: "char \<Rightarrow> bool" where
  "is_quote c \<longleftrightarrow> c = CHR 0x22 \<or> c = CHR 0x27"

text \<open>At most \<open>max_args\<close> arguments; the rest of the line is dropped.\<close>

fun parse_command :: "string \<Rightarrow> nat \<Rightarrow> string list" where
  "parse_command line 0 = []"
| "parse_command line (Suc max_args) = (case dropWhile blank line of
     [] \<Rightarrow> []
   | c # r \<Rightarrow>
       if is_quote c then takeWhile (\<lambda>x. x \<noteq> c) r # parse_command (tl (dropWhile (\<lambda>x. x \<noteq> c) r)) max_args
       else takeWhile (\<lambda>x. \<not> blank x) (c # r) # parse_command (tl (dropWhile (\<lambda>x. \<not> blank x) (c # r))) max_args)"

text \<open>
  The arguments after the flags and the limits, \<^const>\<open>None\<close> for an unknown flag or a flag without a
  value. The position \<^verbatim>\<open>*index\<close> is what is left of the arguments.
\<close>

fun parse_limit_flags :: "string list \<Rightarrow> ResourceConfig \<Rightarrow> (string list \<times> ResourceConfig) option" where
  "parse_limit_flags [] limits = Some ([], limits)"
| "parse_limit_flags (flag # rest) limits =
     (if take 2 flag \<noteq> ''--'' then Some (flag # rest, limits)
      else (case rest of
          [] \<Rightarrow> None
        | v # rest' \<Rightarrow>
            let n = cast_uint (strtoul v) in
            if flag = ''--cpu'' then parse_limit_flags rest' (limits\<lparr>cpu_seconds := n\<rparr>)
            else if flag = ''--mem'' then parse_limit_flags rest' (limits\<lparr>memory_mb := n\<rparr>)
            else if flag = ''--pids'' then parse_limit_flags rest' (limits\<lparr>max_processes := n\<rparr>)
            else None))"

text \<open>
  The loop that joins the command's words in a buffer of \<open>room\<close> bytes, \<^const>\<open>None\<close> when they do
  not fit; \<open>acc\<close> is the text written so far.
\<close>

fun join_words :: "nat \<Rightarrow> bool \<Rightarrow> string list \<Rightarrow> string \<Rightarrow> string option" where
  "join_words room first [] acc = Some acc"
| "join_words room first (a # as) acc =
     (let piece = (if first then [] else '' '') @ a in
      if length piece \<ge> room - length acc then None else join_words room False as (acc @ piece))"

section \<open>What is printed\<close>

definition print_scheduler_status :: "SchedulerState \<Rightarrow> string" where
  "print_scheduler_status s =
     nl @ print_full_border box_tl INFO_INNER_WIDTH box_tr @
     print_full_row INFO_INNER_WIDTH (Some ''Scheduler Status'') @
     print_split_border INFO_KEY_WIDTH INFO_VALUE_WIDTH box_vr box_ht box_vl @
     print_info_row ''mode'' (snprintf 32 (''mode='' @ (if scheduler_is_enabled s then ''enabled'' else ''disabled''))) @
     print_info_row ''slice'' (snprintf 32 (''slice='' @ show_uint (scheduler_get_time_slice_ms s) @ ''ms'')) @
     print_info_row ''profile'' (snprintf 96 (''profile='' @ scheduler_profile)) @
     print_split_border INFO_KEY_WIDTH INFO_VALUE_WIDTH box_bl box_hb box_br @ nl"

definition print_banner :: string where
  "print_banner =
     (let bar = concat (replicate 54 [CHR 0xE2, CHR 0x95, CHR 0x90]); side = [CHR 0xE2, CHR 0x95, CHR 0x91] in
      [CHR 0xE2, CHR 0x95, CHR 0x94] @ bar @ [CHR 0xE2, CHR 0x95, CHR 0x97] @ nl @
      side @ ''         Container Internals Simulator                '' @ side @ nl @
      side @ ''         Runtime + Isolation + Monitoring             '' @ side @ nl @
      side @ ''         NS | FS | Limits | Sched | Netns | Logs      '' @ side @ nl @
      [CHR 0xE2, CHR 0x95, CHR 0x9A] @ bar @ [CHR 0xE2, CHR 0x95, CHR 0x9D] @ nl @ nl)"

definition help_cross :: string where
  "help_cross = print_split_border HELP_CMD_WIDTH HELP_DESC_WIDTH box_vr box_x box_vl"

definition help_section :: "string \<Rightarrow> string" where
  "help_section title = print_help_section_row title @ help_cross"

definition print_help :: string where
  "print_help =
     print_full_border box_tl HELP_INNER_WIDTH box_tr @
     print_full_row HELP_INNER_WIDTH (Some ''Command Reference'') @
     print_split_border HELP_CMD_WIDTH HELP_DESC_WIDTH box_vr box_ht box_vl @
     print_help_row ''Command'' ''What it does'' @ help_cross @
     help_section ''Lifecycle'' @
     print_help_row ''run [flags] <name> <host> <rootfs> <cmd...>'' ''Run a container in the foreground.'' @
     print_help_row ''runbg [flags] <name> <host> <rootfs> <cmd...>'' ''Run a container in the background.'' @
     print_help_row ''create [flags] [name] [host] [rootfs]'' ''Create a container record without starting it.'' @
     print_help_row ''start <id> | stop <id> | delete <id>'' ''Control a created or running container.'' @
     print_help_row ''list'' ''Show the container inventory table.'' @ help_cross @
     help_section ''Scheduling'' @
     print_help_row ''sched on | off | status'' ''Toggle the round-robin scheduler or inspect it.'' @
     print_help_row ''sched slice <ms>'' ''Set the scheduler time slice in milliseconds.'' @ help_cross @
     help_section ''Observability'' @
     print_help_row ''logs [-f] [-n N] [id]'' ''View all logs or filter by container id.'' @
     print_help_row ''stats'' ''Show stats for every running container.'' @
     print_help_row ''stats <id>'' ''Show stats for one running container.'' @
     print_help_row ''stats --watch <sec> [id]'' ''Refresh stats live until you press Ctrl+C.'' @ help_cross @
     help_section ''General'' @
     print_help_row ''--cpu SEC | --mem MB | --pids N'' ''Optional limit flags for run, runbg, and create.'' @
     print_help_row ''quoted arguments'' ''Use quotes when command arguments contain spaces.'' @
     print_help_row ''help | exit'' ''Show this table or leave the simulator.'' @
     print_split_border HELP_CMD_WIDTH HELP_DESC_WIDTH box_bl box_hb box_br @ nl"

section \<open>Commands\<close>

definition usage :: "string \<Rightarrow> ('k world, unit) prog" where
  "usage s = emit (''[error] usage: '' @ s @ nl @ nl)"

text \<open>A call whose return value is ignored.\<close>

definition ignoring :: "('k world, 'a) prog \<Rightarrow> ('k world, unit) prog" where
  "ignoring m = chain m (\<lambda>_. succeed ())"

definition run_usage :: "string \<Rightarrow> string" where
  "run_usage cmd = cmd @ '' [--cpu SEC] [--mem MB] [--pids N] <name> <hostname> <rootfs> <command> [args...]''"

definition cmd_run :: "'k host \<Rightarrow> string \<Rightarrow> string list \<Rightarrow> ('k world, unit) prog" where
  "cmd_run H cmd args = (case parse_limit_flags args no_limits of
     None \<Rightarrow> usage (run_usage cmd)
   | Some (rest, limits) \<Rightarrow>
       if length rest < 4 then usage (run_usage cmd)
       else (case join_words CONTAINER_COMMAND_LEN True (drop 3 rest) [] of
           None \<Rightarrow> emit (''[error] command is too long'' @ nl @ nl)
         | Some line \<Rightarrow>
             let spec = \<lparr>spec_name = Some (rest ! 0), spec_hostname = Some (rest ! 1), spec_rootfs = Some (rest ! 2),
                   spec_command_line = Some line, spec_resource_limits = limits\<rparr> in
             if cmd = ''runbg'' then
               chain (container_run_background H (Some spec)) (\<lambda>(rc, i).
                 if rc = 0 then emit (''[hint] runtime workload running in background as '' @ i @ nl @ nl) else succeed ())
             else
               chain (container_run H (Some spec)) (\<lambda>(rc, i).
                 if rc = 0 then emit (''[hint] runtime workload completed in '' @ i @ nl @ nl) else succeed ())))"

definition create_usage :: string where
  "create_usage = ''create [--cpu SEC] [--mem MB] [--pids N] [name] [hostname] [rootfs]''"

definition arg_at :: "string list \<Rightarrow> nat \<Rightarrow> string option" where
  "arg_at args i = (if i < length args then Some (args ! i) else None)"

definition cmd_create :: "'k host \<Rightarrow> string list \<Rightarrow> ('k world, unit) prog" where
  "cmd_create H args = (case parse_limit_flags args no_limits of
     None \<Rightarrow> usage create_usage
   | Some (rest, limits) \<Rightarrow>
       if length rest > 3 then usage create_usage
       else
         chain (container_create H (Some \<lparr>spec_name = arg_at rest 0, spec_hostname = arg_at rest 1,
             spec_rootfs = arg_at rest 2, spec_command_line = None, spec_resource_limits = limits\<rparr>)) (\<lambda>created.
         case created of
           None \<Rightarrow> succeed ()
         | Some i \<Rightarrow> emit (''[hint] start it with: start '' @ i @ nl @ nl)))"

definition slice_text :: "SchedulerState \<Rightarrow> string" where
  "slice_text s = show_uint (scheduler_get_time_slice_ms s)"

definition sched_on :: "'k host \<Rightarrow> ('k world, unit) prog" where
  "sched_on H =
     chain (gets (\<lambda>w. thread_started (sched w))) (\<lambda>started.
     chain (if started then succeed True else kquery (sys_pthread_create H)) (\<lambda>create_ok.
     chain (gets (\<lambda>w. let ms = scheduler_get_time_slice_ms (sched w) in
       scheduler_start create_ok (Some (if ms = 0 then 200 else ms)) (sched w))) (\<lambda>(r, s).
     chain (modify (\<lambda>w. w\<lparr>sched := s\<rparr>)) (\<lambda>_. case r of
       Inl _ \<Rightarrow> emit (''[error] failed to start scheduler'' @ nl @ nl)
     | Inr _ \<Rightarrow>
         chain (modify (\<lambda>w. w\<lparr>sched := scheduler_set_enabled True (sched w)\<rparr>)) (\<lambda>_.
         chain (container_scheduler_refresh_targets H) (\<lambda>_.
         chain (gets sched) (\<lambda>s1.
         chain (emit (''[manager] scheduler enabled ('' @ scheduler_profile @ '', slice='' @ slice_text s1 @ ''ms)'' @ nl @ nl)) (\<lambda>_.
           log_world H ''SCHEDULER_ENABLED'' (''profile='' @ scheduler_profile @ '' slice='' @ slice_text s1 @ ''ms'')))))))))"

definition sched_off :: "'k host \<Rightarrow> ('k world, unit) prog" where
  "sched_off H =
     chain (modify (\<lambda>w. w\<lparr>sched := scheduler_set_enabled False (sched w)\<rparr>)) (\<lambda>_.
     chain (container_scheduler_refresh_targets H) (\<lambda>_.
     chain (emit (''[manager] scheduler disabled'' @ nl @ nl)) (\<lambda>_.
       log_world H ''SCHEDULER_DISABLED'' ''scheduler disabled'')))"

definition sched_slice :: "'k host \<Rightarrow> string \<Rightarrow> ('k world, unit) prog" where
  "sched_slice H v =
     chain (gets (\<lambda>w. scheduler_set_time_slice_ms (cast_uint (strtoul v)) (sched w))) (\<lambda>(r, s).
     chain (modify (\<lambda>w. w\<lparr>sched := s\<rparr>)) (\<lambda>_. case r of
       Inl _ \<Rightarrow> emit (''[error] invalid time slice'' @ nl @ nl)
     | Inr _ \<Rightarrow>
         chain (emit (''[manager] scheduler slice set to '' @ slice_text s @ ''ms'' @ nl @ nl)) (\<lambda>_.
           log_world H ''SCHEDULER_UPDATED'' (''time_slice_ms='' @ slice_text s))))"

definition cmd_sched :: "'k host \<Rightarrow> string list \<Rightarrow> ('k world, unit) prog" where
  "cmd_sched H args = (case args of
     [] \<Rightarrow> usage ''sched on|off|slice <ms>|status''
   | a # rest \<Rightarrow>
       if a = ''on'' then sched_on H
       else if a = ''off'' then sched_off H
       else if a = ''slice'' then (if length rest \<noteq> 1 then usage ''sched slice <ms>'' else sched_slice H (hd rest))
       else if a = ''status'' then chain (gets sched) (\<lambda>s. emit (print_scheduler_status s))
       else usage ''sched on|off|slice <ms>|status'')"

text \<open>The options of \<^verbatim>\<open>logs\<close>: the container, whether to follow, and the number of lines.\<close>

function logs_options :: "string list \<Rightarrow> string option \<Rightarrow> bool \<Rightarrow> int \<Rightarrow> (string option \<times> bool \<times> int) option" where
  "logs_options [] cid flw n = Some (cid, flw, n)"
| "logs_options (a # rest) cid flw n =
     (if a = ''-f'' \<or> a = ''--follow'' then logs_options rest cid True n
      else if (a = ''-n'' \<or> a = ''--tail'') \<and> rest \<noteq> [] then
        logs_options (tl rest) cid flw (cast_int (strtol (hd rest)))
      else if cid = None then logs_options rest (Some a) flw n
      else None)"
  by pat_completeness auto
termination
proof (relation "measure (\<lambda>(args, cid, flw, n). length args)", goal_cases)
  case (3 a rest cid flw n)
  then show ?case by (cases rest) simp_all
qed simp_all

text \<open>An interrupt that is already pending is seen in the first round.\<close>

definition pending_tick :: "bool \<Rightarrow> tick list \<Rightarrow> tick list" where
  "pending_tick b ticks = (case ticks of
     [] \<Rightarrow> [] | t # ts \<Rightarrow> t\<lparr>tick_interrupt := tick_interrupt t \<or> b\<rparr> # ts)"

definition follow_world :: "'k host \<Rightarrow> (nat \<Rightarrow> bool) \<Rightarrow> string option \<Rightarrow> int \<Rightarrow> ('k world, unit) prog" where
  "follow_world H alloc cid n =
     chain (kquery (sys_follow H)) (\<lambda>(seek, ticks) w.
       case logger_follow alloc seek (log_file w) cid n (pending_tick (interrupt_requested w) ticks) of
         (None, _) \<Rightarrow> None
       | (Some rc, shown) \<Rightarrow>
           Some (Inr (), w\<lparr>out := out w @ shown, interrupt_requested := (interrupt_requested w \<and> rc \<noteq> 0)\<rparr>))"

definition cmd_logs :: "'k host \<Rightarrow> string list \<Rightarrow> ('k world, unit) prog" where
  "cmd_logs H args = (case logs_options args None False (-1) of
     None \<Rightarrow> usage ''logs [-f] [-n N] [id]''
   | Some (cid, flw, n) \<Rightarrow>
       chain (kquery (sys_allocator H)) (\<lambda>alloc.
         if flw then follow_world H alloc cid n
         else if n \<ge> 0 then chain (gets (\<lambda>w. snd (logger_tail alloc (log_file w) cid n))) emit
         else chain (gets (\<lambda>w. snd (logger_print alloc (log_file w) cid))) emit))"

definition cmd_stats :: "'k host \<Rightarrow> string list \<Rightarrow> ('k world, unit) prog" where
  "cmd_stats H args =
     (if length args = 0 then ignoring (container_stats_all H)
      else if length args = 1 then ignoring (container_stats H (Some (args ! 0)))
      else if length args = 2 \<and> args ! 0 = ''--watch'' then
        ignoring (container_stats_all_watch H (cast_uint (strtoul (args ! 1))))
      else if length args = 3 \<and> args ! 0 = ''--watch'' then
        ignoring (container_stats_watch H (args ! 2) (cast_uint (strtoul (args ! 1))))
      else usage ''stats [id] | stats --watch <sec> [id]'')"

definition with_id :: "string \<Rightarrow> string list \<Rightarrow> (string option \<Rightarrow> ('k world, int) prog) \<Rightarrow> ('k world, unit) prog" where
  "with_id cmd args f = (if length args \<noteq> 1 then usage (cmd @ '' <id>'') else ignoring (f (Some (hd args))))"

text \<open>One command; the result says whether the loop goes on.\<close>

definition going_on :: "('k world, unit) prog \<Rightarrow> ('k world, bool) prog" where
  "going_on m = chain m (\<lambda>_. succeed True)"

definition execute :: "'k host \<Rightarrow> string \<Rightarrow> string list \<Rightarrow> ('k world, bool) prog" where
  "execute H cmd args =
     (if cmd = ''run'' \<or> cmd = ''runbg'' then going_on (cmd_run H cmd args)
      else if cmd = ''create'' then going_on (cmd_create H args)
      else if cmd = ''sched'' then going_on (cmd_sched H args)
      else if cmd = ''start'' then going_on (with_id cmd args (container_start H))
      else if cmd = ''stop'' then going_on (with_id cmd args (container_stop H))
      else if cmd = ''delete'' then going_on (with_id cmd args (container_delete H))
      else if cmd = ''list'' then going_on (if args \<noteq> [] then usage ''list'' else ignoring (container_list H))
      else if cmd = ''logs'' then going_on (cmd_logs H args)
      else if cmd = ''stats'' then going_on (cmd_stats H args)
      else if cmd = ''help'' then going_on (emit print_help)
      else if cmd = ''exit'' then
        chain (cleanup_all_containers H) (\<lambda>_.
        chain (log_world H ''SIMULATOR_STOPPED'' ''CLI stopped by user command'') (\<lambda>_.
        chain (emit (''bye.'' @ nl)) (\<lambda>_. succeed False)))
      else
        going_on (chain (emit (''[error] unknown command: '' @ [CHR 0x27] @ cmd @ [CHR 0x27] @ nl @ nl)) (\<lambda>_.
          log_world H ''ERROR'' (''unknown command '' @ [CHR 0x27] @ cmd @ [CHR 0x27]))))"

section \<open>The loop\<close>

definition command_of :: "string \<Rightarrow> string list" where
  "command_of line = parse_command (takeWhile (\<lambda>c. c \<noteq> CHR 0x00 \<and> c \<noteq> CHR 0x0A) line) 32"

definition prompt :: "'k host \<Rightarrow> ('k world, bool) prog" where
  "prompt H =
     chain (emit ''container-sim> '') (\<lambda>_.
     attempt (kcall (sys_stdin H 256)) (\<lambda>r. case r of
       Inl e \<Rightarrow>
         chain (if e = EINTR then succeed True else container_consume_interrupt H) (\<lambda>interrupted.
           if interrupted then saying nl True
           else
             chain (emit nl) (\<lambda>_.
             chain (cleanup_all_containers H) (\<lambda>_.
             chain (log_world H ''SIMULATOR_STOPPED'' ''CLI stopped after input closed'') (\<lambda>_. succeed False))))
     | Inr line \<Rightarrow> (case command_of line of
           [] \<Rightarrow> succeed True
         | cmd # args \<Rightarrow> execute H cmd args)))"

partial_function (option) main_loop :: "'k host \<Rightarrow> ('k world, int) prog" where
  "main_loop H w = chain (prompt H) (\<lambda>go. if go then main_loop H else succeed 0) w"

definition main :: "'k host \<Rightarrow> ('k world, int) prog" where
  "main H =
     chain (container_manager_init H) (\<lambda>rc.
       if rc \<noteq> 0 then succeed 1
       else
         chain (emit (print_banner @ print_help)) (\<lambda>_.
         chain (log_world H ''SIMULATOR_STARTED'' ''interactive CLI started'') (\<lambda>_. main_loop H)))"

definition initial_world :: "string option \<Rightarrow> 'k \<Rightarrow> 'k world" where
  "initial_world logged k = \<lparr>containers = [], next_sequence = 1, interrupt_requested = False, sched = g_state,
     out = [], log_file = logged, kern = k\<rparr>"

end
