(* ===== verification/Manager_Inv.thy ===== *)
theory Manager_Inv
  imports Cli
begin

text \<open>
  The invariant of the manager and its preservation by every command. A container's texts fit
  their buffers, a running container has a process, only a running container holds a child stack,
  and the scheduler's invariant holds.
\<close>

section \<open>Values a program may return\<close>

definition yields :: "('a \<Rightarrow> bool) \<Rightarrow> ('k, 'a) prog \<Rightarrow> bool" where
  "yields V m \<longleftrightarrow> post (\<lambda>_. True) m (\<lambda>r _. \<forall>x. r = Inr x \<longrightarrow> V x)"

named_theorems yields_intro \<open>structural rules for the values of programs\<close>

lemma yields_succeed [yields_intro]: "V x \<Longrightarrow> yields V (succeed x)"
  by (simp add: yields_def post_def)

lemma yields_fail [yields_intro]: "yields V (fail e)"
  by (simp add: yields_def post_def)

lemma yields_chain [yields_intro]: "(\<And>x. yields V (f x)) \<Longrightarrow> yields V (chain m f)"
  unfolding yields_def post_def by (blast elim: chainE)

lemma yields_attempt [yields_intro]: "(\<And>r. yields V (f r)) \<Longrightarrow> yields V (attempt m f)"
  unfolding yields_def post_def by (blast elim: attemptE)

lemma yields_attempt_value:
  "yields U m \<Longrightarrow> (\<And>e. yields V (f (Inl e))) \<Longrightarrow> (\<And>x. U x \<Longrightarrow> yields V (f (Inr x))) \<Longrightarrow> yields V (attempt m f)"
  unfolding yields_def
  by (rule post_attempt [where R = "\<lambda>r _. \<forall>x. r = Inr x \<longrightarrow> U x"]) (auto simp: post_def split: sum.splits, metis sum.exhaust)

lemma yields_andthen [yields_intro]: "yields V m \<Longrightarrow> yields V (andthen m c)"
  unfolding yields_def post_def by (blast elim: andthenE)

lemma yields_if [yields_intro]: "(b \<Longrightarrow> yields V m) \<Longrightarrow> (\<not> b \<Longrightarrow> yields V n) \<Longrightarrow> yields V (if b then m else n)"
  by simp

lemma yields_case_sum [yields_intro]:
  "(\<And>e. yields V (f e)) \<Longrightarrow> (\<And>x. yields V (g x)) \<Longrightarrow> yields V (case r of Inl e \<Rightarrow> f e | Inr x \<Rightarrow> g x)"
  by (cases r) auto

lemma yields_case_prod [yields_intro]: "(\<And>a b. yields V (f a b)) \<Longrightarrow> yields V (case x of (a, b) \<Rightarrow> f a b)"
  by (cases x) auto

lemma yields_Let [yields_intro]: "yields V (f t) \<Longrightarrow> yields V (Let t f)"
  by simp

lemma yields_of_result: "(\<And>x. r = Inr x \<Longrightarrow> V x) \<Longrightarrow> yields V (of_result r)"
  by (cases r) (auto simp: of_result_def yields_def post_def)

lemma prepare_rootfs_fits: "yields (\<lambda>p. length p < n) (filesystem_prepare_rootfs fs req n)"
  unfolding filesystem_prepare_rootfs_def
  by (cases req) (auto intro!: yields_intro yields_of_result simp: path_fits_def split: if_splits)

text \<open>\<^verbatim>\<open>clone\<close> answers the positive pid of the child.\<close>

definition clone_contract :: "'k clone_op \<Rightarrow> bool" where
  "clone_contract clone \<longleftrightarrow> (\<forall>fl a. yields (\<lambda>p. 0 < p \<and> p \<le> INT_MAX) (call (clone fl a)))"

lemma await_child_pid: "yields (\<lambda>x. host_pid x = p) (await_child fs ps p s0 x0 c1)"
  unfolding await_child_def await_status_def await_exec_def by (intro yields_intro) simp

lemma started_pid:
  assumes "clone_contract clone"
  shows "yields (\<lambda>x. 0 < host_pid x \<and> host_pid x \<le> INT_MAX)
    (namespace_start_container fs ps clone config given_stack n)"
proof -
  have child: "yields (\<lambda>x. 0 < host_pid x \<and> host_pid x \<le> INT_MAX) (await_child fs ps p s0 x0 c1)"
    if "0 < p \<and> p \<le> INT_MAX" for p s0 x0 c1
    using await_child_pid [of p fs ps s0 x0 c1] that by (auto simp: yields_def post_def)
  have clone: "yields (\<lambda>p. 0 < p \<and> p \<le> INT_MAX) (call (clone fl a))" for fl a
    using assms by (simp add: clone_contract_def)
  show ?thesis
  proof (cases config)
    case (Some c)
    have step: "yields V (attempt m (\<lambda>r. case r of Inl e \<Rightarrow> andthen (fail e) (g e) | Inr x \<Rightarrow> f x))"
      if "\<And>x. yields V (f x)" for V :: "'c \<Rightarrow> bool" and m :: "('d, 'e) prog" and g :: "errno \<Rightarrow> ('d, 'g) prog" and f
      by (intro yields_intro that)
    show ?thesis
      unfolding namespace_start_container_def Some option.case
      by (rule yields_if, rule yields_fail, rule yields_chain, rule yields_case_prod,
        rule step, rule yields_case_prod, rule step, rule step, rule yields_case_prod,
        rule yields_attempt_value [OF clone], simp only: sum.case, rule yields_andthen, rule yields_fail,
        simp only: sum.case, rule yields_chain, rule child, assumption)
  qed (simp add: namespace_start_container_def yields_fail)
qed

section \<open>Assertions about the manager's own state\<close>

text \<open>An assertion that depends on the containers, the sequence and the scheduler only.\<close>

definition frame :: "('k world \<Rightarrow> bool) \<Rightarrow> bool" where
  "frame P \<longleftrightarrow> (\<forall>w k. P w \<longrightarrow> P (w\<lparr>kern := k\<rparr>)) \<and> (\<forall>w s. P w \<longrightarrow> P (w\<lparr>out := s\<rparr>))
     \<and> (\<forall>w l. P w \<longrightarrow> P (w\<lparr>log_file := l\<rparr>)) \<and> (\<forall>w b. P w \<longrightarrow> P (w\<lparr>interrupt_requested := b\<rparr>))"

lemma frameD:
  assumes "frame P"
  shows "P w \<Longrightarrow> P (w\<lparr>kern := k\<rparr>)" "P w \<Longrightarrow> P (w\<lparr>out := s\<rparr>)" "P w \<Longrightarrow> P (w\<lparr>log_file := l\<rparr>)"
    "P w \<Longrightarrow> P (w\<lparr>interrupt_requested := b\<rparr>)"
  using assms by (simp_all add: frame_def)

lemma frame_on_kernel: "frame P \<Longrightarrow> keeps P (on_kernel m)"
  by (auto simp: post_def on_kernel_def frame_def)

lemma frame_on_kernel_value:
  "frame P \<Longrightarrow> yields V m \<Longrightarrow> post P (on_kernel m) (\<lambda>r w. P w \<and> (\<forall>x. r = Inr x \<longrightarrow> V x))"
  by (auto simp: frame_def yields_def post_def on_kernel_def)

text \<open>Programs that always succeed.\<close>

definition sure :: "('k \<Rightarrow> bool) \<Rightarrow> ('k, 'a) prog \<Rightarrow> bool" where
  "sure P m \<longleftrightarrow> post P m (\<lambda>r k. (\<exists>x. r = Inr x) \<and> P k)"

lemma chain_sure: "sure P m \<Longrightarrow> (\<And>x. post P (f x) Q) \<Longrightarrow> post P (chain m f) Q"
  unfolding sure_def by (erule post_chain) (auto simp: post_def)

lemma sure_query: "frame P \<Longrightarrow> sure P (kquery m)"
  by (auto simp: sure_def post_def on_kernel_def query_def frame_def split: prod.splits)

lemma sure_emit: "frame P \<Longrightarrow> sure P (emit s)"
  by (auto simp: sure_def post_def emit_def frame_def)

lemma sure_log:
  assumes "frame P" shows "sure P (log_world H ty msg)"
  unfolding log_world_def sure_def
  by (rule chain_sure [OF sure_query [OF assms]], rule chain_sure)
     (use assms in \<open>auto simp: sure_query sure_def [of _ "succeed _"] post_def frame_def\<close>)

lemma frame_modify:
  assumes "frame P"
  shows "keeps P (modify (\<lambda>w. w\<lparr>out := f w\<rparr>))" "keeps P (modify (\<lambda>w. w\<lparr>log_file := g w\<rparr>))"
    "keeps P (modify (\<lambda>w. w\<lparr>interrupt_requested := h w\<rparr>))" "keeps P (modify container_request_interrupt)"
  using frameD [OF assms] by (auto simp: post_def container_request_interrupt_def)

lemma frame_emit: "frame P \<Longrightarrow> keeps P (emit s)"
  unfolding emit_def by (rule frame_modify)

lemma frame_saying: "frame P \<Longrightarrow> keeps P (saying s x)"
  unfolding saying_def by (intro post_intro frame_emit)

lemma frame_log: "frame P \<Longrightarrow> keeps P (log_world H ty msg)"
  unfolding log_world_def by (intro post_intro frame_on_kernel frame_modify)

lemmas frame_keeps = frame_on_kernel frame_modify frame_emit frame_saying frame_log keeps_gets

lemma frame_write_lines: "frame P \<Longrightarrow> keeps P (write_lines H file cs)"
  by (induction cs) (auto intro!: post_intro frame_on_kernel)

lemma frame_save: "frame P \<Longrightarrow> keeps P (save_metadata H)"
  unfolding save_metadata_def save_failed_def
  by (intro post_intro frame_keeps frame_write_lines)

lemma frame_exit_status: "frame P \<Longrightarrow> keeps P (log_container_exit_status H i pre status)"
  unfolding log_container_exit_status_def by (intro post_intro frame_log)

lemma frame_alive: "frame P \<Longrightarrow> keeps P (is_pid_alive H p)"
  unfolding is_pid_alive_def by (intro post_intro frame_on_kernel)

lemma frame_consume: "frame P \<Longrightarrow> keeps P (container_consume_interrupt H)"
  unfolding container_consume_interrupt_def deliver_sigint_def by (intro post_intro frame_keeps)

lemma frame_terminal: "frame P \<Longrightarrow> keeps P (move_terminal_foreground H e p)"
  unfolding move_terminal_foreground_def by (intro post_intro frame_on_kernel)

lemma frame_kill_each: "frame P \<Longrightarrow> keeps P (kill_each H sig ps)"
  by (induction ps) (auto intro!: post_intro frame_on_kernel)

lemma frame_stats: "frame P \<Longrightarrow> keeps P (read_stats H p)"
  unfolding read_stats_def by (intro post_intro frame_on_kernel)

lemma keeps_the_container: "keeps P (the_container i)"
  unfolding the_container_def by (rule keeps_gets)

lemmas frame_rules = post_intro frame_keeps frame_save frame_exit_status frame_alive frame_consume frame_terminal
  frame_kill_each frame_stats keeps_the_container

section \<open>The invariant\<close>

definition container_ok :: "Container \<Rightarrow> bool" where
  "container_ok c \<longleftrightarrow> fits c \<and> (state c = STATE_RUNNING \<longrightarrow> 0 < pid c) \<and> (stack c \<longrightarrow> state c = STATE_RUNNING)"

definition man_inv :: "'k world \<Rightarrow> bool" where
  "man_inv w \<longleftrightarrow> (\<forall>c \<in> set (containers w). container_ok c) \<and> sched_inv (sched w)"

text \<open>While a container is being started, it may hold a stack before it runs.\<close>

definition starting :: "nat \<Rightarrow> 'k world \<Rightarrow> bool" where
  "starting i w \<longleftrightarrow> (\<forall>j < length (containers w). if j = i
       then fits (containers w ! j) \<and> state (containers w ! j) \<noteq> STATE_RUNNING
       else container_ok (containers w ! j)) \<and> sched_inv (sched w)"

lemma man_inv_nth: "man_inv w \<longleftrightarrow> (\<forall>j < length (containers w). container_ok (containers w ! j)) \<and> sched_inv (sched w)"
  by (auto simp: man_inv_def all_set_conv_all_nth)

lemma frame_man_inv: "frame man_inv" "frame (starting i)"
  by (simp_all add: frame_def man_inv_def starting_def)

lemma fits_update [simp]: "fits (c\<lparr>stack := b\<rparr>) = fits c" "fits (c\<lparr>state := st\<rparr>) = fits c"
  by (simp_all add: fits_def)

lemma mark_stopped_ok: "fits c \<Longrightarrow> container_ok (mark_stopped c)"
  by (simp add: container_ok_def mark_stopped_def free_container_stack_def fits_def)

lemma with_container_inv:
  assumes "\<And>c. container_ok c \<Longrightarrow> container_ok (f c)" shows "keeps man_inv (with_container i f)"
  unfolding with_container_def
proof (rule post_modify)
  fix w :: "'k world" assume "man_inv w"
  then show "man_inv (w\<lparr>containers := (containers w)[i := f (containers w ! i)]\<rparr>)"
    by (cases "i < length (containers w)")
       (auto simp: man_inv_def list_update_beyond dest!: subsetD [OF set_update_subset_insert] intro!: assms)
qed

lemma keeps_mark_stopped: "keeps man_inv (with_container i mark_stopped)"
  by (rule with_container_inv) (simp add: container_ok_def mark_stopped_ok [unfolded container_ok_def])

lemma keeps_on_stopped: "keeps man_inv (container_scheduler_on_stopped p)"
  unfolding container_scheduler_on_stopped_def
  by (rule post_modify) (auto simp: man_inv_def ts.remove_inv)

lemma keeps_on_started: "keeps man_inv (container_scheduler_on_started H p)"
  unfolding container_scheduler_on_started_def
  by (intro post_intro frame_on_kernel frame_man_inv, rule post_modify) (auto simp: man_inv_def scheduler_add_target_inv)

lemmas inv_rules = frame_rules frame_man_inv keeps_mark_stopped keeps_on_stopped keeps_on_started

lemma keeps_sync: "keeps man_inv (sync_container_state H i)"
  unfolding sync_container_state_def sync_reaped_def sync_missing_def by (intro inv_rules)

lemma keeps_sync_all: "keeps man_inv (sync_all H is b)"
  by (induction "is" arbitrary: b) (simp_all add: keeps_sync keeps_chain post_succeed)

lemma keeps_poll: "keeps man_inv (poll_states H)"
  unfolding poll_states_def by (intro inv_rules keeps_sync_all)

lemma keeps_wait: "keeps man_inv (wait_for_container_process H i quiet)"
  unfolding wait_for_container_process_def finish_wait_def by (intro inv_rules)

lemma keeps_stop: "keeps man_inv (stop_container_process H i quiet)"
  unfolding stop_container_process_def stop_done_def stop_failed_def by (intro inv_rules)

lemma keeps_add_targets: "keeps man_inv (add_targets H ps)"
  by (induction ps) (auto simp only: add_targets.simps intro!: post_intro keeps_on_started)

lemma keeps_refresh: "keeps man_inv (container_scheduler_refresh_targets H)"
proof -
  have "keeps man_inv (modify (\<lambda>w. w\<lparr>sched := scheduler_clear_targets (sched w)\<rparr>))"
    by (rule post_modify) (simp add: man_inv_def scheduler_clear_targets_inv)
  then show ?thesis
    unfolding container_scheduler_refresh_targets_def by (intro inv_rules keeps_add_targets)
qed

section \<open>Starting a container\<close>

definition startable :: "nat \<Rightarrow> 'k world \<Rightarrow> bool" where
  "startable i w \<longleftrightarrow> man_inv w \<and> state (containers w ! i) \<noteq> STATE_RUNNING"

lemma frame_startable: "frame (startable i)"
  by (simp add: frame_def startable_def man_inv_def)

lemma with_then:
  "post P (with_container i f) (\<lambda>_. R) \<Longrightarrow> (\<And>x. post R (n x) Q) \<Longrightarrow> post P (chain (with_container i f) n) Q"
  unfolding post_def by (auto simp: with_container_def chain_def)

lemma starting_to_inv:
  assumes "\<And>c. fits c \<Longrightarrow> state c \<noteq> STATE_RUNNING \<Longrightarrow> container_ok (f c)"
  shows "post (starting i) (with_container i f) (\<lambda>_. man_inv)"
  unfolding with_container_def
proof (rule post_modify)
  fix w :: "'k world" assume w: "starting i w"
  have "container_ok ((containers w)[i := f (containers w ! i)] ! j)" if "j < length (containers w)" for j
    using w that assms by (cases "j = i") (auto simp: starting_def)
  with w show "man_inv (w\<lparr>containers := (containers w)[i := f (containers w ! i)]\<rparr>)"
    by (simp add: man_inv_nth starting_def)
qed

lemma give_stack:
  "post (startable i) (with_container i (\<lambda>c. c\<lparr>stack := ok\<rparr>)) (\<lambda>_ w. if ok then starting i w else man_inv w)"
  unfolding with_container_def
proof (rule post_modify)
  fix w :: "'k world" assume w: "startable i w"
  let ?cs = "(containers w)[i := (containers w ! i)\<lparr>stack := ok\<rparr>]"
  have "if j = i then fits (?cs ! j) \<and> state (?cs ! j) \<noteq> STATE_RUNNING else container_ok (?cs ! j)"
    if "j < length (containers w)" for j
    using w that by (cases "j = i") (auto simp: startable_def man_inv_nth container_ok_def fits_def)
  moreover have "container_ok (?cs ! j)" if "j < length (containers w)" "\<not> ok" for j
    using w that by (cases "j = i") (auto simp: startable_def man_inv_nth container_ok_def fits_def)
  ultimately show "if ok then starting i (w\<lparr>containers := ?cs\<rparr>) else man_inv (w\<lparr>containers := ?cs\<rparr>)"
    using w by (simp add: starting_def startable_def man_inv_nth container_ok_def)
qed

lemma start_failed_post: "post (starting i) (start_failed H i c e) (\<lambda>_. man_inv)"
proof -
  have "post (starting i) (with_container i free_container_stack) (\<lambda>_. man_inv)"
    by (rule starting_to_inv) (auto simp: container_ok_def free_container_stack_def)
  then show ?thesis
    unfolding start_failed_def
    by (intro chain_sure [OF sure_emit] chain_sure [OF sure_log] frame_man_inv, rule with_then) (intro post_intro)
qed

lemma start_worked_post:
  assumes "0 < host_pid x" "host_pid x \<le> INT_MAX"
  shows "post (starting i) (start_worked H i schedule x) (\<lambda>_. man_inv)"
proof -
  have "post (starting i) (with_container i (\<lambda>c. c\<lparr>pid := host_pid x, state := STATE_RUNNING\<rparr>)) (\<lambda>_. man_inv)"
    by (rule starting_to_inv) (use assms in \<open>auto simp: container_ok_def fits_def\<close>)
  then show ?thesis
    unfolding start_worked_def by (rule with_then) (intro inv_rules keeps_stop)
qed

lemma post_case_value:
  "(\<And>e. post P (f e) Q) \<Longrightarrow> (\<And>x. V x \<Longrightarrow> post P (g x) Q) \<Longrightarrow>
   post (\<lambda>w. P w \<and> (\<forall>x. r = Inr x \<longrightarrow> V x)) (case r of Inl e \<Rightarrow> f e | Inr x \<Rightarrow> g x) Q"
  by (cases r) (auto simp: post_def)

lemma keeps_start_found:
  assumes clone: "clone_contract (clone_op H)"
  shows "keeps man_inv (start_found H i schedule)"
  unfolding start_found_def the_container_def
proof (rule post_chain_gets, goal_cases)
  case (1 c)
  have launched: "post (starting i) (attempt (on_kernel (namespace_start_container (files H) (procs H) (clone_op H) cfg b n))
      (\<lambda>r. case r of Inl e \<Rightarrow> start_failed H i c e | Inr x \<Rightarrow> start_worked H i schedule x)) (\<lambda>_. man_inv)" for cfg b n
    by (rule post_attempt [OF frame_on_kernel_value [OF frame_man_inv(2) started_pid [OF clone]]],
        rule post_case_value) (auto intro: start_failed_post start_worked_post)
  have short: "keeps man_inv (saying s (-1 :: int))" for s by (intro inv_rules)
  show ?case
  proof (cases "state c = STATE_RUNNING")
    case True
    show ?thesis unfolding if_P [OF True] by (rule post_weaken [OF short]) auto
  next
    case False
    show ?thesis
      unfolding if_not_P [OF False]
    proof (rule post_weaken [where P = "startable i" and Q = "\<lambda>_. man_inv"],
        rule chain_sure [OF sure_query [OF frame_startable]], rule with_then [OF give_stack], goal_cases)
      case (1 ok)
      show ?case using launched short by (cases ok) auto
    qed (use False in \<open>auto simp: startable_def\<close>)
  qed
qed

section \<open>Every command keeps the invariant\<close>

lemma keeps_append_world: "container_ok c \<Longrightarrow> keeps man_inv (append_world c)"
  unfolding append_world_def by (rule post_modify) (auto simp: man_inv_def)

lemma scheduler_stop_inv: "sched_inv s \<Longrightarrow> sched_inv (scheduler_stop s)"
  by (simp add: scheduler_stop_def scheduler_stop_finish_def scheduler_stop_request_def)

lemma keeps_modify_inv:
  "keeps man_inv (modify (\<lambda>w. w\<lparr>next_sequence := f w\<rparr>))"
  "keeps man_inv (modify (\<lambda>w. w\<lparr>containers := butlast (containers w)\<rparr>))"
  "keeps man_inv (modify (\<lambda>w. w\<lparr>containers := remove_at i (containers w)\<rparr>))"
  "keeps man_inv (modify (\<lambda>w. w\<lparr>sched := scheduler_set_enabled b (sched w)\<rparr>))"
  "keeps man_inv (modify (\<lambda>w. w\<lparr>containers := [], sched := scheduler_stop (sched w)\<rparr>))"
  by (rule post_modify; auto simp: man_inv_def remove_at_def simple_ops_inv scheduler_stop_inv
      dest: in_set_butlastD in_set_takeD in_set_dropD)+

lemma new_container_ok:
  assumes "length p < CONTAINER_ROOTFS_LEN"
  shows "container_ok ((new_container spec n)\<lparr>rootfs := p, pid := -1, state := STATE_CREATED\<rparr>)"
proof -
  let ?c = "new_container spec n"
  have "length (id ?c) < CONTAINER_ID_LEN" "length (name ?c) < CONTAINER_NAME_LEN"
    "length (hostname ?c) < CONTAINER_HOSTNAME_LEN" "length (command_line ?c) < CONTAINER_COMMAND_LEN"
    using length_snprintf [of 64] copy_string_length [of 64] copy_string_length [of 256]
    by (simp_all add: new_container_def Let_def container_id_of_def)
  moreover have "\<not> stack ?c" by (simp add: new_container_def Let_def)
  ultimately show ?thesis using assms by (simp add: container_ok_def fits_def)
qed

lemma keeps_enlist: "container_ok c \<Longrightarrow> keeps man_inv (enlist H c)"
  unfolding enlist_def by (intro inv_rules keeps_append_world keeps_modify_inv)

lemma keeps_create: "keeps man_inv (container_create H spec)"
proof -
  have "keeps man_inv (create_sequenced H spec n)" for n
    unfolding create_sequenced_def Let_def
    by (rule keeps_chain [OF keeps_modify_inv(1)],
        rule post_attempt [OF frame_on_kernel_value [OF frame_man_inv(1) prepare_rootfs_fits]],
        rule post_case_value) (intro inv_rules keeps_enlist new_container_ok)+
  then show ?thesis
    unfolding container_create_def by (intro inv_rules)
qed

lemma keeps_for_container: "(\<And>k. keeps man_inv (f k)) \<Longrightarrow> keeps man_inv (for_container H u i f)"
  unfolding for_container_def by (intro inv_rules keeps_poll)

lemma keeps_lifecycle:
  assumes "clone_contract (clone_op H)"
  shows "keeps man_inv (start_container_by_id H i b)" "keeps man_inv (container_start H i)"
    "keeps man_inv (container_run H spec)" "keeps man_inv (container_run_background H spec)"
    "keeps man_inv (container_stop H i)"
proof -
  show start: "keeps man_inv (start_container_by_id H i b)" for i b
    unfolding start_container_by_id_def by (intro keeps_for_container keeps_start_found assms)
  show "keeps man_inv (container_start H i)" unfolding container_start_def by (rule start)
  show "keeps man_inv (container_run H spec)"
    unfolding container_run_def by (intro inv_rules keeps_create start keeps_wait)
  show "keeps man_inv (container_run_background H spec)"
    unfolding container_run_background_def by (intro inv_rules keeps_create start)
  show "keeps man_inv (container_stop H i)"
    unfolding container_stop_def by (intro keeps_for_container keeps_stop)
qed

lemma find_container_Some:
  "find_container i cs = Some k \<Longrightarrow> k < length cs \<and> id (cs ! k) = i \<and> (\<forall>j < k. id (cs ! j) \<noteq> i)"
proof (induction cs arbitrary: k)
  case (Cons c cs)
  then show ?case by (cases k) (auto split: if_splits simp: less_Suc_eq_0_disj)
qed simp

lemma find_container_None: "find_container i cs = None \<longleftrightarrow> i \<notin> id ` set cs"
  by (induction cs) auto

lemma post_False: "(\<And>k. \<not> P k) \<Longrightarrow> post P m Q"
  by (simp add: post_def)

lemma keeps_delete_found:
  "post (\<lambda>w. man_inv w \<and> k < length (containers w)) (delete_found H k) (\<lambda>_. man_inv)"
  unfolding delete_found_def the_container_def
proof (rule post_chain_gets, goal_cases)
  case (1 c)
  show ?case
  proof (cases "container_ok c")
    case True
    show ?thesis
      by (rule post_weaken [where P = man_inv and Q = "\<lambda>_. man_inv"],
          intro inv_rules keeps_append_world keeps_modify_inv True) simp_all
  next
    case False
    then show ?thesis by (intro post_False) (auto simp: man_inv_nth)
  qed
qed

lemma keeps_delete: "keeps man_inv (container_delete H i)"
proof -
  have "post man_inv (chain (gets (\<lambda>w. find_container i' (containers w))) (\<lambda>found. case found of
      None \<Rightarrow> saying s (-1) | Some k \<Rightarrow> delete_found H k)) (\<lambda>_. man_inv)" for i' s
  proof (rule post_chain_gets, goal_cases)
    case (1 found)
    show ?case
    proof (cases found)
      case None
      show ?thesis unfolding None option.case by (rule post_weaken [OF frame_saying [OF frame_man_inv(1)]]) auto
    next
      case (Some k)
      show ?thesis
        unfolding Some option.case by (rule post_weaken [OF keeps_delete_found]) (auto dest: find_container_Some)
    qed
  qed
  then show ?thesis
    unfolding container_delete_def for_container_def
    by (intro keeps_case_option keeps_if frame_saying frame_man_inv keeps_chain [OF keeps_poll])
qed

section \<open>Tables and loops\<close>

lemma frame_stats_rows: "frame P \<Longrightarrow> keeps P (stats_rows H cs any)"
proof (induction cs arbitrary: any)
  case (Cons c cs)
  then show ?case unfolding stats_rows.simps by (intro frame_rules)
qed (simp only: stats_rows.simps, intro post_intro)

lemma frame_watch_rows: "frame P \<Longrightarrow> keeps P (watch_rows H now cs prev cap any)"
proof (induction cs arbitrary: prev cap any)
  case (Cons c cs)
  then show ?case unfolding watch_rows.simps by (intro frame_rules)
qed (simp only: watch_rows.simps, intro post_intro)

lemma frame_clear_screen: "frame P \<Longrightarrow> keeps P (clear_screen_if_tty H)"
  unfolding clear_screen_if_tty_def by (intro frame_rules)

lemma frame_monotonic: "frame P \<Longrightarrow> keeps P (monotonic_ns H)"
  unfolding monotonic_ns_def by (intro frame_rules)

lemma frame_sleep: "frame P \<Longrightarrow> keeps P (sleep_interval H sec)"
  unfolding sleep_interval_def by (rule frame_on_kernel)

lemmas frame_clock = frame_monotonic frame_sleep

lemmas table_rules = inv_rules keeps_poll frame_stats_rows frame_watch_rows frame_clear_screen frame_clock

lemma keeps_tables:
  "keeps man_inv (container_list H)" "keeps man_inv (container_stats H i)" "keeps man_inv (container_stats_all H)"
  unfolding container_list_def container_stats_def container_stats_all_def
  by (intro table_rules keeps_for_container)+

lemma keeps_watch_loop: "keeps man_inv (watch_loop H i sec prev)"
proof -
  have round: "keeps man_inv (watch_round H i sec prev)" for prev
    unfolding watch_round_def by (intro table_rules)
  have "H' = H \<longrightarrow> i' = i \<longrightarrow> sec' = sec \<longrightarrow> man_inv w \<longrightarrow> man_inv (snd y)" if "watch_loop H' i' sec' prev w = Some y"
    for H' i' sec' prev w y
    using that
  proof (rule watch_loop.raw_induct [rotated], goal_cases)
    case (1 g H' i' sec' prev w y)
    have IH: "keeps man_inv (g H i sec p)" for p using 1(1) [of H i sec p] by (auto simp: post_def)
    have "keeps man_inv (chain (watch_round H i sec prev) (\<lambda>r. case r of Inl rc \<Rightarrow> succeed rc | Inr s \<Rightarrow> g H i sec (Some s)))"
      by (intro post_intro round IH)
    with 1(2) show ?case by (cases y) (auto dest: postD)
  qed
  then show ?thesis by (fastforce simp: post_def)
qed

lemma keeps_watch_all_loop: "keeps man_inv (watch_all_loop H sec prev cap)"
proof -
  have round: "keeps man_inv (watch_all_round H sec prev cap)" for prev cap
    unfolding watch_all_round_def by (intro table_rules)
  have "H' = H \<longrightarrow> sec' = sec \<longrightarrow> man_inv w \<longrightarrow> man_inv (snd y)" if "watch_all_loop H' sec' prev cap w = Some y"
    for H' sec' prev cap w y
    using that
  proof (rule watch_all_loop.raw_induct [rotated], goal_cases)
    case (1 g H' sec' prev cap w y)
    have IH: "keeps man_inv (g H sec p c)" for p c using 1(1) [of H sec p c] by (auto simp: post_def)
    have "keeps man_inv (chain (watch_all_round H sec prev cap)
        (\<lambda>r. case r of Inl rc \<Rightarrow> succeed rc | Inr s \<Rightarrow> g H sec (fst s) (snd s)))"
      by (intro post_intro round IH)
    with 1(2) show ?case by (cases y) (auto dest: postD)
  qed
  then show ?thesis by (fastforce simp: post_def)
qed

lemma keeps_watch:
  "keeps man_inv (container_stats_watch H i sec)" "keeps man_inv (container_stats_all_watch H sec)"
  unfolding container_stats_watch_def container_stats_all_watch_def
  by (intro table_rules keeps_watch_loop keeps_watch_all_loop)+

lemma keeps_cleanup: "keeps man_inv (cleanup_all_containers H)"
proof -
  have "keeps man_inv (stop_each H is)" for "is"
  proof (induction "is")
    case (Cons i "is")
    then show ?case unfolding stop_each.simps by (intro inv_rules keeps_stop)
  qed (simp only: stop_each.simps, intro post_intro)
  then show ?thesis
    unfolding cleanup_all_containers_def by (intro inv_rules keeps_poll keeps_modify_inv)
qed

end
