(* ===== verification/Session.thy ===== *)
theory Session
  imports Manager_Inv
begin

text \<open>
  Whole sessions of the program: start-up, then any number of command lines, with turns of the
  scheduler thread in between. Every world a session reaches satisfies the invariant of the
  manager.
\<close>

section \<open>Sessions\<close>

inductive session :: "'k host \<Rightarrow> 'k world \<Rightarrow> bool" for H where
  start: "container_manager_init H (initial_world logged k) = Some (r, w) \<Longrightarrow> session H w"
| command: "session H w \<Longrightarrow> prompt H w = Some (r, w') \<Longrightarrow> session H w'"
| thread: "session H w \<Longrightarrow> session H (w\<lparr>sched := snd (scheduler_turn kill0 (sched w))\<rparr>)"

section \<open>Restoring keeps the invariant\<close>

lemma alive_positive: "frame P \<Longrightarrow> post P (is_pid_alive H p) (\<lambda>r w. P w \<and> (r = Inr True \<longrightarrow> 0 < p))"
  using frame_alive [of P H p] by (cases "p \<le> 0") (auto simp: post_def is_pid_alive_def)

lemma parse_record_fits:
  assumes "parse_record alive l = Some c" shows "fits c" "\<not> stack c"
proof -
  have "-1 \<le> INT_MAX" "INT_MIN \<le> -1" by simp_all
  with assms show "fits c" "\<not> stack c"
    using cast_int_range copy_string_length [of 64] copy_string_length [of 512] copy_string_length [of 256]
    by (auto simp: parse_record_def Let_def fits_def atoi_def split: if_splits)
qed

lemma keeps_restore_loop: "keeps man_inv (restore_loop H ls n)"
proof (induction ls arbitrary: n)
  case (Cons l ls)
  show ?case
  proof (cases "parse_record (\<lambda>_. True) l")
    case None
    then show ?thesis using Cons by simp
  next
    case (Some c)
    note ok = parse_record_fits [OF Some]
    have alive: "post man_inv (if state c = STATE_RUNNING then is_pid_alive H (pid c) else succeed True)
        (\<lambda>r w. man_inv w \<and> (r = Inr True \<and> state c = STATE_RUNNING \<longrightarrow> 0 < pid c))"
      using alive_positive [OF frame_man_inv(1), of H "pid c"] by (auto simp: post_def)
    have add: "post (\<lambda>w. man_inv w \<and> (Inr a = Inr True \<and> state c = STATE_RUNNING \<longrightarrow> 0 < pid c))
        (append_world (if a then c else c\<lparr>state := STATE_STOPPED, pid := -1\<rparr>)) (\<lambda>_. man_inv)" for a
      unfolding append_world_def
      by (rule post_modify) (use ok in \<open>auto simp: man_inv_def container_ok_def fits_def\<close>)
    have rest: "keeps man_inv (chain (modify (\<lambda>w. w\<lparr>next_sequence := update_next_sequence (id c) (next_sequence w)\<rparr>))
        (\<lambda>_. restore_loop H ls (n + 1)))"
      by (intro keeps_chain keeps_modify_inv Cons)
    show ?thesis
      unfolding restore_loop.simps Some option.case
      by (intro keeps_chain [OF frame_on_kernel] keeps_if frame_saying frame_man_inv post_chain [OF alive] post_chain [OF add] rest) simp_all
  qed
qed (simp only: restore_loop.simps, intro post_intro)

lemma keeps_init: "keeps man_inv (container_manager_init H)"
  unfolding container_manager_init_def by (intro inv_rules keeps_restore_loop keeps_poll)

section \<open>Commands keep the invariant\<close>

lemma frame_usage: "frame P \<Longrightarrow> keeps P (usage s)"
  unfolding usage_def by (rule frame_emit)

lemma keeps_ignoring: "keeps P m \<Longrightarrow> keeps P (ignoring m)"
  unfolding ignoring_def by (intro post_intro)

lemma keeps_going_on: "keeps P m \<Longrightarrow> keeps P (going_on m)"
  unfolding going_on_def by (intro post_intro)

lemma keeps_follow: "frame P \<Longrightarrow> keeps P (follow_world H alloc cid n)"
  unfolding follow_world_def
proof (rule keeps_chain [OF frame_on_kernel], assumption, goal_cases)
  case (1 x)
  then show ?case
    by (cases x) (auto simp: post_def frame_def split: prod.splits option.splits)
qed

lemma sched_step:
  assumes "\<And>t. sched_inv t \<Longrightarrow> sched_inv (snd (f t))" "\<And>r s. keeps man_inv (n r s)"
  shows "keeps man_inv (chain (gets (\<lambda>w. f (sched w))) (\<lambda>(r, s). chain (modify (\<lambda>w. w\<lparr>sched := s\<rparr>)) (\<lambda>_. n r s)))"
proof (rule post_chain_gets, goal_cases)
  case (1 x)
  obtain r s where x: "x = (r, s)" by (cases x)
  have "post (\<lambda>w. man_inv w \<and> f (sched w) = x) (modify (\<lambda>w. w\<lparr>sched := s\<rparr>)) (\<lambda>_. man_inv)"
    by (rule post_modify) (use assms(1) x in \<open>force simp: man_inv_def\<close>)
  then show ?case unfolding x prod.case by (rule post_chain) (rule assms(2))
qed

lemma keeps_sched_on: "keeps man_inv (sched_on H)"
  unfolding sched_on_def
proof (rule keeps_chain [OF keeps_gets], rule keeps_chain, goal_cases)
  case (1 started)
  show ?case by (intro inv_rules)
next
  case (2 started ok)
  show ?case
    by (rule sched_step) (auto simp: Let_def simple_ops_inv intro!: inv_rules keeps_modify_inv keeps_refresh)
qed

lemma keeps_sched: "keeps man_inv (cmd_sched H args)"
proof -
  have off: "keeps man_inv (sched_off H)"
    unfolding sched_off_def by (intro inv_rules keeps_modify_inv keeps_refresh)
  have slice: "keeps man_inv (sched_slice H v)" for v
    unfolding sched_slice_def by (rule sched_step) (auto intro!: inv_rules simp: simple_ops_inv)
  show ?thesis
    unfolding cmd_sched_def
    by (cases args) (auto intro!: inv_rules keeps_sched_on off slice frame_usage)
qed

lemma keeps_execute:
  assumes "clone_contract (clone_op H)" shows "keeps man_inv (execute H cmd args)"
proof -
  have run: "keeps man_inv (cmd_run H c as)" for c as
    unfolding cmd_run_def by (intro inv_rules frame_usage keeps_lifecycle assms)
  have create: "keeps man_inv (cmd_create H as)" for as
    unfolding cmd_create_def by (intro inv_rules frame_usage keeps_create)
  have logs: "keeps man_inv (cmd_logs H as)" for as
    unfolding cmd_logs_def by (intro inv_rules frame_usage keeps_follow)
  have stats: "keeps man_inv (cmd_stats H as)" for as
    unfolding cmd_stats_def by (intro inv_rules frame_usage keeps_ignoring keeps_tables keeps_watch)
  have one: "keeps man_inv (with_id c as f)" if "\<And>i. keeps man_inv (f i)" for c as f
    unfolding with_id_def by (intro inv_rules frame_usage keeps_ignoring that)
  show ?thesis
    unfolding execute_def
    by (intro keeps_if keeps_going_on run create logs stats one keeps_sched keeps_lifecycle keeps_delete keeps_tables
        keeps_cleanup keeps_ignoring frame_usage assms inv_rules)
qed

lemma keeps_case_list:
  "(xs = [] \<Longrightarrow> keeps I m) \<Longrightarrow> (\<And>y ys. xs = y # ys \<Longrightarrow> keeps I (f y ys)) \<Longrightarrow>
   keeps I (case xs of [] \<Rightarrow> m | y # ys \<Rightarrow> f y ys)"
  by (cases xs) auto

lemma keeps_prompt: "clone_contract (clone_op H) \<Longrightarrow> keeps man_inv (prompt H)"
  unfolding prompt_def by (intro inv_rules keeps_case_list keeps_execute keeps_cleanup)

lemma session_inv:
  assumes "clone_contract (clone_op H)" "session H w" shows "man_inv w"
  using assms(2)
proof induction
  case (start logged k r w)
  have "man_inv (initial_world logged k)"
    by (simp add: initial_world_def man_inv_def g_state_def sched_inv_def active_def)
  with start show ?case using keeps_init by (auto dest: postD)
next
  case (command w r w')
  then show ?case using keeps_prompt [OF assms(1)] by (auto dest: postD)
next
  case (thread w kill0)
  then show ?case by (simp add: man_inv_def scheduler_turn_inv)
qed

end
