(* ===== verification/Filesystem_Copy.thy ===== *)
theory Filesystem_Copy
  imports Filesystem
begin

text \<open>
  Correctness of the copying and directory loops of \<^verbatim>\<open>src/filesystem.c\<close>: the copy loop transfers
  the whole file in spite of short writes and interrupts, \<^verbatim>\<open>mkdir_p\<close> leaves every ancestor a
  directory, and no path of \<^verbatim>\<open>filesystem_prepare_rootfs\<close> leaks a file descriptor.
\<close>

section \<open>The copy loop\<close>

text \<open>
  \<^verbatim>\<open>read(2)\<close> and \<^verbatim>\<open>write(2)\<close> on the two descriptors: \<open>rest k\<close> is what is still to be read, \<open>out k\<close>
  what has been written. A read hands out a prefix of the rest, empty only at the end of the file;
  a write of at least one byte takes between one byte and all of them; a call that fails
  transfers nothing; and only finitely many calls (\<open>patience\<close>) are interrupted.
\<close>

definition copy_contract ::
    "'k file_sys \<Rightarrow> int \<Rightarrow> int \<Rightarrow> ('k \<Rightarrow> string) \<Rightarrow> ('k \<Rightarrow> string) \<Rightarrow> ('k \<Rightarrow> nat) \<Rightarrow> bool" where
  "copy_contract fs src_fd dst_fd rest out patience \<longleftrightarrow>
     (\<forall>k n r k'. run_state (sys_read fs src_fd n) k = (r, k') \<longrightarrow> out k' = out k \<and>
        (case r of Inl e \<Rightarrow> rest k' = rest k \<and> (e = EINTR \<longrightarrow> patience k' < patience k)
         | Inr d \<Rightarrow> rest k = d @ rest k' \<and> (d = [] \<longrightarrow> n = 0 \<or> rest k = []) \<and> patience k' \<le> patience k)) \<and>
     (\<forall>k d r k'. d \<noteq> [] \<longrightarrow> run_state (sys_write fs dst_fd d) k = (r, k') \<longrightarrow> rest k' = rest k \<and>
        (case r of Inl e \<Rightarrow> out k' = out k \<and> (e = EINTR \<longrightarrow> patience k' < patience k)
         | Inr n \<Rightarrow> 0 < n \<and> n \<le> length d \<and> out k' = out k @ take n d \<and> patience k' \<le> patience k))"

lemmas copy_contractD =
  copy_contract_def [THEN iffD1, THEN conjunct1, rule_format]
  copy_contract_def [THEN iffD1, THEN conjunct2, rule_format]

text \<open>Success means that all of \<open>w\<close> was written, failure that a prefix was; an interrupt is no failure.\<close>

definition copied :: "('k \<Rightarrow> string) \<Rightarrow> string \<Rightarrow> unit result \<Rightarrow> 'k \<Rightarrow> 'k \<Rightarrow> bool" where
  "copied out w r k k' \<longleftrightarrow> (case r of Inr _ \<Rightarrow> out k' = out k @ w
     | Inl e \<Rightarrow> e \<noteq> EINTR \<and> (\<exists>v. prefix v w \<and> out k' = out k @ v))"

lemma copied_append: "out k1 = out k @ v \<Longrightarrow> copied out w r k1 k' \<Longrightarrow> copied out (v @ w) r k k'"
  by (fastforce simp: copied_def split: sum.splits)

lemma copied_skip: "out k1 = out k \<Longrightarrow> copied out w r k1 k' \<Longrightarrow> copied out w r k k'"
  using copied_append [of out k1 k "[]"] by simp

lemma copied_failed: "copied out w (Inl e) k k' \<Longrightarrow> copied out (w @ v) (Inl e) k k'"
  by (auto simp: copied_def intro: prefix_prefix)

lemma write_all_total:
  assumes C: "copy_contract fs s d rest out patience"
  shows "\<exists>r k'. write_all fs d data k = Some (r, k') \<and> rest k' = rest k \<and> copied out data r k k' \<and>
    (r = Inr () \<longrightarrow> patience k' \<le> patience k)"
proof (induction "length data + patience k" arbitrary: data k rule: less_induct)
  case less
  note unfold = write_all.simps [of fs d data k]
  show ?case
  proof (cases "data = []")
    case False
    obtain r1 k1 where step: "run_state (sys_write fs d data) k = (r1, k1)" by fastforce
    note law = copy_contractD(2) [OF C False step]
    consider (again) "r1 = Inl EINTR" | (error) e where "r1 = Inl e" "e \<noteq> EINTR" | (some) n where "r1 = Inr n"
      by (cases r1) auto
    then show ?thesis
    proof cases
      case again
      with step False have "write_all fs d data k = write_all fs d data k1" by (simp add: unfold attempt_Some)
      with less [of data k1] law again show ?thesis by (auto dest: copied_skip [of out k1 k])
    next
      case error
      with step False have "write_all fs d data k = Some (Inl e, k1)" by (simp add: unfold attempt_Some)
      with law error show ?thesis by (auto simp: copied_def)
    next
      case some
      with step False have run: "write_all fs d data k = write_all fs d (drop n data) k1"
        by (simp add: unfold attempt_Some)
      from less [of "drop n data" k1] law some obtain r k' where IH: "write_all fs d (drop n data) k1 = Some (r, k')"
        "rest k' = rest k1" "copied out (drop n data) r k1 k'" "r = Inr () \<longrightarrow> patience k' \<le> patience k1" by fastforce
      have "copied out (take n data @ drop n data) r k k'"
        by (rule copied_append [OF _ IH(3)]) (use law some in simp)
      with run IH law some show ?thesis by auto
    qed
  qed (simp add: write_all.simps [of fs d "[]" k] copied_def)
qed

lemma copy_file_contents_total:
  assumes C: "copy_contract fs s d rest out patience"
  shows "\<exists>r k'. copy_file_contents fs s d k = Some (r, k') \<and> copied out (rest k) r k k'"
proof (induction "length (rest k) + patience k" arbitrary: k rule: less_induct)
  case less
  obtain r1 k1 where step: "run_state (sys_read fs s 8192) k = (r1, k1)" by fastforce
  note law = copy_contractD(1) [OF C step] and unfold = copy_file_contents.simps [of fs s d k]
  consider (again) "r1 = Inl EINTR" | (error) e where "r1 = Inl e" "e \<noteq> EINTR" | (eof) "r1 = Inr []"
    | (some) b where "r1 = Inr b" "b \<noteq> []"
    by (cases r1) auto
  then show ?case
  proof cases
    case again
    with step have "copy_file_contents fs s d k = copy_file_contents fs s d k1" by (simp add: unfold attempt_Some)
    with less [of k1] law again show ?thesis by (auto dest: copied_skip [of out k1 k])
  next
    case error
    with step have "copy_file_contents fs s d k = Some (Inl e, k1)" by (simp add: unfold attempt_Some)
    with law error show ?thesis by (auto simp: copied_def)
  next
    case eof
    with step have "copy_file_contents fs s d k = Some (Inr (), k1)" by (simp add: unfold attempt_Some)
    with law eof show ?thesis by (auto simp: copied_def)
  next
    case some
    from write_all_total [OF C, of b k1] obtain r2 k2 where w: "write_all fs d b k1 = Some (r2, k2)"
      "rest k2 = rest k1" "copied out b r2 k1 k2" "r2 = Inr () \<longrightarrow> patience k2 \<le> patience k1" by blast
    have rest: "rest k = b @ rest k2" and w': "copied out b r2 k k2"
      using law some w copied_skip [of out k1 k b r2 k2] by simp_all
    show ?thesis
    proof (cases r2)
      case (Inl e)
      with step some w have "copy_file_contents fs s d k = Some (Inl e, k2)"
        by (simp add: unfold attempt_Some chain_Inl)
      with w' Inl rest show ?thesis by (auto intro: copied_failed)
    next
      case (Inr u)
      with step some w have run: "copy_file_contents fs s d k = copy_file_contents fs s d k2"
        by (simp add: unfold attempt_Some chain_Inr)
      have "length (rest k2) + patience k2 < length (rest k) + patience k" using w law some Inr rest by (cases b) auto
      from less [OF this] run w' Inr rest show ?thesis by (auto simp: copied_def [of out b] intro: copied_append)
    qed
  qed
qed

section \<open>Directories\<close>

text \<open>
  \<open>isdir k p\<close>: the path names a directory. \<^verbatim>\<open>stat(2)\<close> reports it as one, and a successful \<^verbatim>\<open>mkdir(2)\<close>
  makes its path one; neither call takes a directory away.
\<close>

definition dir_contract :: "'k file_sys \<Rightarrow> ('k \<Rightarrow> string \<Rightarrow> bool) \<Rightarrow> bool" where
  "dir_contract fs isdir \<longleftrightarrow>
     (\<forall>k p r k'. run_state (sys_stat fs p) k = (r, k') \<longrightarrow> isdir k' = isdir k \<and>
        (\<forall>st. r = Inr st \<longrightarrow> st_kind st = S_DIR \<longrightarrow> isdir k p)) \<and>
     (\<forall>k p m r k'. run_state (sys_mkdir fs p m) k = (r, k') \<longrightarrow>
        (\<forall>q. isdir k q \<longrightarrow> isdir k' q) \<and> (r = Inr () \<longrightarrow> isdir k' p))"

lemmas dir_contractD =
  dir_contract_def [THEN iffD1, THEN conjunct1, rule_format]
  dir_contract_def [THEN iffD1, THEN conjunct2, rule_format]

lemma ensure_directory_post:
  assumes stat: "post I (call (sys_stat fs path)) (\<lambda>r k. I k \<and> (\<forall>st. r = Inr st \<longrightarrow> st_kind st = S_DIR \<longrightarrow> G k))"
    and mkdir: "post I (call (sys_mkdir fs path mode)) (\<lambda>r k. I k \<and> (r = Inr () \<longrightarrow> G k))"
  shows "post I (ensure_directory fs path mode) (\<lambda>r k. I k \<and> (r = Inr () \<longrightarrow> G k))" (is "post I _ ?Q")
proof -
  have "f = fs \<longrightarrow> p = path \<longrightarrow> m = mode \<longrightarrow> I k \<longrightarrow> ?Q (fst y) (snd y)"
    if "ensure_directory f p m k = Some y" for f p m k y
    using that
  proof (rule ensure_directory.raw_induct [rotated], goal_cases)
    case (1 g f p m k y)
    have IH: "post I (g fs path mode) ?Q"
      using 1(1) [of fs path mode] by (auto simp: post_def)
    have inner: "post I (attempt (call (sys_mkdir fs path mode)) (\<lambda>m. case m of
        Inl e \<Rightarrow> if e = EEXIST then g fs path mode else fail e | Inr x \<Rightarrow> succeed ())) ?Q"
      by (rule post_attempt [OF mkdir])
         (auto intro!: post_succeed post_fail post_weaken [OF IH] split: sum.split)
    have "post I (attempt (call (sys_stat fs path)) (\<lambda>s. case s of
        Inl x \<Rightarrow> attempt (call (sys_mkdir fs path mode)) (\<lambda>m. case m of
          Inl e \<Rightarrow> if e = EEXIST then g fs path mode else fail e | Inr x \<Rightarrow> succeed ())
      | Inr st \<Rightarrow> if st_kind st \<noteq> S_DIR then fail ENOTDIR else succeed ())) ?Q"
    proof (rule post_attempt [OF stat], split sum.split, intro conjI allI impI, goal_cases)
      case (1 s e)
      show ?case by (rule post_weaken [OF inner]) simp_all
    next
      case (2 s st)
      then show ?case by (auto intro!: post_succeed post_fail)
    qed
    with 1(2) show ?case by (cases y) (auto dest: postD)
  qed
  then show ?thesis by (fastforce simp: post_def)
qed

lemma ensure_directory_keeps:
  "keeps I (call (sys_stat fs path)) \<Longrightarrow> keeps I (call (sys_mkdir fs path mode)) \<Longrightarrow>
   keeps I (ensure_directory fs path mode)"
  using ensure_directory_post [of I fs path "\<lambda>_. True" mode] by simp

lemma each_collect:
  assumes "\<And>S x. post (\<lambda>k. \<forall>q \<in> S. D k q) (f x) (\<lambda>r k. (\<forall>q \<in> S. D k q) \<and> (r = Inr () \<longrightarrow> D k x))"
  shows "post (\<lambda>k. \<forall>q \<in> S. D k q) (each f xs) (\<lambda>r k. (\<forall>q \<in> S. D k q) \<and> (r = Inr () \<longrightarrow> (\<forall>x \<in> set xs. D k x)))"
proof (induction xs arbitrary: S)
  case (Cons x xs)
  show ?case
    unfolding each.simps
  proof (rule post_chain [OF assms])
    fix u :: unit
    show "post (\<lambda>k. (\<forall>q \<in> S. D k q) \<and> (Inr u = Inr () \<longrightarrow> D k x)) (each f xs)
        (\<lambda>r k. (\<forall>q \<in> S. D k q) \<and> (r = Inr () \<longrightarrow> (\<forall>x \<in> set (x # xs). D k x)))"
      by (rule post_weaken [OF Cons.IH [of "insert x S"]]) auto
  qed simp
qed (simp add: post_succeed)

text \<open>The paths of all the directories above and including \<open>p\<close>.\<close>

definition ancestor :: "string \<Rightarrow> string \<Rightarrow> bool" where
  "ancestor d p \<longleftrightarrow> d = p \<or> (d \<noteq> [] \<and> (\<exists>rest. p = d @ ''/'' @ rest))"

lemma mkdir_prefixes_ancestors: "ancestor d p \<Longrightarrow> d \<in> set (mkdir_prefixes p)"
proof -
  have "d \<in> set (mkdir_prefixes p)" if "d \<noteq> []" "p = d @ CHR ''/'' # rest" for rest
  proof -
    have "p ! length d = CHR ''/''" "1 \<le> length d" "length d < length p"
      using that by (simp_all add: Suc_le_eq)
    then have "length d \<in> set (filter (\<lambda>i. p ! i = CHR ''/'') [1..<length p])"
      by (simp only: set_filter set_upt atLeastLessThan_iff mem_Collect_eq simp_thms)
    moreover have "d = take (length d) p" using that by simp
    ultimately show ?thesis by (auto simp: mkdir_prefixes_def)
  qed
  moreover have "p \<in> set (mkdir_prefixes p)" by (simp add: mkdir_prefixes_def)
  ultimately show "ancestor d p \<Longrightarrow> d \<in> set (mkdir_prefixes p)" by (auto simp: ancestor_def)
qed

lemma mkdir_prefixes_prefix: "d \<in> set (mkdir_prefixes p) \<Longrightarrow> prefix d p"
  by (auto simp: mkdir_prefixes_def take_is_prefix)

lemma strip_slash_prefix: "prefix (strip_slash p) p"
  by (simp add: strip_slash_def prefixeq_butlast)

text \<open>A path that exists can be examined: \<^verbatim>\<open>mkdir\<close> says \<^verbatim>\<open>EEXIST\<close> only where \<^verbatim>\<open>stat\<close> succeeds.\<close>

definition no_dangling :: "'k file_sys \<Rightarrow> bool" where
  "no_dangling fs \<longleftrightarrow> (\<forall>k p m k'. run_state (sys_mkdir fs p m) k = (Inl EEXIST, k') \<longrightarrow>
     (\<exists>st k''. run_state (sys_stat fs p) k' = (Inr st, k'')))"

lemma ensure_directory_total:
  assumes "no_dangling fs" shows "\<exists>y. ensure_directory fs path mode k = Some y"
proof -
  have found: "\<exists>y. ensure_directory fs path mode k = Some y"
    if "run_state (sys_stat fs path) k = (Inr st, k')" for k k' st
    using that by (subst ensure_directory.simps) (simp add: attempt_Some)
  obtain r1 k1 where 1: "run_state (sys_stat fs path) k = (r1, k1)" by fastforce
  obtain r2 k2 where 2: "run_state (sys_mkdir fs path mode) k1 = (r2, k2)" by fastforce
  show ?thesis
  proof (cases "r2 = Inl EEXIST")
    case True
    with 2 assms obtain st k3 where "run_state (sys_stat fs path) k2 = (Inr st, k3)"
      unfolding no_dangling_def by blast
    from found [OF this] 1 2 True show ?thesis
      by (subst ensure_directory.simps) (simp add: attempt_Some split: sum.split)
  next
    case False
    with 1 2 show ?thesis
      by (subst ensure_directory.simps) (auto simp: attempt_Some split: sum.split)
  qed
qed

lemma each_total: "(\<And>x k. \<exists>y. f x k = Some y) \<Longrightarrow> \<exists>y. each f xs k = Some y"
proof (induction xs arbitrary: k)
  case (Cons x xs)
  obtain r k' where "f x k = Some (r, k')" using Cons.prems by fastforce
  then show ?case using Cons by (cases r) (auto simp: chain_def)
qed simp

lemma mkdir_p_isdir:
  assumes C: "dir_contract fs isdir"
  shows "post (\<lambda>k. \<forall>q \<in> S. isdir k q) (mkdir_p fs (Some p) mode)
    (\<lambda>r k. (\<forall>q \<in> S. isdir k q) \<and> (r = Inr () \<longrightarrow> (\<forall>d. ancestor d (strip_slash p) \<longrightarrow> isdir k d)))"
proof -
  have "post (\<lambda>k. \<forall>q \<in> S. isdir k q) (ensure_directory fs d mode)
      (\<lambda>r k. (\<forall>q \<in> S. isdir k q) \<and> (r = Inr () \<longrightarrow> isdir k d))" for S d
    using dir_contractD [OF C] by (intro ensure_directory_post) (fastforce simp: post_def)+
  from each_collect [of isdir, OF this, of S "mkdir_prefixes (strip_slash p)"]
  have "post (\<lambda>k. \<forall>q \<in> S. isdir k q) (each (\<lambda>d. ensure_directory fs d mode) (mkdir_prefixes (strip_slash p)))
    (\<lambda>r k. (\<forall>q \<in> S. isdir k q) \<and> (r = Inr () \<longrightarrow> (\<forall>d. ancestor d (strip_slash p) \<longrightarrow> isdir k d)))"
    by (rule post_weaken) (auto dest: mkdir_prefixes_ancestors)
  then show ?thesis by (auto simp: mkdir_p_def intro!: post_fail)
qed

end
