(* ===== verification/Filesystem_Safety.thy ===== *)
theory Filesystem_Safety
  imports Filesystem_Copy
begin

text \<open>
  What preparing a root file system may do: every descriptor it opens is closed on every path,
  and every path it changes lies lexically inside the root or is one of its ancestors. Both are
  instances of one argument about how the operations of \<^verbatim>\<open>src/filesystem.c\<close> use the kernel.
\<close>

section \<open>A policy for the kernel calls\<close>

text \<open>
  \<open>I i\<close> is an assertion about the kernel indexed by what is open. Calls that only look keep
  it; calls that change a path keep it when the path is \<open>ok\<close>; opening a descriptor moves the
  index on by \<open>opened\<close> and closing it moves it back.
\<close>

definition opens :: "(int \<Rightarrow> 'i \<Rightarrow> 'i \<Rightarrow> bool) \<Rightarrow> ('i \<Rightarrow> 'k \<Rightarrow> bool) \<Rightarrow> ('k, int) prog \<Rightarrow> bool" where
  "opens opened I m \<longleftrightarrow> (\<forall>i. post (I i) m
     (\<lambda>r k. case r of Inl e \<Rightarrow> I i k | Inr fd \<Rightarrow> \<exists>j. opened fd i j \<and> I j k))"

definition closes :: "(int \<Rightarrow> 'i \<Rightarrow> 'i \<Rightarrow> bool) \<Rightarrow> ('i \<Rightarrow> 'k \<Rightarrow> bool) \<Rightarrow> int \<Rightarrow> ('k, unit) prog \<Rightarrow> bool" where
  "closes opened I fd m \<longleftrightarrow> (\<forall>i j. opened fd i j \<longrightarrow> post (I j) m (\<lambda>_. I i))"

definition file_policy ::
    "'k file_sys \<Rightarrow> (string \<Rightarrow> bool) \<Rightarrow> ('i \<Rightarrow> 'k \<Rightarrow> bool) \<Rightarrow> (int \<Rightarrow> 'i \<Rightarrow> 'i \<Rightarrow> bool) \<Rightarrow> bool" where
  "file_policy fs ok I opened \<longleftrightarrow>
     (\<forall>i p. keeps (I i) (call (sys_stat fs p))) \<and>
     (\<forall>i p. keeps (I i) (call (sys_lstat fs p))) \<and>
     (\<forall>i p n. keeps (I i) (call (sys_readlink fs p n))) \<and>
     (\<forall>i p. keeps (I i) (call (sys_realpath fs p))) \<and>
     (\<forall>i fd n. keeps (I i) (query (sys_fgets fs fd n))) \<and>
     (\<forall>i fd n. keeps (I i) (call (sys_read fs fd n))) \<and>
     (\<forall>i fd d. keeps (I i) (call (sys_write fs fd d))) \<and>
     (\<forall>i p m. ok p \<longrightarrow> keeps (I i) (call (sys_mkdir fs p m))) \<and>
     (\<forall>i p. ok p \<longrightarrow> keeps (I i) (call (sys_unlink fs p))) \<and>
     (\<forall>i t p. ok p \<longrightarrow> keeps (I i) (call (sys_symlink fs t p))) \<and>
     (\<forall>p. opens opened I (call (sys_open fs p O_RDONLY))) \<and>
     (\<forall>p m. ok p \<longrightarrow> opens opened I (call (sys_open fs p (O_WRONLY_CREAT_TRUNC m)))) \<and>
     (\<forall>c. opens opened I (call (sys_popen fs c))) \<and>
     (\<forall>fd. closes opened I fd (call (sys_close fs fd))) \<and>
     (\<forall>fd. closes opened I fd (call (sys_pclose fs fd))) \<and>
     (\<forall>a b i j l. opened a i j \<longrightarrow> opened b j l \<longrightarrow> (\<exists>m. opened b i m \<and> opened a m l))"

lemma file_policyD:
  assumes "file_policy fs ok I opened"
  shows "keeps (I i) (call (sys_stat fs p))" "keeps (I i) (call (sys_lstat fs p))"
    "keeps (I i) (call (sys_readlink fs p n))" "keeps (I i) (call (sys_realpath fs p))"
    "keeps (I i) (query (sys_fgets fs fd n))" "keeps (I i) (call (sys_read fs fd n))"
    "keeps (I i) (call (sys_write fs fd d))"
    "ok p \<Longrightarrow> keeps (I i) (call (sys_mkdir fs p m))" "ok p \<Longrightarrow> keeps (I i) (call (sys_unlink fs p))"
    "ok p \<Longrightarrow> keeps (I i) (call (sys_symlink fs t p))"
    "opens opened I (call (sys_open fs p O_RDONLY))"
    "ok p \<Longrightarrow> opens opened I (call (sys_open fs p (O_WRONLY_CREAT_TRUNC m)))"
    "opens opened I (call (sys_popen fs c))"
    "closes opened I fd (call (sys_close fs fd))" "closes opened I fd (call (sys_pclose fs fd))"
    "opened a x y \<Longrightarrow> opened b y z \<Longrightarrow> \<exists>w. opened b x w \<and> opened a w z"
  using assms unfolding file_policy_def by (elim conjE, simp)+

lemma closesD: "closes opened I fd m \<Longrightarrow> opened fd i j \<Longrightarrow> post (I j) m (\<lambda>_. I i)"
  by (simp add: closes_def)

lemma opens_chain:
  assumes "opens opened I m" "\<And>fd j. opened fd i j \<Longrightarrow> post (I j) (f fd) (\<lambda>_. I i)"
  shows "keeps (I i) (chain m f)"
proof (rule post_chain)
  show "post (I i) m (\<lambda>r k. case r of Inl e \<Rightarrow> I i k | Inr fd \<Rightarrow> \<exists>j. opened fd i j \<and> I j k)"
    using assms(1) by (simp add: opens_def)
qed (use assms(2) in \<open>auto simp: post_def\<close>)

lemma opens_attempt:
  assumes "opens opened I m"
    "\<And>e. post (I j) (f (Inl e)) (\<lambda>_. I i)" "\<And>fd l. opened fd j l \<Longrightarrow> post (I l) (f (Inr fd)) (\<lambda>_. I i)"
  shows "post (I j) (attempt m f) (\<lambda>_. I i)"
proof (rule post_attempt)
  show "post (I j) m (\<lambda>r k. case r of Inl e \<Rightarrow> I j k | Inr fd \<Rightarrow> \<exists>l. opened fd j l \<and> I l k)"
    using assms(1) by (simp add: opens_def)
next
  fix r
  show "post (\<lambda>k. case r of Inl e \<Rightarrow> I j k | Inr fd \<Rightarrow> \<exists>l. opened fd j l \<and> I l k) (f r) (\<lambda>_. I i)"
    using assms(2,3) by (cases r) (auto simp: post_def)
qed

lemma keeps_of_result [post_intro]: "keeps I (of_result r)"
  by (cases r) (auto simp: of_result_def intro: post_intro)

section \<open>The operations under a policy\<close>

lemma post_andthen: "post P m (\<lambda>_. R) \<Longrightarrow> post R c (\<lambda>_. Q) \<Longrightarrow> post P (andthen m c) (\<lambda>_. Q)"
  unfolding post_def by (blast elim: andthenE)

lemma write_all_keeps:
  assumes "\<And>d. keeps I (call (sys_write fs fd d))" shows "keeps I (write_all fs fd data)"
proof -
  have "f = fs \<longrightarrow> d = fd \<longrightarrow> I k \<longrightarrow> I (snd y)" if "write_all f d data k = Some y" for f d data k y
    using that
  proof (rule write_all.raw_induct [rotated], goal_cases)
    case (1 g f d data k y)
    have IH: "keeps I (g fs fd data)" for data using 1(1) [of fs fd data] by (auto simp: post_def)
    have "keeps I (if data = [] then succeed () else attempt (call (sys_write fs fd data)) (\<lambda>w. case w of
        Inl e \<Rightarrow> if e = EINTR then g fs fd data else fail e | Inr n \<Rightarrow> g fs fd (drop n data)))"
      by (intro post_intro assms IH)
    with 1(2) show ?case by (cases y) (auto dest: postD)
  qed
  then show ?thesis by (fastforce simp: post_def)
qed

lemma copy_file_contents_keeps:
  assumes "\<And>n. keeps I (call (sys_read fs sfd n))" "\<And>d. keeps I (call (sys_write fs dfd d))"
  shows "keeps I (copy_file_contents fs sfd dfd)"
proof -
  have "f = fs \<longrightarrow> s = sfd \<longrightarrow> d = dfd \<longrightarrow> I k \<longrightarrow> I (snd y)" if "copy_file_contents f s d k = Some y" for f s d k y
    using that
  proof (rule copy_file_contents.raw_induct [rotated], goal_cases)
    case (1 g f s d k y)
    have IH: "keeps I (g fs sfd dfd)" using 1(1) [of fs sfd dfd] by (auto simp: post_def)
    have "keeps I (attempt (call (sys_read fs sfd 8192)) (\<lambda>r. case r of
        Inl e \<Rightarrow> if e = EINTR then g fs sfd dfd else fail e
      | Inr buffer \<Rightarrow> if buffer = [] then succeed ()
          else chain (write_all fs dfd buffer) (\<lambda>_. g fs sfd dfd)))"
      by (intro post_intro assms IH write_all_keeps)
    with 1(2) show ?case by (cases y) (auto dest: postD)
  qed
  then show ?thesis by (fastforce simp: post_def)
qed

lemma copy_regular_file_keeps:
  assumes P: "file_policy fs ok I opened" and ok: "ok dst"
  shows "keeps (I i) (copy_regular_file fs src dst)"
  unfolding copy_regular_file_def
proof (rule keeps_chain [OF file_policyD(1) [OF P]], rule opens_chain [OF file_policyD(11) [OF P]],
    rule opens_attempt [OF file_policyD(12) [OF P ok]], goal_cases)
  case (1 st sfd j e)
  show ?case
    unfolding sum.case by (rule post_andthen [OF post_fail closesD [OF file_policyD(14) [OF P] 1]])
next
  case (2 st sfd j dfd l)
  then obtain m where m: "opened dfd i m" "opened sfd m l" using file_policyD(16) [OF P] by blast
  note close_src = closesD [OF file_policyD(14) [OF P] m(2)]
    and close_dst = closesD [OF file_policyD(14) [OF P] m(1)]
  have contents: "keeps (I l) (copy_file_contents fs sfd dfd)"
    by (intro copy_file_contents_keeps file_policyD [OF P])
  show ?case
    unfolding sum.case
  proof (rule post_attempt [OF contents], split sum.split, intro conjI allI impI, goal_cases)
    case (1 r e)
    show ?case by (rule post_andthen [OF post_andthen [OF post_fail close_src] close_dst])
  next
    case (2 r x)
    show ?case
      by (rule post_attempt [OF close_src], split sum.split)
         (intro conjI allI impI post_andthen [OF post_fail close_dst] close_dst)
  qed
qed

text \<open>Lexically inside \<open>rootfs\<close>, or one of its ancestors.\<close>

definition within :: "string \<Rightarrow> string \<Rightarrow> bool" where
  "within rootfs p \<longleftrightarrow> prefix rootfs p \<or> prefix p rootfs"

lemma within_prefix: "prefix p (rootfs @ x) \<Longrightarrow> within rootfs p"
  using prefix_same_cases [of p "rootfs @ x" rootfs] by (auto simp: within_def)

lemma path_dirname_prefix: "path_dirname (Some p) n = Inr d \<Longrightarrow> prefix d p"
  by (auto simp: path_dirname_def Let_def take_is_prefix split: if_splits option.splits)

lemma path_fits_id: "path_fits n p = Inr q \<Longrightarrow> q = p"
  by (simp add: path_fits_def split: if_splits)

lemma mkdir_p_keeps:
  assumes P: "file_policy fs ok I opened" and ok: "\<And>q. prefix q p \<Longrightarrow> ok q"
  shows "keeps (I i) (mkdir_p fs (Some p) mode)"
proof -
  have "ok d" if "d \<in> set (mkdir_prefixes (strip_slash p))" for d
    using that mkdir_prefixes_prefix strip_slash_prefix ok prefix_order.order_trans by blast
  then show ?thesis
    unfolding mkdir_p_def option.case
    by (intro post_intro ensure_directory_keeps file_policyD [OF P])
qed

lemma chain_result:
  "(\<And>x. r = Inr x \<Longrightarrow> keeps I (f x)) \<Longrightarrow> keeps I (chain (of_result r) f)"
  by (cases r) (auto simp: of_result_def post_def chain_def)

lemma mkdir_dirname_keeps:
  assumes P: "file_policy fs (within rootfs) I opened" and dir: "path_dirname (Some (rootfs @ x)) n = Inr dir"
  shows "keeps (I i) (mkdir_p fs (Some dir) m)"
  using path_dirname_prefix [OF dir] prefix_order.order_trans within_prefix
  by (intro mkdir_p_keeps [OF P]) blast

lemma within_append: "within rootfs (rootfs @ x)"
  by (simp add: within_def)

lemma create_layout_keeps:
  assumes P: "file_policy fs (within rootfs) I opened"
  shows "keeps (I i) (create_layout fs rootfs)"
  unfolding create_layout_def
  by (intro keeps_each chain_result mkdir_p_keeps [OF P]) (auto dest!: path_fits_id dest: within_prefix)

lemma copy_symlink_keeps:
  assumes P: "file_policy fs (within rootfs) I opened"
  shows "keeps (I i) (copy_symlink fs src (rootfs @ x))"
  unfolding copy_symlink_def
  by (intro post_intro file_policyD [OF P] within_append)

lemma copy_path_keeps:
  assumes P: "file_policy fs (within rootfs) I opened"
  shows "keeps (I i) (copy_path_into_rootfs fs rootfs path)"
proof -
  have "f = fs \<longrightarrow> r = rootfs \<longrightarrow> I i k \<longrightarrow> I i (snd y)" if "copy_path_into_rootfs f r p k = Some y" for f r p k y
    using that
  proof (rule copy_path_into_rootfs.raw_induct [rotated], goal_cases)
    case (1 g f r host_path k y)
    have IH: "keeps (I i) (g fs rootfs p)" for p using 1(1) [of fs rootfs p] by (auto simp: post_def)
    have body: "keeps (I i) (if host_path = [] \<or> hd host_path \<noteq> CHR ''/'' then fail EINVAL
      else
        chain (of_result (path_fits PATH_MAX (rootfs @ host_path))) (\<lambda>destination.
        chain (of_result (path_dirname (Some destination) PATH_MAX)) (\<lambda>destination_dir.
        chain (mkdir_p fs (Some destination_dir) mode_0755) (\<lambda>_.
        chain (call (sys_lstat fs host_path)) (\<lambda>st.
          (if st_kind st = S_LNK then
             chain (call (sys_readlink fs host_path (PATH_MAX - 1))) (\<lambda>link_target.
             chain (copy_symlink fs host_path destination) (\<lambda>_.
             chain (of_result (resolve_symlink_target host_path link_target PATH_MAX)) (\<lambda>resolved_target.
               g fs rootfs resolved_target)))
           else if st_kind st \<noteq> S_REG then fail EINVAL
           else copy_regular_file fs host_path destination))))))"
      by (intro keeps_if post_fail chain_result keeps_chain)
         (auto dest!: path_fits_id intro: mkdir_dirname_keeps [OF P] IH copy_symlink_keeps [OF P]
            copy_regular_file_keeps [OF P within_append] file_policyD(2,3) [OF P])
    with 1(2) show ?case by (cases y) (auto dest: postD)
  qed
  then show ?thesis by (fastforce simp: post_def)
qed

lemma copy_host_binary_keeps:
  assumes P: "file_policy fs (within rootfs) I opened"
  shows "keeps (I i) (copy_host_binary_to_container_path fs rootfs host path)"
  unfolding copy_host_binary_to_container_path_def
  by (intro keeps_if post_fail chain_result keeps_chain)
     (auto dest!: path_fits_id intro: mkdir_dirname_keeps [OF P]
        copy_regular_file_keeps [OF P within_append] file_policyD(2) [OF P])

lemma dependency_loop_post:
  assumes P: "file_policy fs (within rootfs) I opened" and pipe: "opened pipe i j"
  shows "post (I j) (dependency_loop fs rootfs pipe) (\<lambda>_. I i)"
proof -
  note close = closesD [OF file_policyD(15) [OF P] pipe]
  have "f = fs \<longrightarrow> r = rootfs \<longrightarrow> q = pipe \<longrightarrow> I j k \<longrightarrow> I i (snd y)" if "dependency_loop f r q k = Some y" for f r q k y
    using that
  proof (rule dependency_loop.raw_induct [rotated], goal_cases)
    case (1 g f r q k y)
    have IH: "post (I j) (g fs rootfs pipe) (\<lambda>_. I i)" using 1(1) [of fs rootfs pipe] by (auto simp: post_def)
    have failed: "post (I j) (andthen (fail e :: (_, unit) prog) (call (sys_pclose fs pipe))) (\<lambda>_. I i)" for e
      by (rule post_andthen [OF post_fail close])
    have copy: "post (I j) (attempt (copy_path_into_rootfs fs rootfs d) (\<lambda>c. case c of
        Inl e \<Rightarrow> andthen (fail e) (call (sys_pclose fs pipe)) | Inr _ \<Rightarrow> g fs rootfs pipe)) (\<lambda>_. I i)" for d
      by (rule post_attempt [OF copy_path_keeps [OF P]], split sum.split) (intro conjI allI impI IH failed)
    have eof: "post (I j) (attempt (call (sys_pclose fs pipe)) (\<lambda>r. of_result r)) (\<lambda>_. I i)"
      by (rule post_attempt [OF close]) (rule keeps_of_result)
    have "post (I j) (chain (query (sys_fgets fs pipe (PATH_MAX * 2))) (\<lambda>l. case l of
        None \<Rightarrow> attempt (call (sys_pclose fs pipe)) (\<lambda>r. of_result r)
      | Some line \<Rightarrow> (case parse_ldd_dependency line PATH_MAX of
          Inl e \<Rightarrow> (if e = EINVAL then g fs rootfs pipe else andthen (fail e) (call (sys_pclose fs pipe)))
        | Inr dependency \<Rightarrow> attempt (copy_path_into_rootfs fs rootfs dependency) (\<lambda>c. case c of
              Inl e \<Rightarrow> andthen (fail e) (call (sys_pclose fs pipe)) | Inr _ \<Rightarrow> g fs rootfs pipe)))) (\<lambda>_. I i)"
    proof (rule post_chain [where R = "\<lambda>r k. I j k \<and> (\<exists>l. r = Inr l)"], goal_cases)
      case 1
      then show ?case using file_policyD(5) [OF P] by (auto simp: post_def query_def split: prod.splits)
    next
      case (2 l)
      have "post (I j) (case l of
          None \<Rightarrow> attempt (call (sys_pclose fs pipe)) (\<lambda>r. of_result r)
        | Some line \<Rightarrow> (case parse_ldd_dependency line PATH_MAX of
            Inl e \<Rightarrow> (if e = EINVAL then g fs rootfs pipe else andthen (fail e) (call (sys_pclose fs pipe)))
          | Inr dependency \<Rightarrow> attempt (copy_path_into_rootfs fs rootfs dependency) (\<lambda>c. case c of
                Inl e \<Rightarrow> andthen (fail e) (call (sys_pclose fs pipe)) | Inr _ \<Rightarrow> g fs rootfs pipe))) (\<lambda>_. I i)"
        using eof IH failed copy by (cases l) (simp_all split: sum.split)
      then show ?case by (rule post_weaken) simp_all
    qed simp
    with 1(2) show ?case by (cases y) (auto dest: postD)
  qed
  with pipe show ?thesis by (fastforce simp: post_def)
qed

lemma copy_binary_dependencies_keeps:
  assumes P: "file_policy fs (within rootfs) I opened"
  shows "keeps (I i) (copy_binary_dependencies fs rootfs binary)"
  unfolding copy_binary_dependencies_def
  by (intro chain_result opens_chain [OF file_policyD(13) [OF P]] dependency_loop_post [OF P])

lemma bootstrap_keeps:
  assumes P: "file_policy fs (within rootfs) I opened"
  shows "keeps (I i) (bootstrap_rootfs_tools fs rootfs)" "keeps (I i) (bootstrap_rootfs_workloads fs rootfs)"
  unfolding bootstrap_rootfs_tools_def bootstrap_rootfs_workloads_def
  by (intro post_intro copy_path_keeps [OF P] copy_binary_dependencies_keeps [OF P]
      copy_host_binary_keeps [OF P] file_policyD(4) [OF P])+

end
