(* ===== verification/Filesystem_Props.thy ===== *)
theory Filesystem_Props
  imports Filesystem_Safety
begin

text \<open>
  The properties of \<^verbatim>\<open>src/filesystem.c\<close>, stated against what the kernel documents, with a small
  concrete kernel that shows these hypotheses can hold.
\<close>

section \<open>What the kernel documents\<close>

text \<open>
  \<open>fds k\<close>: the open descriptors and pipes. Opening adds a new one, closing removes it (on Linux
  also when it reports an error), every other call leaves the set alone.
\<close>

definition fd_contract :: "'k file_sys \<Rightarrow> ('k \<Rightarrow> int set) \<Rightarrow> bool" where
  "fd_contract fs fds \<longleftrightarrow>
     file_policy fs (\<lambda>_. True) (\<lambda>F k. fds k = F) (\<lambda>fd F G. fd \<notin> F \<and> G = insert fd F)"

text \<open>\<open>touched k\<close>: the paths changed so far. A call that changes a path adds that path, no other does.\<close>

definition touch_contract :: "'k file_sys \<Rightarrow> ('k \<Rightarrow> string set) \<Rightarrow> bool" where
  "touch_contract fs touched \<longleftrightarrow>
     (\<forall>T. file_policy fs (\<lambda>p. p \<in> T) (\<lambda>(_ :: unit) k. touched k \<subseteq> T) (\<lambda>_ _ _. True))"

text \<open>
  \<open>inside k\<close>: the process sees the new root. A successful \<^verbatim>\<open>pivot_root\<close> or \<^verbatim>\<open>chroot\<close> enters it, and no
  other call leaves it.
\<close>

definition root_contract :: "'k file_sys \<Rightarrow> ('k \<Rightarrow> bool) \<Rightarrow> bool" where
  "root_contract fs inside \<longleftrightarrow>
     (\<forall>a b. post (\<lambda>_. True) (call (sys_pivot_root fs a b)) (\<lambda>r k. r = Inr () \<longrightarrow> inside k)) \<and>
     (\<forall>a. post (\<lambda>_. True) (call (sys_chroot fs a)) (\<lambda>r k. r = Inr () \<longrightarrow> inside k)) \<and>
     (\<forall>a. keeps inside (call (sys_chdir fs a))) \<and>
     (\<forall>a. keeps inside (call (sys_umount_detach fs a))) \<and>
     (\<forall>a. keeps inside (call (sys_rmdir fs a))) \<and>
     (\<forall>a b c d. keeps inside (call (sys_mount fs a b c d)))"

lemma root_contractD:
  assumes "root_contract fs inside"
  shows "post (\<lambda>_. True) (call (sys_pivot_root fs a b)) (\<lambda>r k. r = Inr () \<longrightarrow> inside k)"
    "post (\<lambda>_. True) (call (sys_chroot fs a)) (\<lambda>r k. r = Inr () \<longrightarrow> inside k)"
    "keeps inside (call (sys_chdir fs a))" "keeps inside (call (sys_umount_detach fs a))"
    "keeps inside (call (sys_rmdir fs a))" "keeps inside (call (sys_mount fs a' b' c' d'))"
  using assms unfolding root_contract_def by (elim conjE, simp)+

lemma file_policy_mono:
  assumes "file_policy fs ok I opened" "\<And>p. ok' p \<Longrightarrow> ok p" shows "file_policy fs ok' I opened"
  unfolding file_policy_def
  by (intro conjI allI impI) (rule file_policyD [OF assms(1)]; (assumption | rule assms(2), assumption)?)+

section \<open>A small kernel\<close>

text \<open>Operations that answer without changing anything, to be replaced where a kernel needs more.\<close>

definition quiet_fs :: "'k file_sys" where
  "quiet_fs = \<lparr>
     sys_stat = (\<lambda>p. State_Monad.return (Inl ENOENT)), sys_lstat = (\<lambda>p. State_Monad.return (Inl ENOENT)),
     sys_mkdir = (\<lambda>p m. State_Monad.return (Inr ())), sys_rmdir = (\<lambda>p. State_Monad.return (Inr ())),
     sys_open = (\<lambda>p m. State_Monad.return (Inl ENOENT)), sys_read = (\<lambda>fd n. State_Monad.return (Inr [])),
     sys_write = (\<lambda>fd d. State_Monad.return (Inr (length d))), sys_close = (\<lambda>fd. State_Monad.return (Inr ())),
     sys_readlink = (\<lambda>p n. State_Monad.return (Inl EINVAL)), sys_symlink = (\<lambda>t p. State_Monad.return (Inr ())),
     sys_unlink = (\<lambda>p. State_Monad.return (Inr ())), sys_realpath = (\<lambda>p. State_Monad.return (Inr p)),
     sys_popen = (\<lambda>c. State_Monad.return (Inl ENOENT)), sys_fgets = (\<lambda>fd n. State_Monad.return None),
     sys_pclose = (\<lambda>fd. State_Monad.return (Inr ())), sys_mount = (\<lambda>a b c d. State_Monad.return (Inr ())),
     sys_umount_detach = (\<lambda>p. State_Monad.return (Inr ())), sys_pivot_root = (\<lambda>a b. State_Monad.return (Inr ())),
     sys_chroot = (\<lambda>a. State_Monad.return (Inr ())), sys_chdir = (\<lambda>p. State_Monad.return (Inr ())),
     sys_fopen_w = (\<lambda>p. State_Monad.return (Inl ENOENT)), sys_fputs = (\<lambda>fd t. State_Monad.return (Inr ())),
     sys_fclose = (\<lambda>fd. State_Monad.return (Inr ()))\<rparr>"

text \<open>Directories are a set of paths, \<^verbatim>\<open>/bin/sh\<close> is the only regular file, and there is one file body.\<close>

record demo =
  d_dirs :: "string set"
  d_fds :: "int set"
  d_src :: string
  d_out :: string
  d_touched :: "string set"
  d_inside :: bool

definition d_open :: "demo \<Rightarrow> int result \<times> demo" where
  "d_open k = (if 3 \<notin> d_fds k then (Inr 3, k\<lparr>d_fds := insert 3 (d_fds k)\<rparr>)
     else if 4 \<notin> d_fds k then (Inr 4, k\<lparr>d_fds := insert 4 (d_fds k)\<rparr>)
     else if 5 \<notin> d_fds k then (Inr 5, k\<lparr>d_fds := insert 5 (d_fds k)\<rparr>) else (Inl 24, k))"

definition d_close :: "int \<Rightarrow> demo \<Rightarrow> unit result \<times> demo" where
  "d_close fd k = (Inr (), k\<lparr>d_fds := d_fds k - {fd}\<rparr>)"

definition d_stat :: "string \<Rightarrow> demo \<Rightarrow> stat_info result \<times> demo" where
  "d_stat p k = (if p \<in> d_dirs k then (Inr \<lparr>st_kind = S_DIR, st_mode = 493\<rparr>, k)
     else if p = ''/bin/sh'' then (Inr \<lparr>st_kind = S_REG, st_mode = 493\<rparr>, k) else (Inl ENOENT, k))"

definition d_touch :: "string \<Rightarrow> demo \<Rightarrow> demo" where
  "d_touch p k = k\<lparr>d_touched := insert p (d_touched k)\<rparr>"

definition demo_fs :: "demo file_sys" where
  "demo_fs = quiet_fs\<lparr>
     sys_stat := (\<lambda>p. State (d_stat p)),
     sys_lstat := (\<lambda>p. State (d_stat p)),
     sys_mkdir := (\<lambda>p m. State (\<lambda>k. (Inr (), d_touch p (k\<lparr>d_dirs := insert p (d_dirs k)\<rparr>)))),
     sys_open := (\<lambda>p m. State (\<lambda>k. d_open (case m of O_RDONLY \<Rightarrow> k | O_WRONLY_CREAT_TRUNC _ \<Rightarrow> d_touch p k))),
     sys_read := (\<lambda>fd n. State (\<lambda>k. (Inr (take n (d_src k)), k\<lparr>d_src := drop n (d_src k)\<rparr>))),
     sys_write := (\<lambda>fd d. State (\<lambda>k. (Inr (min 2 (length d)), k\<lparr>d_out := d_out k @ take 2 d\<rparr>))),
     sys_close := (\<lambda>fd. State (d_close fd)),
     sys_symlink := (\<lambda>t p. State (\<lambda>k. (Inr (), d_touch p k))),
     sys_unlink := (\<lambda>p. State (\<lambda>k. (Inr (), d_touch p k))),
     sys_popen := (\<lambda>c. State d_open),
     sys_pclose := (\<lambda>fd. State (d_close fd)),
     sys_pivot_root := (\<lambda>a b. State (\<lambda>k. (Inr (), k\<lparr>d_inside := True\<rparr>))),
     sys_chroot := (\<lambda>a. State (\<lambda>k. (Inr (), k\<lparr>d_inside := True\<rparr>)))\<rparr>"

definition demo_start :: demo where
  "demo_start = \<lparr>d_dirs = {''srv''}, d_fds = {}, d_src = ''abcde'', d_out = [], d_touched = {}, d_inside = False\<rparr>"

lemmas demo_defs = demo_fs_def quiet_fs_def d_open_def d_close_def d_touch_def d_stat_def

lemma demo_calls [simp]:
  "run_state (sys_stat demo_fs p) k = d_stat p k" "run_state (sys_lstat demo_fs p) k = d_stat p k"
  "run_state (sys_mkdir demo_fs p m) k = (Inr (), d_touch p (k\<lparr>d_dirs := insert p (d_dirs k)\<rparr>))"
  "run_state (sys_open demo_fs p om) k =
     d_open (case om of O_RDONLY \<Rightarrow> k | O_WRONLY_CREAT_TRUNC _ \<Rightarrow> d_touch p k)"
  "run_state (sys_read demo_fs fd n) k = (Inr (take n (d_src k)), k\<lparr>d_src := drop n (d_src k)\<rparr>)"
  "run_state (sys_write demo_fs fd d) k = (Inr (min 2 (length d)), k\<lparr>d_out := d_out k @ take 2 d\<rparr>)"
  "run_state (sys_close demo_fs fd) k = d_close fd k" "run_state (sys_pclose demo_fs fd) k = d_close fd k"
  "run_state (sys_popen demo_fs c) k = d_open k" "run_state (sys_fgets demo_fs fd n) k = (None, k)"
  "run_state (sys_realpath demo_fs p) k = (Inr p, k)"
  by (simp_all add: demo_fs_def quiet_fs_def)

lemma demo_copy: "copy_contract demo_fs s d d_src d_out (\<lambda>_. 0)"
  by (auto simp: copy_contract_def demo_defs min_def)

lemma demo_dirs: "dir_contract demo_fs (\<lambda>k p. p \<in> d_dirs k)" "no_dangling demo_fs"
  by (auto simp: dir_contract_def no_dangling_def demo_defs split: if_splits)

lemma demo_fds: "fd_contract demo_fs d_fds"
  unfolding fd_contract_def file_policy_def opens_def closes_def post_def
  by (intro conjI; (auto simp: demo_defs query_def split: if_splits))

lemma demo_touch: "touch_contract demo_fs d_touched"
  unfolding touch_contract_def file_policy_def opens_def closes_def post_def
  by (intro allI conjI; (auto simp: demo_defs query_def split: if_splits))

lemma demo_root: "root_contract demo_fs d_inside"
  by (auto simp: root_contract_def post_def demo_fs_def quiet_fs_def)

lemma demo_ensure:
  "ensure_directory demo_fs p m k = Some (if p \<in> d_dirs k then (Inr (), k)
     else if p = ''/bin/sh'' then (Inl ENOTDIR, k) else (Inr (), d_touch p (k\<lparr>d_dirs := insert p (d_dirs k)\<rparr>)))"
  by (subst ensure_directory.simps) (simp add: d_stat_def attempt_def)

lemma demo_contents: "d_src k = [] \<Longrightarrow> copy_file_contents demo_fs s d k = Some (Inr (), k)"
  by (subst copy_file_contents.simps) (simp add: attempt_def)

lemma demo_ldd: "dependency_loop demo_fs r fd k = Some (d_close fd k)"
  by (subst dependency_loop.simps) (simp add: d_close_def attempt_def chain_def query_def of_result_def)

lemma demo_copy_sh:
  assumes "d_src k = []" "d_fds k = {}" "''/r/bin'' \<in> d_dirs k" "''/r'' \<in> d_dirs k" "''/bin/sh'' \<notin> d_dirs k"
  shows "copy_path_into_rootfs demo_fs ''/r'' ''/bin/sh'' k = Some (Inr (), d_touch ''/r/bin/sh'' k)"
proof -
  have "mkdir_p demo_fs (Some ''/r/bin'') 493 k = Some (Inr (), k)"
    using assms by (simp add: mkdir_p_def strip_slash_def mkdir_prefixes_def demo_ensure chain_def)
  moreover have "copy_regular_file demo_fs ''/bin/sh'' ''/r/bin/sh'' k = Some (Inr (), d_touch ''/r/bin/sh'' k)"
    using assms
    by (cases k) (auto simp: copy_regular_file_def chain_def attempt_def demo_contents d_open_def d_close_def
      d_stat_def d_touch_def)
  ultimately show ?thesis
    using assms
    by (subst copy_path_into_rootfs.simps)
       (simp add: of_result_def path_fits_def path_dirname_def chain_def d_stat_def)
qed

definition demo_ready :: demo where
  "demo_ready = \<lparr>d_dirs = insert ''/r'' (set (map (\<lambda>d. ''/r/'' @ d) layout_dirs)), d_fds = {}, d_src = [], d_out = [],
     d_touched = {}, d_inside = False\<rparr>"

lemma demo_mkdir_bin:
  "{''/r'', ''/r/bin''} \<subseteq> d_dirs k \<Longrightarrow> mkdir_p demo_fs (Some ''/r/bin'') 493 k = Some (Inr (), k)"
  by (simp add: mkdir_p_def strip_slash_def mkdir_prefixes_def demo_ensure chain_def)

lemma demo_echo:
  "{''/r'', ''/r/bin''} \<subseteq> d_dirs k \<Longrightarrow> ''/bin/echo'' \<notin> d_dirs k \<Longrightarrow>
   copy_path_into_rootfs demo_fs ''/r'' ''/bin/echo'' k = Some (Inl ENOENT, k)"
  by (subst copy_path_into_rootfs.simps)
     (simp add: of_result_def path_fits_def path_dirname_def chain_def d_stat_def demo_mkdir_bin)

lemma demo_prepare:
  "filesystem_prepare_rootfs demo_fs (Some ''/r'') 512 demo_ready =
     Some (Inl ENOENT, d_touch ''/r/bin/sh'' demo_ready)"
proof -
  have dirs: "d_dirs demo_ready = {''/r'', ''/r/bin'', ''/r/lib'', ''/r/lib64'', ''/r/usr'', ''/r/usr/bin'',
      ''/r/usr/lib'', ''/r/usr/lib64'', ''/r/proc'', ''/r/tmp'', ''/r/dev'', ''/r/.old_root''}"
    by (simp add: demo_ready_def layout_dirs_def OLD_ROOT_DIR_def)
  have "mkdir_p demo_fs (Some ''/r'') 493 demo_ready = Some (Inr (), demo_ready)"
    by (simp add: mkdir_p_def strip_slash_def mkdir_prefixes_def demo_ensure chain_def dirs)
  moreover have "create_layout demo_fs ''/r'' demo_ready = Some (Inr (), demo_ready)"
    by (simp add: create_layout_def layout_dirs_def OLD_ROOT_DIR_def of_result_def path_fits_def mkdir_p_def
      strip_slash_def mkdir_prefixes_def demo_ensure chain_def dirs)
  moreover have "copy_path_into_rootfs demo_fs ''/r'' ''/bin/sh'' demo_ready = Some (Inr (), d_touch ''/r/bin/sh'' demo_ready)"
    by (rule demo_copy_sh) (simp_all add: dirs, simp_all add: demo_ready_def)
  moreover have "copy_binary_dependencies demo_fs ''/r'' ''/bin/sh'' k = Some (Inr (), k)" if "d_fds k = {}" for k
    using that by (cases k) (simp add: copy_binary_dependencies_def of_result_def path_fits_def chain_def d_open_def
      demo_ldd d_close_def)
  moreover have "copy_path_into_rootfs demo_fs ''/r'' ''/bin/echo'' (d_touch ''/r/bin/sh'' demo_ready)
      = Some (Inl ENOENT, d_touch ''/r/bin/sh'' demo_ready)"
    by (rule demo_echo) (simp_all add: d_touch_def dirs)
  moreover have "d_fds (d_touch ''/r/bin/sh'' demo_ready) = {}" by (simp add: d_touch_def demo_ready_def)
  ultimately show ?thesis
    by (simp add: filesystem_prepare_rootfs_def chain_def bootstrap_rootfs_tools_def bootstrap_binaries_def)
qed

section \<open>Properties\<close>

text \<open>
  (C31) The copy loop always returns, as long as only finitely many calls are interrupted. When
  it succeeds the destination has received exactly the rest of the source, whatever the sizes
  of the partial writes; when it fails the destination holds a prefix of it, and the error is
  never \<^verbatim>\<open>EINTR\<close>.
\<close>

theorem copy_file_contents_complete:
  assumes "copy_contract fs src_fd dst_fd rest out patience"
  shows "\<exists>r k'. copy_file_contents fs src_fd dst_fd k = Some (r, k') \<and>
    (case r of Inr _ \<Rightarrow> out k' = out k @ rest k
     | Inl e \<Rightarrow> e \<noteq> EINTR \<and> (\<exists>v. prefix v (rest k) \<and> out k' = out k @ v))"
  using copy_file_contents_total [OF assms, of k] unfolding copied_def by blast

theorem copy_file_contents_complete_witness:
  "\<exists>r k'. copy_file_contents demo_fs 3 4 demo_start = Some (r, k') \<and>
    (case r of Inr _ \<Rightarrow> d_out k' = d_out demo_start @ d_src demo_start
     | Inl e \<Rightarrow> e \<noteq> EINTR \<and> (\<exists>v. prefix v (d_src demo_start) \<and> d_out k' = d_out demo_start @ v))"
  by (rule copy_file_contents_complete [OF demo_copy])

text \<open>
  (C32) \<^verbatim>\<open>mkdir_p\<close> returns when no path exists that cannot be examined, keeps every directory, and
  on success the path and all its ancestors are directories.
\<close>

theorem mkdir_p_makes_ancestors:
  assumes "dir_contract fs isdir" and "no_dangling fs"
  shows "\<exists>r k'. mkdir_p fs (Some p) mode k = Some (r, k') \<and> (\<forall>q. isdir k q \<longrightarrow> isdir k' q) \<and>
    (r = Inr () \<longrightarrow> (\<forall>d. ancestor d (strip_slash p) \<longrightarrow> isdir k' d))"
proof -
  obtain r k' where run: "mkdir_p fs (Some p) mode k = Some (r, k')"
    using each_total [of "\<lambda>d. ensure_directory fs d mode" "mkdir_prefixes (strip_slash p)" k,
      OF ensure_directory_total [OF assms(2)]]
    by (fastforce simp: mkdir_p_def)
  with postD [OF mkdir_p_isdir [OF assms(1), of "Collect (isdir k)"] _ run] show ?thesis by auto
qed

theorem mkdir_p_makes_ancestors_witness:
  "\<exists>r k'. mkdir_p demo_fs (Some ''srv/a/'') 493 demo_start = Some (r, k') \<and>
    (\<forall>q. q \<in> d_dirs demo_start \<longrightarrow> q \<in> d_dirs k') \<and>
    (r = Inr () \<longrightarrow> (\<forall>d. ancestor d (strip_slash ''srv/a/'') \<longrightarrow> d \<in> d_dirs k'))"
  by (rule mkdir_p_makes_ancestors [OF demo_dirs])

text \<open>
  (C33) Preparing a root file system leaves no descriptor or pipe open, on success and on every
  error path.
\<close>

theorem prepare_no_fd_leak:
  assumes "fd_contract fs fds"
    and "filesystem_prepare_rootfs fs requested n k = Some (r, k')"
  shows "fds k' = fds k"
proof -
  let ?I = "\<lambda>F k. fds k = F" and ?o = "\<lambda>fd F G. fd \<notin> F \<and> G = insert fd F"
  have P: "file_policy fs (\<lambda>_. True) ?I ?o" using assms(1) by (simp add: fd_contract_def)
  have Q: "file_policy fs (within root) ?I ?o" for root by (rule file_policy_mono [OF P]) simp
  have "keeps (?I (fds k)) (filesystem_prepare_rootfs fs requested n)"
    unfolding filesystem_prepare_rootfs_def
    by (intro post_intro mkdir_p_keeps [OF P] TrueI file_policyD(4) [OF P] create_layout_keeps [OF Q]
      bootstrap_keeps [OF Q])
  from postD [OF this refl assms(2)] show ?thesis .
qed

theorem prepare_no_fd_leak_witness:
  "filesystem_prepare_rootfs demo_fs (Some ''/r'') 512 demo_ready = Some (Inl ENOENT, d_touch ''/r/bin/sh'' demo_ready)
   \<and> d_fds (d_touch ''/r/bin/sh'' demo_ready) = d_fds demo_ready"
  using prepare_no_fd_leak [OF demo_fds demo_prepare] demo_prepare by simp



lemma isolate_inside:
  assumes "root_contract fs inside"
    and "filesystem_isolate_rootfs fs config k = Some (Inr (), k')"
  shows "inside k'"
proof -
  note C = root_contractD [OF assms(1)]
  let ?Q = "\<lambda>r k. r = Inr () \<longrightarrow> inside k"
  have True_keeps: "post (\<lambda>_. True) m (\<lambda>_ _. True)" for m :: "('a, 'b) prog" by (simp add: post_def)
  have last: "post inside m ?Q" if "keeps inside m" for m :: "('a, unit) prog" using that by (auto simp: post_def)
  have step: "post (\<lambda>_. True) (chain m f) ?Q"
    if "\<And>x. post (\<lambda>_. True) (f x) ?Q" for m :: "('a, 'b) prog" and f
    by (rule post_chain [OF True_keeps]) (use that in auto)
  have into: "post (\<lambda>_. True) (chain m f) ?Q" if "post (\<lambda>_. True) m ?Q" "\<And>x. post inside (f x) ?Q" for m f
    by (rule post_chain [OF that(1)]) (use that(2) in \<open>auto simp: post_def\<close>)
  have stay: "post inside (chain m f) ?Q" if "keeps inside m" "\<And>x. post inside (f x) ?Q" for m :: "('a, unit) prog" and f
    by (rule post_chain [OF that(1)]) (use that(2) in auto)
  have pivot: "post (\<lambda>_. True) (enter_root_with_pivot_root fs root) ?Q" for root
    unfolding enter_root_with_pivot_root_def
    by (rule step, rule step, rule step, rule step, rule into [OF C(1)], rule stay [OF C(3)], rule stay [OF C(4)])
       (rule last [OF C(5)])
  have chroot: "post (\<lambda>_. True) (enter_root_with_chroot fs root) ?Q" for root
    unfolding enter_root_with_chroot_def by (rule step, rule into [OF C(2)]) (rule last [OF C(3)])
  have enter: "post (\<lambda>_. True) (unless {EPERM, EINVAL} (enter_root_with_pivot_root fs root)
      (enter_root_with_chroot fs root)) ?Q" for root
    unfolding unless_def
    by (rule post_attempt [OF pivot], split sum.split)
       (auto intro!: post_succeed post_fail post_weaken [OF chroot])
  have proc: "post inside (unless {EPERM} (call (sys_mount fs a b c d)) (succeed ())) ?Q" for a b c d
    unfolding unless_def
    by (rule post_attempt [OF C(6)], split sum.split) (auto intro!: post_succeed post_fail)
  have "post (\<lambda>_. True) (filesystem_isolate_rootfs fs config) ?Q"
    unfolding filesystem_isolate_rootfs_def
    by (split option.split) (auto intro!: post_fail step into [OF enter] proc)
  from postD [OF this _ assms(2)] show ?thesis by simp
qed



text \<open>
  The two forms of a line of \<^verbatim>\<open>ldd\<close> are read correctly: for a library that was found the
  path after the arrow, for the loader the path at the start of the line, and a library that
  was not found is the error \<^verbatim>\<open>ENOENT\<close>.
\<close>

theorem parse_ldd_lines:
  assumes "hd path = CHR ''/''" and "path \<noteq> []" and "length path < size_limit"
    and "\<forall>c \<in> set path. c \<noteq> CHR '' '' \<and> c \<noteq> CHR 0x09 \<and> c \<noteq> CHR 0x0A"
    and "CHR ''='' \<notin> set lib" and "CHR ''='' \<notin> set path" and "CHR ''='' \<notin> set addr"
  shows "parse_ldd_dependency (lib @ '' => '' @ path @ '' '' @ addr) size_limit = Inr path
    \<and> parse_ldd_dependency (CHR 0x09 # path @ '' '' @ addr) size_limit = Inr path
    \<and> parse_ldd_dependency (lib @ '' => not found'' @ addr) size_limit = Inl ENOENT"
proof (intro conjI)
  obtain rest where path: "path = CHR ''/'' # rest" using assms(1,2) by (cases path) auto
  have stop: "takeWhile (\<lambda>c. c \<noteq> CHR '' '' \<and> c \<noteq> CHR 0x09 \<and> c \<noteq> CHR 0x0A) (path @ '' '' @ addr) = path"
    using assms(4) by (simp add: takeWhile_append2)
  have lib: "strstr (lib @ '' '' @ CHR ''='' # n @ r) (CHR ''='' # n) = Some (CHR ''='' # n @ r)" for n r
    using strstr_char_prefix [of "CHR ''=''" "lib @ '' ''" n r] assms(5) by simp
  have none: "strstr s ''=> not found'' = None" if "CHR ''='' \<notin> set s" for s
    using that by (auto simp: strstr_None_iff dest: set_mono_sublist)
  have arrow: "strstr (lib @ '' => '' @ path @ '' '' @ addr) ''=> not found'' = None"
    using strstr_skip [of "CHR ''=''" lib "'' => '' @ path @ '' '' @ addr" "''> not found''"] assms(5-7) path
      none [of "rest @ '' '' @ addr"] by simp
  show "parse_ldd_dependency (lib @ '' => '' @ path @ '' '' @ addr) size_limit = Inr path"
    using assms(3) arrow stop lib [of "''> ''" "path @ '' '' @ addr"] path
    by (simp add: parse_ldd_dependency_def)
  have plain: "CHR ''='' \<notin> set (CHR 0x09 # path @ '' '' @ addr)" using assms(6,7) by simp
  then have "strstr (CHR 0x09 # path @ '' '' @ addr) ''=> '' = None"
    by (auto simp: strstr_None_iff dest: set_mono_sublist)
  with none [OF plain] show "parse_ldd_dependency (CHR 0x09 # path @ '' '' @ addr) size_limit = Inr path"
    using assms(3) stop path by (simp add: parse_ldd_dependency_def)
  show "parse_ldd_dependency (lib @ '' => not found'' @ addr) size_limit = Inl ENOENT"
    using assms(3) lib [of "''> not found''" addr] by (simp add: parse_ldd_dependency_def)
qed

theorem parse_ldd_lines_witness:
  "parse_ldd_dependency (''libc.so.6'' @ '' => '' @ ''/lib/libc.so.6'' @ '' '' @ ''(0x7f)'') PATH_MAX = Inr ''/lib/libc.so.6''"
  by (rule parse_ldd_lines [THEN conjunct1]) simp_all


definition dangling_fs :: "demo file_sys" where
  "dangling_fs = demo_fs\<lparr>sys_stat := (\<lambda>p. State (\<lambda>k. (Inl ENOENT, k))), sys_mkdir := (\<lambda>p m. State (\<lambda>k. (Inl EEXIST, k)))\<rparr>"


text \<open>The components of a path with \<^verbatim>\<open>..\<close> resolved, as the kernel walks it (the root's parent is the root).\<close>

fun walk :: "string list \<Rightarrow> string list \<Rightarrow> string list" where
  "walk [] at = rev at"
| "walk (c # cs) at = (if c = ''.'' then walk cs at else if c = ''..'' then walk cs (tl at) else walk cs (c # at))"

definition resolve_path :: "string \<Rightarrow> string list" where
  "resolve_path p = walk (strtok {CHR ''/''} p) []"

text \<open>
  The resolved target of a relative symbolic link is joined to the root without removing
  its \<^verbatim>\<open>..\<close> components: a host link such as \<^verbatim>\<open>/a/l -> ../../etc/x\<close>, which the host resolves to
  \<^verbatim>\<open>/etc/x\<close>, is copied to a path outside the container's root.
\<close>

theorem symlink_target_escapes:
  "resolve_symlink_target ''/a/l'' ''../../etc/x'' PATH_MAX = Inr ''/a/../../etc/x''
   \<and> resolve_path ''/a/../../etc/x'' = [''etc'', ''x'']
   \<and> resolve_path (''/srv/root'' @ ''/a/../../etc/x'') = [''srv'', ''etc'', ''x'']"
  by (simp add: resolve_symlink_target_def path_dirname_def path_fits_def resolve_path_def strtok.simps Let_def)

end
