(* ===== verification/Namespace_Props.thy ===== *)
theory Namespace_Props
  imports Namespace Filesystem_Props
begin

text \<open>
  Properties of \<^verbatim>\<open>src/namespace.c\<close>: the records on the status pipe survive the trip, starting a
  container leaves no descriptor open and no child behind when it fails, and the argument
  vector of the command is split as documented.
\<close>

section \<open>Bytes\<close>

lemma length_le32 [simp]: "length (le32 i) = 4"
  by (simp add: le32_def Let_def)

lemma length_encode_status [simp]: "length (encode_status st) = 12"
  by (simp add: encode_status_def)

lemma encode_status_not_Nil [simp]: "encode_status st \<noteq> []"
  using length_encode_status [of st] by (metis list.size(3) zero_neq_numeral)

lemma digits_256:
  "n < 4294967296 \<Longrightarrow>
   n mod 256 + 256 * (n div 256 mod 256) + 65536 * (n div 65536 mod 256) + 16777216 * (n div 16777216 mod 256) = (n :: nat)"
proof -
  assume n: "n < 4294967296"
  have "n = 256 * (n div 256) + n mod 256" by simp
  moreover have "n div 256 = 256 * (n div 65536) + n div 256 mod 256"
    using div_mult2_eq [of n 256 256] by simp
  moreover have "n div 65536 = 256 * (n div 16777216) + n div 65536 mod 256"
    using div_mult2_eq [of n 65536 256] by simp
  moreover have "n div 16777216 mod 256 = n div 16777216" using n by simp
  ultimately show ?thesis by linarith
qed

lemma of_le32_le32: "INT_MIN \<le> i \<Longrightarrow> i \<le> INT_MAX \<Longrightarrow> of_le32 (le32 i) = i"
proof -
  assume i: "INT_MIN \<le> i" "i \<le> INT_MAX"
  let ?n = "nat (i mod 4294967296)"
  have "?n < 4294967296" by (simp add: nat_less_iff)
  have "of_le32 [char_of (n mod 256), char_of (n div 256 mod 256), char_of (n div 65536 mod 256),
      char_of (n div 16777216 mod 256)] = cast_int (int (n mod 256 + 256 * (n div 256 mod 256)
      + 65536 * (n div 65536 mod 256) + 16777216 * (n div 16777216 mod 256)))" for n :: nat
    by (simp add: of_le32_def)
  from this [of ?n, unfolded digits_256 [OF \<open>?n < 4294967296\<close>]] have "of_le32 (le32 i) = cast_int (int ?n)" by (simp add: le32_def Let_def)
  also have "\<dots> = cast_int i" by (simp add: cast_int_def mod_simps)
  also have "\<dots> = i" using i by (rule cast_int_id)
  finally show ?thesis .
qed

definition status_ok :: "NamespaceStatus \<Rightarrow> bool" where
  "status_ok st \<longleftrightarrow> (\<forall>v \<in> {ready st, error_number st, namespace_pid st}. INT_MIN \<le> v \<and> v \<le> INT_MAX)"

lemma decode_encode_status: "status_ok st \<Longrightarrow> decode_status (encode_status st) = st"
  by (simp add: status_ok_def decode_status_def encode_status_def of_le32_le32)

section \<open>Reading the status\<close>

text \<open>
  \<open>rest k\<close> is what can still be read from the descriptor. A read hands out a non-empty prefix of
  at most the requested length, nothing only at the end of the file, and is interrupted
  finitely often.
\<close>

definition pipe_contract :: "'k file_sys \<Rightarrow> int \<Rightarrow> ('k \<Rightarrow> string) \<Rightarrow> ('k \<Rightarrow> nat) \<Rightarrow> bool" where
  "pipe_contract fs fd rest patience \<longleftrightarrow>
     (\<forall>k n r k'. 0 < n \<longrightarrow> run_state (sys_read fs fd n) k = (r, k') \<longrightarrow>
        (case r of Inl e \<Rightarrow> e = EINTR \<and> rest k' = rest k \<and> patience k' < patience k
         | Inr d \<Rightarrow> length d \<le> n \<and> rest k = d @ rest k' \<and> (d = [] \<longrightarrow> rest k = [])))"

lemmas pipe_contractD = pipe_contract_def [THEN iffD1, rule_format]

lemma read_status_total:
  assumes C: "pipe_contract fs fd rest patience" and "length buffer \<le> 12"
  shows "\<exists>k'. read_status fs fd buffer k =
     Some (Inr (12 \<le> length (buffer @ rest k), take 12 (buffer @ rest k)), k')"
  using assms(2)
proof (induction "(12 - length buffer, patience k)" arbitrary: buffer k rule: wf_induct_rule [OF wf_lex_prod [OF wf_less_than wf_less_than]])
  case (1 buffer k)
  note unfold = read_status.simps [of fs fd buffer k]
  show ?case
  proof (cases "length buffer < 12")
    case True
    obtain r1 k1 where step: "run_state (sys_read fs fd (12 - length buffer)) k = (r1, k1)" by fastforce
    note law = pipe_contractD [OF C _ step]
    show ?thesis
    proof (cases r1)
      case (Inl e)
      with law True have e: "e = EINTR" "rest k1 = rest k" "patience k1 < patience k" by auto
      with step Inl True have "read_status fs fd buffer k = read_status fs fd buffer k1"
        by (simp add: unfold attempt_Some)
      with "1.hyps" [of buffer k1] e "1.prems" show ?thesis by (simp add: lex_prod_def)
    next
      case (Inr d)
      with law True have d: "length d \<le> 12 - length buffer" "rest k = d @ rest k1" "d = [] \<longrightarrow> rest k = []" by auto
      show ?thesis
      proof (cases "d = []")
        case True
        with step Inr \<open>length buffer < 12\<close> d show ?thesis by (simp add: unfold attempt_Some)
      next
        case False
        with step Inr \<open>length buffer < 12\<close> have "read_status fs fd buffer k = read_status fs fd (buffer @ d) k1"
          by (simp add: unfold attempt_Some)
        moreover have "12 - length (buffer @ d) < 12 - length buffer"
          using False \<open>length buffer < 12\<close> by (cases d) auto
        ultimately show ?thesis using "1.hyps" [of "buffer @ d" k1] d \<open>length buffer < 12\<close>
          by (simp add: lex_prod_def)
      qed
    qed
  qed (use "1.prems" in \<open>simp add: unfold\<close>)
qed

section \<open>Descriptors and children of the parent\<close>

text \<open>
  \<open>fds k\<close> and \<open>kids k\<close>: the open descriptors and the children not yet waited for. \<^verbatim>\<open>pipe\<close> and
  \<^verbatim>\<open>fopen\<close> open new descriptors, \<^verbatim>\<open>close\<close> and \<^verbatim>\<open>fclose\<close> close them, \<^verbatim>\<open>clone\<close> makes a new child, and
  a \<^verbatim>\<open>waitpid\<close> that blocks (and is not interrupted) reaps it; the other calls change neither.
\<close>

definition here :: "('k \<Rightarrow> int set) \<Rightarrow> ('k \<Rightarrow> pid set) \<Rightarrow> int set \<Rightarrow> pid set \<Rightarrow> 'k \<Rightarrow> bool" where
  "here fds kids F C k \<longleftrightarrow> fds k = F \<and> kids k = C"

definition parent_contract ::
    "'k file_sys \<Rightarrow> 'k proc_sys \<Rightarrow> 'k clone_op \<Rightarrow> ('k \<Rightarrow> int set) \<Rightarrow> ('k \<Rightarrow> pid set) \<Rightarrow> bool" where
  "parent_contract fs ps clone fds kids \<longleftrightarrow>
     (\<forall>F C fd n. keeps (here fds kids F C) (call (sys_read fs fd n))) \<and>
     (\<forall>F C fd d. keeps (here fds kids F C) (call (sys_write fs fd d))) \<and>
     (\<forall>F C fd t. keeps (here fds kids F C) (call (sys_fputs fs fd t))) \<and>
     (\<forall>F C. keeps (here fds kids F C) (query (sys_geteuid ps))) \<and>
     (\<forall>F C. keeps (here fds kids F C) (query (sys_getegid ps))) \<and>
     (\<forall>F C fd. keeps (here fds kids F C) (call (sys_set_cloexec ps fd))) \<and>
     (\<forall>F C p s. keeps (here fds kids F C) (call (sys_kill ps p s))) \<and>
     (\<forall>F C fd. post (here fds kids F C) (call (sys_close fs fd)) (\<lambda>_. here fds kids (F - {fd}) C)) \<and>
     (\<forall>F C fd. post (here fds kids F C) (call (sys_fclose fs fd)) (\<lambda>_. here fds kids (F - {fd}) C)) \<and>
     (\<forall>F C p. post (here fds kids F C) (call (sys_fopen_w fs p)) (\<lambda>r k. case r of
        Inl e \<Rightarrow> here fds kids F C k | Inr fd \<Rightarrow> fd \<notin> F \<and> here fds kids (insert fd F) C k)) \<and>
     (\<forall>F C. post (here fds kids F C) (call (sys_pipe ps)) (\<lambda>r k. case r of
        Inl e \<Rightarrow> here fds kids F C k
      | Inr (a, b) \<Rightarrow> a \<noteq> b \<and> a \<notin> F \<and> b \<notin> F \<and> here fds kids (insert a (insert b F)) C k)) \<and>
     (\<forall>F C fl a. post (here fds kids F C) (call (clone fl a)) (\<lambda>r k. case r of
        Inl e \<Rightarrow> here fds kids F C k | Inr p \<Rightarrow> p \<notin> C \<and> here fds kids F (insert p C) k)) \<and>
     (\<forall>F C p. post (here fds kids F C) (call (sys_waitpid ps p False)) (\<lambda>_. here fds kids F (C - {p})))"

lemma parent_contractD:
  assumes "parent_contract fs ps clone fds kids"
  shows "keeps (here fds kids F C) (call (sys_read fs fd n))"
    "keeps (here fds kids F C) (call (sys_write fs fd d))"
    "keeps (here fds kids F C) (call (sys_fputs fs fd t))"
    "keeps (here fds kids F C) (query (sys_geteuid ps))"
    "keeps (here fds kids F C) (query (sys_getegid ps))"
    "keeps (here fds kids F C) (call (sys_set_cloexec ps fd))"
    "keeps (here fds kids F C) (call (sys_kill ps p sg))"
    "post (here fds kids F C) (call (sys_close fs fd)) (\<lambda>_. here fds kids (F - {fd}) C)"
    "post (here fds kids F C) (call (sys_fclose fs fd)) (\<lambda>_. here fds kids (F - {fd}) C)"
    "post (here fds kids F C) (call (sys_fopen_w fs path)) (\<lambda>r k. case r of
        Inl e \<Rightarrow> here fds kids F C k | Inr fd \<Rightarrow> fd \<notin> F \<and> here fds kids (insert fd F) C k)"
    "post (here fds kids F C) (call (sys_pipe ps)) (\<lambda>r k. case r of
        Inl e \<Rightarrow> here fds kids F C k
      | Inr (a, b) \<Rightarrow> a \<noteq> b \<and> a \<notin> F \<and> b \<notin> F \<and> here fds kids (insert a (insert b F)) C k)"
    "post (here fds kids F C) (call (clone fl ca)) (\<lambda>r k. case r of
        Inl e \<Rightarrow> here fds kids F C k | Inr p \<Rightarrow> p \<notin> C \<and> here fds kids F (insert p C) k)"
    "post (here fds kids F C) (call (sys_waitpid ps p False)) (\<lambda>_. here fds kids F (C - {p}))"
  using assms unfolding parent_contract_def by (elim conjE, simp)+

lemma post_and_value:
  "post P m (\<lambda>r k. r = r0 \<and> R k) \<Longrightarrow> post R c (\<lambda>_. Q) \<Longrightarrow> post P (andthen m c) (\<lambda>r k. r = r0 \<and> Q k)"
  unfolding post_def by (blast elim: andthenE)

lemma post_failed: "post P (fail e) (\<lambda>r k. r = Inl e \<and> P k)"
  by (simp add: post_def)

lemma close_all_post:
  assumes P: "parent_contract fs ps clone fds kids"
  shows "post (here fds kids F C) (close_all fs ds) (\<lambda>r k. r = Inr () \<and> here fds kids (F - set ds) C k)"
proof (induction ds arbitrary: F)
  case (Cons d ds)
  have "F - set (d # ds) = (F - {d}) - set ds" by auto
  with Cons.IH [of "F - {d}"] show ?case
    unfolding close_all.simps by (intro post_attempt [OF parent_contractD(8) [OF P]]) simp
qed (simp add: post_def close_all.simps)

lemma reap_post:
  assumes P: "parent_contract fs ps clone fds kids"
  shows "post (here fds kids F C) (reap ps p) (\<lambda>_. here fds kids F (C - {p}))"
    and "post (here fds kids F C) (kill_and_reap ps p) (\<lambda>_. here fds kids F (C - {p}))"
proof -
  show reap: "post (here fds kids F C) (reap ps p) (\<lambda>_. here fds kids F (C - {p}))"
    unfolding reap_def by (rule post_attempt [OF parent_contractD(13) [OF P]]) (simp add: post_succeed)
  show "post (here fds kids F C) (kill_and_reap ps p) (\<lambda>_. here fds kids F (C - {p}))"
    unfolding kill_and_reap_def by (rule post_attempt [OF parent_contractD(7) [OF P] reap])
qed

lemma write_text_file_keeps:
  assumes P: "parent_contract fs ps clone fds kids"
  shows "keeps (here fds kids F C) (write_text_file fs path content)"
  unfolding write_text_file_def
proof (rule post_chain [OF parent_contractD(10) [OF P]], goal_cases)
  case (1 fd)
  have close: "post (here fds kids (insert fd F) C) (call (sys_fclose fs fd)) (\<lambda>_. here fds kids F C)" if "fd \<notin> F"
    using parent_contractD(9) [OF P, of "insert fd F" C fd] that by simp
  have "post (here fds kids (insert fd F) C) (attempt (call (sys_fputs fs fd content)) (\<lambda>r. case r of
      Inl e \<Rightarrow> andthen (fail e) (call (sys_fclose fs fd)) | Inr _ \<Rightarrow> call (sys_fclose fs fd))) (\<lambda>_. here fds kids F C)"
    if "fd \<notin> F"
    by (rule post_attempt [OF parent_contractD(3) [OF P]], split sum.split)
       (auto intro: post_andthen [OF post_fail close [OF that]] close [OF that])
  then show ?case by (auto simp: post_def)
qed simp

lemma configure_keeps:
  assumes P: "parent_contract fs ps clone fds kids"
  shows "keeps (here fds kids F C) (configure_user_namespace fs ps p)"
  unfolding configure_user_namespace_def unless_def
  by (intro post_intro write_text_file_keeps [OF P] parent_contractD(4,5) [OF P])

lemma read_status_keeps:
  assumes "\<And>n. keeps I (call (sys_read fs fd n))" shows "keeps I (read_status fs fd buffer)"
proof -
  have "f = fs \<longrightarrow> d = fd \<longrightarrow> I k \<longrightarrow> I (snd y)" if "read_status f d buffer k = Some y" for f d buffer k y
    using that
  proof (rule read_status.raw_induct [rotated], goal_cases)
    case (1 g f d buffer k y)
    have IH: "keeps I (g fs fd b)" for b using 1(1) [of fs fd b] by (auto simp: post_def)
    have "keeps I (if length buffer \<ge> 12 then succeed (length buffer = 12, buffer)
      else attempt (call (sys_read fs fd (12 - length buffer))) (\<lambda>r. case r of
        Inl e \<Rightarrow> if e = EINTR then g fs fd buffer else succeed (False, buffer)
      | Inr bytes \<Rightarrow> if bytes = [] then succeed (length buffer = 12, buffer) else g fs fd (buffer @ bytes)))"
      by (intro post_intro assms IH)
    with 1(2) show ?case by (cases y) (auto dest: postD)
  qed
  then show ?thesis by (fastforce simp: post_def)
qed

lemma read_status_no_error: "read_status fs fd buffer k = Some (r, k') \<Longrightarrow> \<exists>x. r = Inr x"
proof -
  have "\<exists>x. fst y = Inr x" if "read_status f d b k = Some y" for f d b k y
    using that
  proof (rule read_status.raw_induct [rotated], goal_cases)
    case (1 g f d b k y)
    from 1(2) 1(1) show ?case
      by (cases y) (fastforce elim!: attemptE split: if_splits sum.splits)
  qed
  then show "read_status fs fd buffer k = Some (r, k') \<Longrightarrow> \<exists>x. r = Inr x" by fastforce
qed

lemma read_exec_status_post:
  assumes P: "parent_contract fs ps clone fds kids"
  shows "post (here fds kids F C) (read_exec_status fs fd) (\<lambda>_. here fds kids (F - {fd}) C)"
proof -
  note close = parent_contractD(8) [OF P, of F C fd]
  have "f = fs \<longrightarrow> d = fd \<longrightarrow> here fds kids F C k \<longrightarrow> here fds kids (F - {fd}) C (snd y)"
    if "read_exec_status f d k = Some y" for f d k y
    using that
  proof (rule read_exec_status.raw_induct [rotated], goal_cases)
    case (1 g f d k y)
    have IH: "post (here fds kids F C) (g fs fd) (\<lambda>_. here fds kids (F - {fd}) C)"
      using 1(1) [of fs fd] by (auto simp: post_def)
    have "post (here fds kids F C) (attempt (call (sys_read fs fd 4)) (\<lambda>r. case r of
        Inl e \<Rightarrow> if e = EINTR then g fs fd else andthen (fail e) (call (sys_close fs fd))
      | Inr bytes \<Rightarrow> andthen (if bytes = [] then succeed ()
                  else if length bytes = 4 then fail (of_le32 bytes) else fail EPROTO) (call (sys_close fs fd))))
      (\<lambda>_. here fds kids (F - {fd}) C)"
      by (rule post_attempt [OF parent_contractD(1) [OF P]], split sum.split)
         (auto intro: IH post_andthen [OF post_fail close] post_andthen [OF post_succeed close])
    with 1(2) show ?case by (cases y) (auto dest: postD)
  qed
  then show ?thesis by (fastforce simp: post_def)
qed

text \<open>What the parent leaves behind when it returns.\<close>

definition settled :: "('k \<Rightarrow> int set) \<Rightarrow> ('k \<Rightarrow> pid set) \<Rightarrow> int set \<Rightarrow> pid set \<Rightarrow> NamespaceStartResult result \<Rightarrow> 'k \<Rightarrow> bool" where
  "settled fds kids F C r k \<longleftrightarrow> (case r of Inl e \<Rightarrow> here fds kids F C k
     | Inr res \<Rightarrow> host_pid res \<notin> C \<and> here fds kids F (insert (host_pid res) C) k)"

lemma failed_settled:
  assumes "post A (close_all fs ds) (\<lambda>r k. r = Inr () \<and> B k)" and "post B m (\<lambda>_. here fds kids F C)"
  shows "post A (andthen (andthen (fail e) (close_all fs ds)) m) (settled fds kids F C)"
proof -
  have "post A (close_all fs ds) (\<lambda>_. B)" by (rule post_weaken [OF assms(1)]) simp_all
  from post_and_value [OF post_and_value [OF post_failed this] assms(2)] show ?thesis
    by (rule post_weaken) (auto simp: settled_def)
qed

lemma await_exec_post:
  assumes P: "parent_contract fs ps clone fds kids" and new: "x0 \<notin> F" "p \<notin> C"
  shows "post (here fds kids (insert x0 F) (insert p C)) (await_exec fs ps p x0 n) (settled fds kids F C)"
  unfolding await_exec_def
proof (rule post_attempt)
  show "post (here fds kids (insert x0 F) (insert p C)) (read_exec_status fs x0) (\<lambda>_. here fds kids F (insert p C))"
    using read_exec_status_post [OF P, of "insert x0 F" "insert p C" x0] new by simp
next
  fix x :: "unit result"
  have "post (here fds kids F (insert p C)) (andthen (fail e) (kill_and_reap ps p)) (settled fds kids F C)" for e
    by (rule post_weaken [OF post_and_value [OF post_failed reap_post(2) [OF P]]])
       (use new in \<open>auto simp: settled_def\<close>)
  then show "post (here fds kids F (insert p C)) (case x of Inl e \<Rightarrow> andthen (fail e) (kill_and_reap ps p)
      | Inr _ \<Rightarrow> succeed \<lparr>host_pid = p, result_namespace_pid = n\<rparr>) (settled fds kids F C)"
    using new by (auto simp: settled_def intro!: post_succeed split: sum.split)
qed

text \<open>Giving up: the listed descriptors are closed, the child is reaped, the error is kept.\<close>

lemma give_up_post:
  assumes P: "parent_contract fs ps clone fds kids" and new: "set ds \<inter> F = {}" "p \<notin> C"
    and reaped: "\<And>F. post (here fds kids F (insert p C)) m (\<lambda>_. here fds kids F C)"
  shows "post (here fds kids (set ds \<union> F) (insert p C)) (andthen (andthen (fail e) (close_all fs ds)) m)
    (settled fds kids F C)"
proof (rule failed_settled [OF close_all_post [OF P]])
  have "set ds \<union> F - set ds = F" using new by auto
  with reaped show "post (here fds kids (set ds \<union> F - set ds) (insert p C)) m (\<lambda>_. here fds kids F C)" by simp
qed

lemma close_then:
  assumes P: "parent_contract fs ps clone fds kids" and "F - set ds = G" and m: "post (here fds kids G C) m Q"
  shows "post (here fds kids F C) (chain (close_all fs ds) (\<lambda>_. m)) Q"
proof (rule post_chain [OF close_all_post [OF P]])
  show "post (\<lambda>k. Inr x = Inr () \<and> here fds kids (F - set ds) C k) m Q" for x :: unit
    using m assms(2) by (auto simp: post_def)
qed simp

lemma await_status_post:
  assumes P: "parent_contract fs ps clone fds kids" and new: "s0 \<notin> F" "x0 \<notin> F" "s0 \<noteq> x0" "p \<notin> C"
  shows "post (here fds kids ({s0, x0} \<union> F) (insert p C)) (await_status fs ps p s0 x0) (settled fds kids F C)"
proof -
  let ?I = "here fds kids ({s0, x0} \<union> F) (insert p C)"
  have "post (here fds kids F (insert p C)) (reap ps p) (\<lambda>_. here fds kids F C)" for F
    using reap_post(1) [OF P, of F "insert p C" p] new by simp
  from give_up_post [OF P _ new(4) this, of "[s0, x0]" F] new
  have failed: "post ?I (andthen (andthen (fail e) (close_all fs [s0, x0])) (reap ps p)) (settled fds kids F C)" for e
    by simp
  have "{s0, x0} \<union> F - set [s0] = insert x0 F" using new by auto
  note started = close_then [OF P this await_exec_post [OF P new(2,4)]]
  have "keeps ?I (read_status fs s0 [])" by (rule read_status_keeps) (rule parent_contractD(1) [OF P])
  then have "post ?I (read_status fs s0 []) (\<lambda>r k. ?I k \<and> (\<exists>x. r = Inr x))"
    using read_status_no_error by (fastforce simp: post_def)
  then show ?thesis
    unfolding await_status_def Let_def
  proof (rule post_chain, goal_cases)
    case (1 x)
    obtain whole bytes where x: "x = (whole, bytes)" by fastforce
    show ?case unfolding x prod.case
      by (split if_split, intro conjI impI post_weaken [OF failed] post_weaken [OF started]) simp_all
  qed simp
qed

lemma await_child_post:
  assumes P: "parent_contract fs ps clone fds kids"
    and new: "s0 \<notin> F" "x0 \<notin> F" "c1 \<notin> F" "s0 \<noteq> x0" "s0 \<noteq> c1" "x0 \<noteq> c1" "p \<notin> C"
  shows "post (here fds kids ({c1, s0, x0} \<union> F) (insert p C)) (await_child fs ps p s0 x0 c1) (settled fds kids F C)"
proof -
  let ?I = "here fds kids ({c1, s0, x0} \<union> F) (insert p C)"
  have "post (here fds kids F (insert p C)) (kill_and_reap ps p) (\<lambda>_. here fds kids F C)" for F
    using reap_post(2) [OF P, of F "insert p C" p] new by simp
  from give_up_post [OF P _ new(7) this, of "[c1, s0, x0]" F] new
  have failed: "post ?I (andthen (andthen (fail e) (close_all fs [c1, s0, x0])) (kill_and_reap ps p)) (settled fds kids F C)" for e
    by simp
  have "{c1, s0, x0} \<union> F - set [c1] = {s0, x0} \<union> F" using new by auto
  note go = close_then [OF P this await_status_post [OF P new(1,2,4,7)]]
  have "post ?I (attempt (call (sys_write fs c1 ''1'')) (\<lambda>w. if w \<noteq> Inr 1 then
      andthen (andthen (fail (case w of Inl e \<Rightarrow> e | Inr _ \<Rightarrow> 0)) (close_all fs [c1, s0, x0])) (kill_and_reap ps p)
      else chain (close_all fs [c1]) (\<lambda>_. await_status fs ps p s0 x0))) (settled fds kids F C)"
    by (rule post_attempt [OF parent_contractD(2) [OF P]]) (use failed go in simp)
  with failed show ?thesis
    unfolding await_child_def
    by (intro post_attempt [OF configure_keeps [OF P]]) (simp split: sum.split)
qed

lemma close_failed:
  assumes P: "parent_contract fs ps clone fds kids" and "F - set ds = G"
  shows "post (here fds kids F C) (andthen (fail e) (close_all fs ds)) (settled fds kids G C)"
proof -
  have "post (here fds kids F C) (close_all fs ds) (\<lambda>_. here fds kids G C)"
    by (rule post_weaken [OF close_all_post [OF P]]) (use assms(2) in auto)
  from post_and_value [OF post_failed this] show ?thesis
    by (rule post_weaken) (auto simp: settled_def)
qed

lemma pipe_attempt:
  assumes P: "parent_contract fs ps clone fds kids"
    and "\<And>e. post (here fds kids F C) (f (Inl e)) Q"
    and "\<And>a b. a \<noteq> b \<Longrightarrow> a \<notin> F \<Longrightarrow> b \<notin> F \<Longrightarrow> post (here fds kids ({a, b} \<union> F) C) (f (Inr (a, b))) Q"
  shows "post (here fds kids F C) (attempt (call (sys_pipe ps)) f) Q"
proof (rule post_attempt [OF parent_contractD(11) [OF P]], goal_cases)
  case (1 r)
  show ?case
  proof (cases r)
    case (Inr x)
    then show ?thesis using assms(3) by (cases x) (auto simp: post_def)
  qed (use assms(2) in simp)
qed

lemma start_clone_post:
  assumes P: "parent_contract fs ps clone fds kids"
    and new: "distinct [s0, s1, x0, x1, c0, c1]" "set [s0, s1, x0, x1, c0, c1] \<inter> F = {}"
  shows "post (here fds kids ({c0, c1} \<union> ({x0, x1} \<union> ({s0, s1} \<union> F))) C) (attempt (call (clone fl a)) (\<lambda>p. case p of
       Inl e \<Rightarrow> andthen (fail e) (close_all fs [s0, s1, x0, x1, c0, c1])
     | Inr pid \<Rightarrow> chain (close_all fs [x1, s1, c0]) (\<lambda>_. await_child fs ps pid s0 x0 c1))) (settled fds kids F C)"
    (is "post (here fds kids ?G C) _ _")
proof (rule post_attempt [OF parent_contractD(12) [OF P]], goal_cases)
  case (1 r)
  have all: "?G - set [s0, s1, x0, x1, c0, c1] = F" and some: "?G - set [x1, s1, c0] = {c1, s0, x0} \<union> F"
    using new by auto
  show ?case
  proof (cases r)
    case (Inl e)
    then show ?thesis using close_failed [OF P all] by simp
  next
    case (Inr p)
    have "post (here fds kids ?G (insert p C)) (chain (close_all fs [x1, s1, c0]) (\<lambda>_. await_child fs ps p s0 x0 c1))
        (settled fds kids F C)" if "p \<notin> C"
      by (rule close_then [OF P some await_child_post [OF P]]) (use new that in auto)
    with Inr show ?thesis by (auto simp: post_def)
  qed
qed

lemma namespace_start_post:
  assumes P: "parent_contract fs ps clone fds kids"
  shows "post (here fds kids F C) (namespace_start_container fs ps clone config given n) (settled fds kids F C)"
proof -
  have EINVAL: "post (here fds kids F C) (fail e) (settled fds kids F C)" for e
    by (rule post_fail) (simp add: settled_def)
  have chain_attempt: "chain m (\<lambda>(a, b). f a b) = attempt m (\<lambda>r. case r of Inl e \<Rightarrow> fail e | Inr (a, b) \<Rightarrow> f a b)"
    for m :: "('a, int \<times> int) prog" and f :: "int \<Rightarrow> int \<Rightarrow> ('a, NamespaceStartResult) prog"
  proof
    show "chain m (\<lambda>(a, b). f a b) k = attempt m (\<lambda>r. case r of Inl e \<Rightarrow> fail e | Inr (a, b) \<Rightarrow> f a b) k" for k
      by (cases "m k") (auto simp: chain_def attempt_def fail_def split: sum.split)
  qed
  show ?thesis
    unfolding namespace_start_container_def
  proof (split option.split, intro conjI allI impI EINVAL, split if_split, intro conjI impI EINVAL,
      unfold chain_attempt, rule pipe_attempt [OF P], goal_cases)
    case 1
    then show ?case by (simp add: EINVAL)
  next
    case (2 c s0 s1)
    then have two: "{s0, s1} \<union> F - set [s0, s1] = F" by auto
    show ?case
      unfolding sum.case prod.case
    proof (rule pipe_attempt [OF P], goal_cases)
      case 1
      show ?case unfolding sum.case by (rule close_failed [OF P two])
    next
      case (2 x0 x1)
      let ?G = "{x0, x1} \<union> ({s0, s1} \<union> F)"
      from 2 \<open>s0 \<notin> F\<close> \<open>s1 \<notin> F\<close> have four: "?G - set [s0, s1, x0, x1] = F" by auto
      note give_up = close_failed [OF P four]
      have third: "post (here fds kids ?G C) (attempt (call (sys_pipe ps)) (\<lambda>cp. case cp of
          Inl e \<Rightarrow> andthen (fail e) (close_all fs [s0, s1, x0, x1])
        | Inr (c0, c1) \<Rightarrow>
            attempt (call (clone clone_flags
              \<lparr>child_hostname = ns_hostname c, child_rootfs = ns_rootfs c, child_command_line = ns_command_line c,
               child_resource_limits = ns_resource_limits c, status_fd = s1, continue_fd = c0, exec_fd = x1\<rparr>)) (\<lambda>p. case p of
              Inl e \<Rightarrow> andthen (fail e) (close_all fs [s0, s1, x0, x1, c0, c1])
            | Inr pid \<Rightarrow> chain (close_all fs [x1, s1, c0]) (\<lambda>_. await_child fs ps pid s0 x0 c1))))
          (settled fds kids F C)"
      proof (rule pipe_attempt [OF P], goal_cases)
        case (2 c0 c1)
        show ?case unfolding sum.case prod.case
          by (rule start_clone_post [OF P]) (use 2 \<open>x0 \<noteq> x1\<close> \<open>x0 \<notin> {s0, s1} \<union> F\<close> \<open>x1 \<notin> {s0, s1} \<union> F\<close>
            \<open>s0 \<noteq> s1\<close> \<open>s0 \<notin> F\<close> \<open>s1 \<notin> F\<close> in auto)
      qed (use give_up in simp)
      show ?case
        unfolding sum.case prod.case
      proof (rule post_attempt [OF parent_contractD(6) [OF P]], goal_cases)
        case (1 f)
        show ?case using give_up third by (cases f) (simp_all only: sum.case)
      qed
    qed
  qed
qed

section \<open>The child\<close>

text \<open>
  After the root has been entered no call of the child leaves it: neither those of the network,
  resource and process set-up nor the writes and closes that report to the parent.
\<close>

definition child_contract ::
    "'k file_sys \<Rightarrow> 'k proc_sys \<Rightarrow> 'k net_sys \<Rightarrow> 'k rlimit_sys \<Rightarrow> ('k \<Rightarrow> bool) \<Rightarrow> bool" where
  "child_contract fs ps N K inside \<longleftrightarrow> root_contract fs inside \<and>
     keeps inside (call (sys_socket N)) \<and>
     (\<forall>fd n. keeps inside (call (sys_getifflags N fd n))) \<and>
     (\<forall>fd n v. keeps inside (call (sys_setifflags N fd n v))) \<and>
     (\<forall>fd. keeps inside (query (sys_sockclose N fd))) \<and>
     (\<forall>r. preserves inside (sys_getrlimit K r)) \<and>
     (\<forall>r l. preserves inside (sys_setrlimit K r l)) \<and>
     (\<forall>a b. keeps inside (call (sys_setpgid ps a b))) \<and>
     keeps inside (query (sys_getpid ps)) \<and>
     (\<forall>fd d. keeps inside (call (sys_write fs fd d))) \<and>
     (\<forall>fd. keeps inside (call (sys_close fs fd))) \<and>
     (\<forall>p a. keeps inside (query (sys_execvp ps p a)))"

lemma child_contractD:
  assumes "child_contract fs ps N K inside"
  shows "root_contract fs inside" "keeps inside (call (sys_socket N))"
    "keeps inside (call (sys_getifflags N fd n))" "keeps inside (call (sys_setifflags N fd n v))"
    "keeps inside (query (sys_sockclose N fd))" "preserves inside (sys_getrlimit K r)"
    "preserves inside (sys_setrlimit K r l)" "keeps inside (call (sys_setpgid ps a b))"
    "keeps inside (query (sys_getpid ps))" "keeps inside (call (sys_write fs fd d))"
    "keeps inside (call (sys_close fs fd))" "keeps inside (query (sys_execvp ps p args))"
  using assms unfolding child_contract_def by (elim conjE, simp)+

lemma resource_keeps:
  assumes C: "child_contract fs ps N K inside" shows "keeps inside (call (resource_apply_limits K c))"
proof (rule post_call)
  have one: "preserves inside (apply_single_limit_lower_only K res q)" for res q
    unfolding apply_single_limit_lower_only_def Let_def by (intro triple_intro child_contractD(6,7) [OF C])
  show "preserves inside (resource_apply_limits K c)"
    unfolding resource_apply_limits_def Let_def by (intro triple_intro one)
qed

lemma loopback_keeps:
  assumes C: "child_contract fs ps N K inside" shows "keeps inside (network_setup_loopback N)"
  unfolding network_setup_loopback_def closing_def by (intro post_intro child_contractD(2-5) [OF C])

lemma isolate_post:
  assumes "root_contract fs inside"
  shows "post (\<lambda>_. True) (filesystem_isolate_rootfs fs config) (\<lambda>r k. r = Inr () \<longrightarrow> inside k)"
  using isolate_inside [OF assms] by (auto simp: post_def)

lemma child_setup_post:
  assumes C: "child_contract fs ps N K inside"
  shows "post (\<lambda>_. True) (child_setup fs ps N K stale a)
    (\<lambda>r k. \<forall>argv. r = Inr argv \<longrightarrow> inside k \<and> build_exec_argv (child_command_line a) 256 32 = Inr argv)"
    (is "post _ _ ?Q")
proof -
  have any: "post (\<lambda>_. True) (chain m f) ?Q" if "\<And>x. post (\<lambda>_. True) (f x) ?Q" for m :: "('a, unit) prog" and f
    by (rule post_chain [where R = "\<lambda>_ _. True"]) (use that in \<open>auto simp: post_def\<close>)
  have enter: "post (\<lambda>_. True) (chain m f) ?Q"
    if "post (\<lambda>_. True) m (\<lambda>r k. r = Inr () \<longrightarrow> inside k)" "\<And>x. post inside (f x) ?Q" for m :: "('a, unit) prog" and f
    by (rule post_chain [OF that(1)]) (use that(2) in \<open>auto simp: post_def\<close>)
  have stay: "post inside (chain m f) ?Q" if "keeps inside m" "\<And>x. post inside (f x) ?Q" for m :: "('a, unit) prog" and f
    by (rule post_chain [OF that(1)]) (use that(2) in auto)
  have argv: "post inside (chain (of_result r) f) ?Q" if "\<And>x. r = Inr x \<Longrightarrow> post inside (f x) ?Q" for r and f :: "string list \<Rightarrow> ('a, string list) prog"
    using that by (cases r) (auto simp: of_result_def post_def chain_def)
  have mount: "keeps inside (unless t (call (sys_mount fs None p None l)) (succeed ()))" for t p l
    unfolding unless_def by (intro post_intro root_contractD(6) [OF child_contractD(1) [OF C]])
  have net: "keeps inside (unless t (network_setup_loopback N) (succeed ()))" for t
    unfolding unless_def by (intro post_intro loopback_keeps [OF C])
  have limits: "keeps inside (attempt (call (resource_apply_limits K c)) (\<lambda>r. case r of
      Inl e \<Rightarrow> fail (RESOURCE_ERROR_BASE + e) | Inr _ \<Rightarrow> succeed ()))" for c
    by (intro post_intro resource_keeps [OF C])
  show ?thesis
    unfolding child_setup_def
    by (rule any, rule any, rule any, rule any, rule enter [OF isolate_post [OF child_contractD(1) [OF C]]],
        rule stay [OF mount], rule stay [OF net], rule argv, rule stay [OF limits], rule stay [OF child_contractD(8) [OF C]])
       (auto intro: post_succeed)
qed

lemma child_executed:
  assumes C: "child_contract fs ps N K inside"
  shows "post (\<lambda>_. True) (namespace_child fs ps N K stale a) (\<lambda>r k. \<forall>argv. r = Inr (Executed argv) \<longrightarrow>
    inside k \<and> build_exec_argv (child_command_line a) 256 32 = Inr argv)" (is "post _ _ ?Q")
  unfolding namespace_child_def
proof (rule post_attempt [OF child_setup_post [OF C]], goal_cases)
  case (1 r)
  have send: "keeps inside (send_status fs fd st)" for fd st
    unfolding send_status_def by (intro post_intro child_contractD(10,11) [OF C])
  show ?case
  proof (cases r)
    case (Inl e)
    have "post (\<lambda>_. True) (report_error fs a e) ?Q"
      unfolding report_error_def by (rule post_chain [where R = "\<lambda>_ _. True"]) (auto simp: post_def)
    with Inl show ?thesis by (auto simp: post_def)
  next
    case (Inr argv)
    have last: "post inside (case x of None \<Rightarrow> succeed (Executed argv)
        | Some e \<Rightarrow> attempt (call (sys_write fs (exec_fd a) (le32 e))) (\<lambda>_.
            attempt (call (sys_close fs (exec_fd a))) (\<lambda>_. succeed (Exited 127)))) ?Q"
      if "build_exec_argv (child_command_line a) 256 32 = Inr argv" for x
      using that by (cases x) (auto simp: post_def elim!: attemptE)
    have "post inside (chain (query (sys_getpid ps)) (\<lambda>p.
        chain (send_status fs (status_fd a) \<lparr>ready = 1, error_number = 0, namespace_pid = p\<rparr>) (\<lambda>_.
        chain (query (sys_execvp ps (hd argv) argv)) (\<lambda>x. case x of None \<Rightarrow> succeed (Executed argv)
        | Some e \<Rightarrow> attempt (call (sys_write fs (exec_fd a) (le32 e))) (\<lambda>_.
            attempt (call (sys_close fs (exec_fd a))) (\<lambda>_. succeed (Exited 127))))))) ?Q"
      if "build_exec_argv (child_command_line a) 256 32 = Inr argv"
      by (rule post_chain [OF child_contractD(9) [OF C]], rule post_chain [OF send],
          rule post_chain [OF child_contractD(12) [OF C]], rule last [OF that]) simp_all
    with Inr show ?thesis by (auto simp: post_def)
  qed
qed

section \<open>A small kernel\<close>

text \<open>Descriptors and children are numbered upwards; the child reports ready and executes.\<close>

type_synonym nsk = "int set \<times> pid set"

definition fresh :: "int set \<Rightarrow> int" where
  "fresh F = Max (insert 2 F) + 1"

lemma fresh_new: "finite F \<Longrightarrow> i \<ge> fresh F \<Longrightarrow> i \<notin> F"
  unfolding fresh_def by (metis Max_ge finite_insert insertI2 not_less order_less_le_trans zless_add1_eq order_refl)

definition ns_open :: "nsk \<Rightarrow> int result \<times> nsk" where
  "ns_open k = (if finite (fst k) then (Inr (fresh (fst k)), (insert (fresh (fst k)) (fst k), snd k)) else (Inl 24, k))"

definition ns_pipe :: "nsk \<Rightarrow> (int \<times> int) result \<times> nsk" where
  "ns_pipe k = (if finite (fst k) then (Inr (fresh (fst k), fresh (fst k) + 1),
      (insert (fresh (fst k)) (insert (fresh (fst k) + 1) (fst k)), snd k)) else (Inl 24, k))"

definition ns_clone :: "nsk clone_op" where
  "ns_clone fl a = State (\<lambda>k. if finite (snd k) then (Inr (fresh (snd k)), (fst k, insert (fresh (snd k)) (snd k)))
     else (Inl EAGAIN, k))"

definition ns_close :: "int \<Rightarrow> nsk \<Rightarrow> unit result \<times> nsk" where
  "ns_close fd k = (Inr (), (fst k - {fd}, snd k))"

definition ns_fs :: "nsk file_sys" where
  "ns_fs = quiet_fs\<lparr>
     sys_read := (\<lambda>fd n. State (\<lambda>k. (Inr (if n = 12 then encode_status \<lparr>ready = 1, error_number = 0, namespace_pid = 1\<rparr> else []), k))),
     sys_close := (\<lambda>fd. State (ns_close fd)), sys_fopen_w := (\<lambda>p. State ns_open),
     sys_fclose := (\<lambda>fd. State (ns_close fd))\<rparr>"

definition quiet_ps :: "'k proc_sys" where
  "quiet_ps = \<lparr>
     sys_kill = (\<lambda>p s. State_Monad.return (Inr ())), sys_waitpid = (\<lambda>p h. State_Monad.return (Inr (p, 0))),
     sys_pipe = State_Monad.return (Inl 24), sys_set_cloexec = (\<lambda>fd. State_Monad.return (Inr ())),
     sys_geteuid = State_Monad.return 1000, sys_getegid = State_Monad.return 1000,
     sys_setgid = (\<lambda>g. State_Monad.return (Inr ())), sys_setuid = (\<lambda>u. State_Monad.return (Inr ())),
     sys_sethostname = (\<lambda>h. State_Monad.return (Inr ())), sys_setpgid = (\<lambda>a b. State_Monad.return (Inr ())),
     sys_getpid = State_Monad.return 1, sys_getpgrp = State_Monad.return 1,
     sys_execvp = (\<lambda>p a. State_Monad.return None), sys_malloc = (\<lambda>n. State_Monad.return True)\<rparr>"

definition ns_ps :: "nsk proc_sys" where
  "ns_ps = quiet_ps\<lparr>sys_waitpid := (\<lambda>p h. State (\<lambda>k. (Inr (p, 0), (fst k, snd k - {p})))), sys_pipe := State ns_pipe\<rparr>"

lemma ns_parent: "parent_contract ns_fs ns_ps ns_clone fst snd"
proof -
  have "fresh F \<notin> F" "fresh F + 1 \<notin> F" if "finite F" for F
    using fresh_new [OF that] by simp_all
  then show ?thesis
    unfolding parent_contract_def post_def here_def
    by (intro conjI; auto simp: ns_fs_def quiet_fs_def ns_ps_def quiet_ps_def ns_clone_def ns_close_def ns_open_def ns_pipe_def query_def
      split: if_splits)
qed

section \<open>Properties\<close>

text \<open>
  (C4) Starting a container leaves the parent clean on every path: no descriptor stays open, a
  failed start leaves no child behind, dead or alive, and a successful one leaves exactly the
  child whose pid it returns.
\<close>

theorem namespace_start_balanced:
  assumes "parent_contract fs ps clone fds kids"
    and "namespace_start_container fs ps clone config stack_given stack_size k = Some (r, k')"
  shows "fds k' = fds k \<and>
    (case r of Inl e \<Rightarrow> kids k' = kids k
     | Inr res \<Rightarrow> host_pid res \<notin> kids k \<and> kids k' = insert (host_pid res) (kids k))"
  using postD [OF namespace_start_post [OF assms(1)] _ assms(2), of "fds k" "kids k"]
  by (auto simp: here_def settled_def split: sum.splits)

definition ns_config :: NamespaceConfig where
  "ns_config = \<lparr>ns_hostname = Some ''h'', ns_rootfs = Some ''/r'', ns_command_line = Some ''/bin/sh'',
     ns_resource_limits = \<lparr>cpu_seconds = 0, memory_mb = 0, max_processes = 0\<rparr>\<rparr>"

lemma ns_calls:
  "run_state (sys_write ns_fs fd d) k = (Inr (length d), k)" "run_state (sys_close ns_fs fd) k = ns_close fd k"
  "run_state (sys_read ns_fs fd n) k = (Inr (if n = 12 then encode_status \<lparr>ready = 1, error_number = 0, namespace_pid = 1\<rparr> else []), k)"
  "run_state (sys_fopen_w ns_fs p) k = ns_open k" "run_state (sys_fputs ns_fs fd t) k = (Inr (), k)"
  "run_state (sys_fclose ns_fs fd) k = ns_close fd k" "run_state (sys_pipe ns_ps) k = ns_pipe k"
  "run_state (sys_set_cloexec ns_ps fd) k = (Inr (), k)" "run_state (sys_geteuid ns_ps) k = (1000, k)"
  "run_state (sys_getegid ns_ps) k = (1000, k)"
  by (simp_all add: ns_fs_def quiet_fs_def ns_ps_def quiet_ps_def)

lemma ns_config_user:
  "finite F \<Longrightarrow> configure_user_namespace ns_fs ns_ps p (F, C) = Some (Inr (), (F, C))"
  using fresh_new [of F "fresh F"]
  by (simp add: configure_user_namespace_def write_text_file_def unless_def chain_def attempt_def query_def
    ns_calls ns_open_def ns_close_def)

lemma ns_status:
  "read_status ns_fs fd [] k = Some (Inr (True, encode_status \<lparr>ready = 1, error_number = 0, namespace_pid = 1\<rparr>), k)"
  by (subst read_status.simps, simp add: ns_calls attempt_def) (subst read_status.simps, simp)

lemma ns_exec: "read_exec_status ns_fs fd k = Some (Inr (), snd (ns_close fd k))"
  by (subst read_exec_status.simps) (simp add: ns_calls attempt_def andthen_def ns_close_def)

lemma ns_start:
  "namespace_start_container ns_fs ns_ps ns_clone (Some ns_config) True 1048576 ({}, {}) =
     Some (Inr \<lparr>host_pid = 3, result_namespace_pid = 1\<rparr>, ({}, {3}))"
proof -
  have "status_ok \<lparr>ready = 1, error_number = 0, namespace_pid = 1\<rparr>" by (simp add: status_ok_def)
  from decode_encode_status [OF this] show ?thesis
    by (simp add: namespace_start_container_def ns_config_def chain_def attempt_def ns_calls ns_pipe_def fresh_def
      ns_clone_def close_all.simps ns_close_def await_child_def ns_config_user await_status_def ns_status
      await_exec_def ns_exec) auto
qed

theorem namespace_start_balanced_witness:
  "namespace_start_container ns_fs ns_ps ns_clone (Some ns_config) True 1048576 ({}, {}) =
     Some (Inr \<lparr>host_pid = 3, result_namespace_pid = 1\<rparr>, ({}, {3}))
   \<and> (3 :: pid) \<notin> snd ({} :: int set, {}) \<and> {3 :: pid} = insert 3 (snd ({} :: int set, {}))"
  using namespace_start_balanced [OF ns_parent ns_start] ns_start by simp

text \<open>
  The status record survives the pipe: however its twelve bytes are split into reads and
  whatever calls are interrupted, the parent decodes the record the child encoded.
\<close>

theorem status_record_roundtrip:
  assumes "pipe_contract fs fd rest patience" and "rest k = encode_status st @ junk" and "status_ok st"
  shows "\<exists>k' bytes. read_status fs fd [] k = Some (Inr (True, bytes), k') \<and> decode_status bytes = st"
  using read_status_total [OF assms(1), of "[]" k] assms(2) decode_encode_status [OF assms(3)] by auto

text \<open>A pipe that hands out one byte at a time.\<close>

definition drip_fs :: "string file_sys" where
  "drip_fs = quiet_fs\<lparr>sys_read := (\<lambda>fd n. State (\<lambda>k. (Inr (take (min 1 n) k), drop (min 1 n) k)))\<rparr>"

theorem status_record_roundtrip_witness:
  "\<exists>k' bytes. read_status drip_fs 5 [] (encode_status \<lparr>ready = 0, error_number = 13, namespace_pid = -1\<rparr>)
     = Some (Inr (True, bytes), k') \<and> decode_status bytes = \<lparr>ready = 0, error_number = 13, namespace_pid = -1\<rparr>"
proof (rule status_record_roundtrip)
  show "pipe_contract drip_fs 5 (\<lambda>k. k) (\<lambda>_. 0)"
    by (auto simp: pipe_contract_def drip_fs_def quiet_fs_def)
qed (simp_all add: status_ok_def)


text \<open>A kernel whose state is whether the new root was entered.\<close>

definition iso_fs :: "bool file_sys" where
  "iso_fs = quiet_fs\<lparr>sys_read := (\<lambda>fd n. State_Monad.return (Inr ''1'')),
     sys_pivot_root := (\<lambda>a b. State (\<lambda>k. (Inr (), True))), sys_chroot := (\<lambda>a. State (\<lambda>k. (Inr (), True)))\<rparr>"

definition quiet_net :: "'k net_sys" where
  "quiet_net = \<lparr>sys_socket = State_Monad.return (Inl EPERM), sys_getifflags = (\<lambda>fd n. State_Monad.return (Inr 0)),
     sys_setifflags = (\<lambda>fd n v. State_Monad.return (Inr ())), sys_sockclose = (\<lambda>fd. State_Monad.return ())\<rparr>"

definition quiet_rl :: "'k rlimit_sys" where
  "quiet_rl = \<lparr>sys_getrlimit = (\<lambda>r. State_Monad.return (Inl EINVAL)), sys_setrlimit = (\<lambda>r l. State_Monad.return (Inr ()))\<rparr>"

definition iso_args :: NamespaceChildArgs where
  "iso_args = \<lparr>child_hostname = None, child_rootfs = Some ''/r'', child_command_line = Some ''sleep 5'',
     child_resource_limits = \<lparr>cpu_seconds = 0, memory_mb = 0, max_processes = 0\<rparr>,
     status_fd = 4, continue_fd = 5, exec_fd = 6\<rparr>"

lemma iso_contract: "child_contract iso_fs quiet_ps quiet_net quiet_rl (\<lambda>k. k)"
  by (auto simp: child_contract_def root_contract_def post_def triple_def query_def iso_fs_def quiet_fs_def
    quiet_ps_def quiet_net_def quiet_rl_def)

lemma iso_run:
  "namespace_child iso_fs quiet_ps quiet_net quiet_rl 0 iso_args False = Some (Inr (Executed [''sleep'', ''5'']), True)"
proof -
  have wait: "wait_for_parent_ready iso_fs 0 5 False = Some (Inr (), False)"
    by (subst wait_for_parent_ready.simps) (simp add: iso_fs_def quiet_fs_def attempt_def andthen_def)
  have "ensure_directory iso_fs p m k = Some (Inr (), k)" for p m k
    by (subst ensure_directory.simps) (simp add: iso_fs_def quiet_fs_def attempt_def)
  then have "mkdir_p iso_fs (Some ''/r/.old_root'') 493 False = Some (Inr (), False)"
    by (simp add: mkdir_p_def strip_slash_def mkdir_prefixes_def chain_def)
  moreover have calls: "run_state (sys_write iso_fs fd d) k = (Inr (length d), k)" "run_state (sys_close iso_fs fd) k = (Inr (), k)"
    "run_state (sys_mount iso_fs a b c e) k = (Inr (), k)" "run_state (sys_chdir iso_fs p) k = (Inr (), k)"
    "run_state (sys_umount_detach iso_fs p) k = (Inr (), k)" "run_state (sys_rmdir iso_fs p) k = (Inr (), k)"
    "run_state (sys_pivot_root iso_fs p q) k = (Inr (), True)" for fd d k a b c e p q
    by (simp_all add: iso_fs_def quiet_fs_def)
  ultimately have "filesystem_isolate_rootfs iso_fs (Some \<lparr>config_rootfs = Some ''/r''\<rparr>) False = Some (Inr (), True)"
    by (simp add: filesystem_isolate_rootfs_def unless_def attempt_def chain_def enter_root_with_pivot_root_def
      of_result_def path_join_def path_fits_def OLD_ROOT_DIR_def)
  moreover have "build_exec_argv (Some ''sleep 5'') 256 32 = Inr [''sleep'', ''5'']"
    by (simp add: build_exec_argv_def strtok.simps Let_def)
  ultimately show ?thesis using wait calls
    by (simp add: namespace_child_def child_setup_def iso_args_def chain_def attempt_def unless_def query_def
      network_setup_loopback_def resource_apply_limits_def of_result_def send_status_def quiet_ps_def quiet_net_def)
qed


text \<open>
  (C18) The command line is split at blanks: words without blanks, joined by single blanks, come
  back as the argument vector, as long as they fit the 256 byte buffer and the 31 slots; a longer
  line fails with \<^verbatim>\<open>ENAMETOOLONG\<close> and more words fail with \<^verbatim>\<open>E2BIG\<close>, never truncated.
\<close>

theorem exec_argv_words:
  assumes "ws \<noteq> []" and "\<And>w. w \<in> set ws \<Longrightarrow> w \<noteq> [] \<and> CHR '' '' \<notin> set w"
  shows "build_exec_argv (Some (join '' '' ws)) 256 32 =
    (if length (join '' '' ws) \<ge> 256 then Inl ENAMETOOLONG
     else if length ws > 31 then Inl E2BIG else Inr ws)"
proof -
  have "join '' '' ws \<noteq> []" using assms by (cases ws; cases "tl ws") auto
  moreover have "strtok {CHR '' ''} (join '' '' ws) = ws" using assms(2) by (rule strtok_join)
  ultimately show ?thesis using assms(1) by (simp add: build_exec_argv_def)
qed

theorem exec_argv_words_witness:
  "build_exec_argv (Some (join '' '' [''/bin/sleep'', ''30''])) 256 32 = Inr [''/bin/sleep'', ''30'']"
  by (subst exec_argv_words) auto

end
