(* ===== verification/Manager_Props.thy ===== *)
theory Manager_Props
  imports Session Namespace_Props
begin

text \<open>
  What the commands of the manager do: creating and stopping a container, handing the running
  containers to the scheduler, cleaning up at exit, and finding the saved containers again after a
  restart.
\<close>

section \<open>Programs that always return and leave the manager's state alone\<close>

definition same :: "'k world \<Rightarrow> 'k world \<Rightarrow> bool" where
  "same w w' \<longleftrightarrow> containers w' = containers w \<and> next_sequence w' = next_sequence w \<and> sched w' = sched w"

definition steady :: "('k world, 'a) prog \<Rightarrow> bool" where
  "steady m \<longleftrightarrow> (\<forall>w. \<exists>x w'. m w = Some (Inr x, w') \<and> same w w')"

named_theorems steady_intro \<open>structural rules for steady programs\<close>

lemma same_refl [simp]: "same w w"
  by (simp add: same_def)

lemma same_trans: "same u v \<Longrightarrow> same v w \<Longrightarrow> same u w"
  by (simp add: same_def)

lemma steadyE: assumes "steady m" obtains x w' where "m w = Some (Inr x, w')" "same w w'"
  using assms unfolding steady_def by blast

lemma steady_succeed [steady_intro]: "steady (succeed x)"
  by (simp add: steady_def)

lemma steady_emit [steady_intro]: "steady (emit s)"
  by (simp add: steady_def emit_def same_def)

lemma steady_query [steady_intro]: "steady (kquery m)"
  by (auto simp: steady_def on_kernel_def query_def same_def split: prod.splits)

lemma steady_chain [steady_intro]: "steady m \<Longrightarrow> (\<And>x. steady (f x)) \<Longrightarrow> steady (chain m f)"
  unfolding steady_def by (metis chain_Inr same_trans)

lemma steady_attempt [steady_intro]: "(\<And>r. steady (f r)) \<Longrightarrow> steady (attempt (kcall m) f)"
proof -
  assume f: "\<And>r. steady (f r)"
  have "\<exists>x w'. attempt (kcall m) f w = Some (Inr x, w') \<and> same w w'" for w
  proof -
    obtain r k where m: "run_state m (kern w) = (r, k)" by (cases "run_state m (kern w)")
    obtain x w' where "f r (w\<lparr>kern := k\<rparr>) = Some (Inr x, w')" "same (w\<lparr>kern := k\<rparr>) w'"
      by (rule steadyE [OF f])
    with m show ?thesis by (simp add: attempt_def on_kernel_def same_def)
  qed
  then show ?thesis by (simp add: steady_def)
qed

lemma steady_gets [steady_intro]: "steady (gets f)"
  by (simp add: steady_def)

lemma steady_if [steady_intro]: "steady m \<Longrightarrow> steady n \<Longrightarrow> steady (if b then m else n)"
  by simp

lemma steady_case_sum [steady_intro]:
  "(\<And>e. steady (f e)) \<Longrightarrow> (\<And>x. steady (g x)) \<Longrightarrow> steady (case r of Inl e \<Rightarrow> f e | Inr x \<Rightarrow> g x)"
  by (cases r) auto

lemma steady_case_prod [steady_intro]: "(\<And>a b. steady (f a b)) \<Longrightarrow> steady (case x of (a, b) \<Rightarrow> f a b)"
  by (cases x) auto

lemma steady_log [steady_intro]: "steady (log_world H ty msg)"
proof -
  have "steady (modify (\<lambda>w. w\<lparr>log_file := f w\<rparr>))" for f :: "'a world \<Rightarrow> string option"
    by (simp add: steady_def same_def)
  then show ?thesis unfolding log_world_def by (intro steady_intro)
qed

lemma steady_saying [steady_intro]: "steady (saying s x)"
  unfolding saying_def by (intro steady_intro)

lemma steady_write_lines: "steady (write_lines H file cs)"
proof (induction cs)
  case (Cons c cs)
  then show ?case unfolding write_lines.simps by (intro steady_intro)
qed (simp only: write_lines.simps, rule steady_succeed)

lemma steady_save [steady_intro]: "steady (save_metadata H)"
  unfolding save_metadata_def save_failed_def by (intro steady_intro steady_write_lines)

lemma steady_alive [steady_intro]: "steady (is_pid_alive H p)"
  unfolding is_pid_alive_def by (intro steady_intro)

lemma steady_exit_status [steady_intro]: "steady (log_container_exit_status H i pre status)"
  unfolding log_container_exit_status_def by (intro steady_intro)

text \<open>What a steady program before the rest comes to.\<close>

lemma steady_then:
  assumes "steady m" "\<And>x w1. m w = Some (Inr x, w1) \<Longrightarrow> same w w1 \<Longrightarrow> \<exists>y w'. f x w1 = Some (Inr y, w') \<and> Q y w'"
  shows "\<exists>y w'. chain m f w = Some (Inr y, w') \<and> Q y w'"
  using assms(1) by (rule steadyE [of _ w]) (use assms(2) in \<open>auto simp: chain_Inr\<close>)

section \<open>Stopping\<close>

lemma stop_effect:
  assumes c: "k < length (containers w)" "running (containers w ! k)" and inv: "sched_inv (sched w)"
    and kill: "\<And>q. fst (run_state (sys_kill (procs H) (pid (containers w ! k)) SIGKILL) q) \<in> {Inr (), Inl ESRCH}"
    and wait: "\<And>q. (case fst (run_state (sys_waitpid (procs H) (pid (containers w ! k)) False) q) of
      Inr _ \<Rightarrow> True | Inl e \<Rightarrow> e = ECHILD)"
  shows "\<exists>w'. stop_container_process H k quiet w = Some (Inr 0, w')
    \<and> containers w' = (containers w)[k := mark_stopped (containers w ! k)]
    \<and> set (active (sched w')) = set (active (sched w)) - {pid (containers w ! k)} \<and> sched_inv (sched w')
    \<and> enabled (sched w') = enabled (sched w)"
proof -
  let ?c = "containers w ! k"
  obtain r1 k1 where s1: "run_state (sys_kill (procs H) (pid ?c) SIGKILL) (kern w) = (r1, k1)" by fastforce
  obtain r2 k2 where s2: "run_state (sys_waitpid (procs H) (pid ?c) False) k1 = (r2, k2)" by fastforce
  have r1: "\<not> (case r1 of Inl e \<Rightarrow> e \<noteq> ESRCH | Inr _ \<Rightarrow> False)" using kill [of "kern w"] s1 by auto
  have r2: "\<not> (case r2 of Inl e \<Rightarrow> e \<noteq> ECHILD | Inr _ \<Rightarrow> False)" using wait [of k1] s2 by (auto split: sum.splits)
  let ?w1 = "w\<lparr>kern := k2\<rparr>"
  obtain u w2 where log: "log_world H ''CONTAINER_STOPPED'' (id ?c @ '' stopped (pid '' @ show_int (pid ?c) @ '')'') ?w1
      = Some (Inr u, w2)" "same ?w1 w2"
    by (rule steadyE [OF steady_log])
  obtain b s3 where rem: "scheduler_remove_target (pid ?c) (sched w2) = (b, s3)" by fastforce
  have inv2: "sched_inv (sched w2)" using log(2) inv by (simp add: same_def)
  note act = scheduler_remove_target_active [OF inv2 rem]
  let ?w4 = "w2\<lparr>sched := s3, containers := (containers w2)[k := mark_stopped (containers w2 ! k)]\<rparr>"
  obtain v w5 where save: "save_metadata H ?w4 = Some (Inr v, w5)" "same ?w4 w5" by (rule steadyE [OF steady_save])
  have say: "saying s x w5 = Some (Inr x, w5\<lparr>out := out w5 @ s\<rparr>)" for s and x :: int
    by (simp add: saying_def emit_def chain_def)
  have "stop_container_process H k quiet w = Some (Inr 0, w5\<lparr>out := out w5 @ (if quiet then [] else ''[manager] '' @ id ?c @ '' stopped'' @ nl @ nl)\<rparr>)"
    unfolding stop_container_process_def stop_done_def the_container_def container_scheduler_on_stopped_def with_container_def
    using c s1 s2 r1 r2 log(1) save(1) rem
    by (simp add: chain_def attempt_def on_kernel_def say)
  moreover have "containers w5 = (containers w)[k := mark_stopped ?c]" "sched w5 = s3"
    using log(2) save(2) by (simp_all add: same_def)
  ultimately show ?thesis using act log(2) by (simp add: same_def)
qed

section \<open>Handing the containers to the scheduler\<close>

text \<open>
  \<open>paused k\<close> is the set of stopped processes: \<^verbatim>\<open>SIGSTOP\<close> adds to it, \<^verbatim>\<open>SIGCONT\<close> takes away.
  Memory suffices, and asking for it does not change the processes.
\<close>

definition pause_contract :: "'k host \<Rightarrow> ('k \<Rightarrow> pid set) \<Rightarrow> bool" where
  "pause_contract H paused \<longleftrightarrow>
     (\<forall>p k. paused (snd (run_state (sys_kill (procs H) p SIGSTOP) k)) = insert p (paused k)) \<and>
     (\<forall>p k. paused (snd (run_state (sys_kill (procs H) p SIGCONT) k)) = paused k - {p}) \<and>
     (\<forall>k n. fst (run_state (sys_allocator H) k) n) \<and>
     (\<forall>k. paused (snd (run_state (sys_allocator H) k)) = paused k)"

lemma pause_contractD:
  assumes "pause_contract H paused"
  shows "paused (snd (run_state (sys_kill (procs H) p SIGSTOP) k)) = insert p (paused k)"
    "paused (snd (run_state (sys_kill (procs H) p SIGCONT) k)) = paused k - {p}"
    "fst (run_state (sys_allocator H) k) = (\<lambda>_. True)"
    "paused (snd (run_state (sys_allocator H) k)) = paused k"
  using assms by (simp_all add: pause_contract_def fun_eq_iff)

lemma kill_each_effect:
  assumes "\<And>p k. paused (snd (run_state (sys_kill (procs H) p sig) k)) = f p (paused k)"
  shows "\<exists>k. kill_each H sig ps w = Some (Inr (), w\<lparr>kern := k\<rparr>) \<and> paused k = fold f ps (paused (kern w))"
proof (induction ps arbitrary: w)
  case Nil
  show ?case by (intro exI [of _ "kern w"]) simp
next
  case (Cons p ps)
  obtain r k1 where step: "run_state (sys_kill (procs H) p sig) (kern w) = (r, k1)" by fastforce
  have "paused k1 = f p (paused (kern w))" using assms [of p "kern w"] step by simp
  with Cons.IH [of "w\<lparr>kern := k1\<rparr>"] step show ?case by (auto simp: attempt_def on_kernel_def)
qed

lemma add_targets_effect:
  assumes C: "pause_contract H paused"
  shows "\<exists>k. add_targets H ps w =
      Some (Inr (), w\<lparr>kern := k, sched := fold (\<lambda>p s. snd (scheduler_add_target (\<lambda>_. True) p s)) ps (sched w)\<rparr>)
    \<and> paused k = paused (kern w)"
proof (induction ps arbitrary: w)
  case Nil
  show ?case by (intro exI [of _ "kern w"]) simp
next
  case (Cons p ps)
  obtain a k1 where step: "run_state (sys_allocator H) (kern w) = (a, k1)" by fastforce
  have a: "a = (\<lambda>_. True)" "paused k1 = paused (kern w)" using pause_contractD(3,4) [OF C, of "kern w"] step by auto
  let ?w1 = "w\<lparr>kern := k1, sched := snd (scheduler_add_target (\<lambda>_. True) p (sched w))\<rparr>"
  have "add_targets H (p # ps) w = add_targets H ps ?w1"
    using step a by (simp add: container_scheduler_on_started_def chain_def on_kernel_def query_def)
  with Cons.IH [of ?w1] a show ?case by auto
qed

lemma fold_insert_set: "fold insert ps (A :: 'a set) = set ps \<union> A"
  by (induction ps arbitrary: A) auto

lemma fold_remove_set: "fold (\<lambda>p A. A - {p}) ps (A :: 'a set) = A - set ps"
  by (induction ps arbitrary: A) auto

lemma refresh_effect:
  assumes C: "pause_contract H paused" and inv: "sched_inv (sched w)"
  shows "\<exists>w'. container_scheduler_refresh_targets H w = Some (Inr (), w') \<and> containers w' = containers w
    \<and> set (active (sched w')) = set (running_pids (containers w)) \<and> sched_inv (sched w')
    \<and> (if enabled (sched w)
       then running_pids (containers w) \<noteq> [] \<longrightarrow>
         paused (kern w') \<inter> set (running_pids (containers w)) =
           set (running_pids (containers w)) - {hd (running_pids (containers w))}
       else paused (kern w') \<inter> set (running_pids (containers w)) = {})"
proof -
  let ?ps = "running_pids (containers w)"
  let ?s = "fold (\<lambda>p s. snd (scheduler_add_target (\<lambda>_. True) p s)) ?ps (scheduler_clear_targets (sched w))"
  let ?w0 = "w\<lparr>sched := scheduler_clear_targets (sched w)\<rparr>"
  obtain k1 where add: "add_targets H ?ps ?w0 = Some (Inr (), ?w0\<lparr>kern := k1, sched := ?s\<rparr>)" "paused k1 = paused (kern w)"
    using add_targets_effect [OF C, of ?ps ?w0] by auto
  let ?w1 = "?w0\<lparr>kern := k1, sched := ?s\<rparr>"
  have targets: "sched_inv ?s" "set (active ?s) = set ?ps" using ts.rebuild [OF inv, of ?ps] by simp_all
  note stop = kill_each_effect [where H = H and sig = SIGSTOP and f = insert, OF pause_contractD(1) [OF C]]
    and cont = kill_each_effect [where H = H and sig = SIGCONT and f = "\<lambda>p A. A - {p}", OF pause_contractD(2) [OF C]]
  have start: "container_scheduler_refresh_targets H w =
      (if enabled (sched w) \<and> ?ps \<noteq> [] then
         chain (kill_each H SIGSTOP (filter (\<lambda>p. p \<noteq> hd ?ps) ?ps)) (\<lambda>_. kill_each H SIGCONT [hd ?ps])
       else if \<not> enabled (sched w) then kill_each H SIGCONT ?ps else succeed ()) ?w1"
    using add by (simp add: container_scheduler_refresh_targets_def chain_def scheduler_is_enabled_def)
  consider (on) "enabled (sched w)" "?ps \<noteq> []" | (off) "\<not> enabled (sched w)" | (idle) "enabled (sched w)" "?ps = []"
    by blast
  then show ?thesis
  proof cases
    case on
    obtain k2 where k2: "kill_each H SIGSTOP (filter (\<lambda>p. p \<noteq> hd ?ps) ?ps) ?w1 = Some (Inr (), ?w1\<lparr>kern := k2\<rparr>)"
      "paused k2 = set (filter (\<lambda>p. p \<noteq> hd ?ps) ?ps) \<union> paused k1"
      using stop [of "filter (\<lambda>p. p \<noteq> hd ?ps) ?ps" ?w1] by (auto simp: fold_insert_set)
    obtain k3 where k3: "kill_each H SIGCONT [hd ?ps] (?w1\<lparr>kern := k2\<rparr>) = Some (Inr (), ?w1\<lparr>kern := k3\<rparr>)"
      "paused k3 = paused k2 - {hd ?ps}"
      using cont [of "[hd ?ps]" "?w1\<lparr>kern := k2\<rparr>"] by auto
    have "container_scheduler_refresh_targets H w = Some (Inr (), ?w1\<lparr>kern := k3\<rparr>)"
      unfolding start if_P [OF conjI [OF on]] by (rule trans, rule chain_Inr, rule k2(1), rule k3(1))
    with on targets k2 k3 show ?thesis by (intro exI [of _ "?w1\<lparr>kern := k3\<rparr>"]) auto
  next
    case off
    obtain k2 where k2: "kill_each H SIGCONT ?ps ?w1 = Some (Inr (), ?w1\<lparr>kern := k2\<rparr>)" "paused k2 = paused k1 - set ?ps"
      using cont [of ?ps ?w1] by (auto simp: fold_remove_set)
    from off k2(1) have "container_scheduler_refresh_targets H w = Some (Inr (), ?w1\<lparr>kern := k2\<rparr>)"
      unfolding start by simp
    with off targets k2 show ?thesis by (intro exI [of _ "?w1\<lparr>kern := k2\<rparr>"]) auto
  next
    case idle
    then have "container_scheduler_refresh_targets H w = Some (Inr (), ?w1)" unfolding start by simp
    with idle targets show ?thesis by (intro exI [of _ ?w1]) auto
  qed
qed

section \<open>Leaving\<close>

text \<open>
  \<open>live k\<close> is the set of processes that run and have not been killed. Killing with \<^verbatim>\<open>SIGKILL\<close> takes
  the process out, and the manager may kill and wait for its containers; a process that was reaped
  or that \<^verbatim>\<open>kill\<close> with signal 0 does not find is not live. Files and the clock do not change it.
\<close>

definition live_contract :: "'k host \<Rightarrow> ('k \<Rightarrow> pid set) \<Rightarrow> bool" where
  "live_contract H live \<longleftrightarrow>
     (\<forall>k p. live (snd (run_state (sys_fopen_w (files H) p) k)) = live k) \<and>
     (\<forall>k fd t. live (snd (run_state (sys_fputs (files H) fd t) k)) = live k) \<and>
     (\<forall>k fd. live (snd (run_state (sys_fclose (files H) fd) k)) = live k) \<and>
     (\<forall>k a b. live (snd (run_state (sys_rename H a b) k)) = live k) \<and>
     (\<forall>k. live (snd (run_state (sys_fopen_log H) k)) = live k) \<and>
     (\<forall>k. live (snd (run_state (sys_localtime H) k)) = live k) \<and>
     (\<forall>k p r k'. run_state (sys_kill (procs H) p 0) k = (r, k') \<longrightarrow>
        live k' = live k \<and> (\<forall>e. r = Inl e \<longrightarrow> e \<noteq> EPERM \<longrightarrow> p \<notin> live k')) \<and>
     (\<forall>k p r k'. run_state (sys_kill (procs H) p SIGKILL) k = (r, k') \<longrightarrow>
        r \<in> {Inr (), Inl ESRCH} \<and> live k' \<subseteq> live k - {p}) \<and>
     (\<forall>k p r k'. run_state (sys_waitpid (procs H) p False) k = (r, k') \<longrightarrow>
        live k' \<subseteq> live k \<and> (case r of Inr _ \<Rightarrow> True | Inl e \<Rightarrow> e = ECHILD)) \<and>
     (\<forall>k p r k'. run_state (sys_waitpid (procs H) p True) k = (r, k') \<longrightarrow>
        live k' \<subseteq> live k \<and> (\<forall>q st. r = Inr (q, st) \<longrightarrow> q > 0 \<longrightarrow> p \<notin> live k'))"

lemmas live_contractD =
  live_contract_def [THEN iffD1, THEN conjunct1, rule_format]
  live_contract_def [THEN iffD1, THEN conjunct2, THEN conjunct1, rule_format]
  live_contract_def [THEN iffD1, THEN conjunct2, THEN conjunct2, THEN conjunct1, rule_format]
  live_contract_def [THEN iffD1, THEN conjunct2, THEN conjunct2, THEN conjunct2, THEN conjunct1, rule_format]
  live_contract_def [THEN iffD1, THEN conjunct2, THEN conjunct2, THEN conjunct2, THEN conjunct2, THEN conjunct1, rule_format]
  live_contract_def [THEN iffD1, THEN conjunct2, THEN conjunct2, THEN conjunct2, THEN conjunct2, THEN conjunct2, THEN conjunct1, rule_format]
  live_contract_def [THEN iffD1, THEN conjunct2, THEN conjunct2, THEN conjunct2, THEN conjunct2, THEN conjunct2, THEN conjunct2, THEN conjunct1, rule_format]
  live_contract_def [THEN iffD1, THEN conjunct2, THEN conjunct2, THEN conjunct2, THEN conjunct2, THEN conjunct2, THEN conjunct2, THEN conjunct2, THEN conjunct1, rule_format]
  live_contract_def [THEN iffD1, THEN conjunct2, THEN conjunct2, THEN conjunct2, THEN conjunct2, THEN conjunct2, THEN conjunct2, THEN conjunct2, THEN conjunct2, THEN conjunct1, rule_format]
  live_contract_def [THEN iffD1, THEN conjunct2, THEN conjunct2, THEN conjunct2, THEN conjunct2, THEN conjunct2, THEN conjunct2, THEN conjunct2, THEN conjunct2, THEN conjunct2, rule_format]

text \<open>An assertion about what lives and about the containers.\<close>

definition within_live :: "('k \<Rightarrow> pid set) \<Rightarrow> (Container list \<Rightarrow> pid set) \<Rightarrow> 'k world \<Rightarrow> bool" where
  "within_live live B w \<longleftrightarrow> live (kern w) \<subseteq> B (containers w)"

lemma within_live_run:
  assumes "\<And>k. live (snd (run_state m k)) \<subseteq> live k" "within_live live B w" "run_state m (kern w) = (r, k)"
  shows "within_live live B (w\<lparr>kern := k\<rparr>)"
  using assms(1) [of "kern w"] assms(2,3) by (auto simp: within_live_def)

lemma within_live_call:
  assumes "\<And>k. live (snd (run_state m k)) \<subseteq> live k" shows "keeps (within_live live B) (kcall m)"
  unfolding post_def on_kernel_def
  by (auto split: prod.splits dest: within_live_run [of live, OF assms])

lemma within_live_query:
  assumes "\<And>k. live (snd (run_state m k)) \<subseteq> live k" shows "keeps (within_live live B) (kquery m)"
  unfolding post_def on_kernel_def query_def
  by (auto split: prod.splits dest: within_live_run [of live, OF assms])

lemma within_live_own:
  "keeps (within_live live B) (emit s)" "keeps (within_live live B) (saying s x)"
  "keeps (within_live live B) (container_scheduler_on_stopped p)"
  "keeps (within_live live B) (modify (\<lambda>w. w\<lparr>log_file := f w\<rparr>))"
  by (auto simp: post_def within_live_def emit_def saying_def container_scheduler_on_stopped_def chain_def)

lemma within_live_log: "live_contract H live \<Longrightarrow> keeps (within_live live B) (log_world H ty msg)"
  unfolding log_world_def
  by (intro post_intro within_live_query within_live_own) (simp_all add: live_contractD)

lemma within_live_save: "live_contract H live \<Longrightarrow> keeps (within_live live B) (save_metadata H)"
proof -
  assume C: "live_contract H live"
  have "keeps (within_live live B) (write_lines H fd cs)" for fd cs
  proof (induction cs)
    case (Cons c cs)
    then show ?case
      unfolding write_lines.simps by (intro post_intro within_live_call) (simp add: live_contractD [OF C])
  qed (simp only: write_lines.simps, intro post_intro)
  then show ?thesis
    unfolding save_metadata_def save_failed_def
    by (intro post_intro within_live_call within_live_own within_live_log C) (simp_all add: live_contractD [OF C])
qed

lemma within_live_exit_status:
  "live_contract H live \<Longrightarrow> keeps (within_live live B) (log_container_exit_status H i pre status)"
  unfolding log_container_exit_status_def by (intro post_intro within_live_log)

lemma within_live_weaken:
  "(\<And>cs. B cs \<subseteq> B' cs) \<Longrightarrow> within_live live B w \<Longrightarrow> within_live live B' w"
  by (fastforce simp: within_live_def)

text \<open>Only the running containers live, besides \<open>L\<close>; the same when container \<open>i\<close> is gone.\<close>

abbreviation tracked :: "('k \<Rightarrow> pid set) \<Rightarrow> pid set \<Rightarrow> 'k world \<Rightarrow> bool" where
  "tracked live L \<equiv> within_live live (\<lambda>cs. L \<union> set (running_pids cs))"

abbreviation gone :: "('k \<Rightarrow> pid set) \<Rightarrow> pid set \<Rightarrow> nat \<Rightarrow> 'k world \<Rightarrow> bool" where
  "gone live L i \<equiv> within_live live (\<lambda>cs. L \<union> (set (running_pids cs) - {pid (cs ! i)}))"

lemma running_pids_update: "set (running_pids cs) - {pid (cs ! i)} \<subseteq> set (running_pids (cs[i := x]))"
proof
  fix p assume p: "p \<in> set (running_pids cs) - {pid (cs ! i)}"
  then obtain j where j: "j < length cs" "running (cs ! j)" "p = pid (cs ! j)"
    by (auto simp: running_pids_def in_set_conv_nth)
  with p have "i \<noteq> j" by auto
  with j have "cs ! j \<in> set (cs[i := x])" by (metis length_list_update nth_list_update_neq nth_mem)
  with j show "p \<in> set (running_pids (cs[i := x]))" by (auto simp: running_pids_def)
qed

lemma gone_marked: "post (gone live L i) (with_container i f) (\<lambda>_. tracked live L)"
  unfolding with_container_def using running_pids_update by (intro post_modify) (fastforce simp: within_live_def)

lemma gone_tracked: "gone live L i w \<Longrightarrow> tracked live L w"
  by (rule within_live_weaken) auto

lemma reaped_tracked:
  "live_contract H live \<Longrightarrow> post (gone live L i) (sync_reaped H i c status) (\<lambda>_. tracked live L)"
  unfolding sync_reaped_def
  by (rule with_then [OF gone_marked]) (intro post_intro within_live_own within_live_exit_status)

lemma alive_tracked:
  assumes C: "live_contract H live" and "0 < pid c"
  shows "post (\<lambda>w. tracked live L w \<and> containers w ! i = c) (is_pid_alive H (pid c))
      (\<lambda>r w. tracked live L w \<and> (\<exists>a. r = Inr a \<and> (\<not> a \<longrightarrow> gone live L i w)))"
proof (rule postI, goal_cases)
  case (1 w r w')
  obtain r0 k0 where k0: "run_state (sys_kill (procs H) (pid c) 0) (kern w) = (r0, k0)" by fastforce
  let ?a = "case r0 of Inr _ \<Rightarrow> True | Inl e \<Rightarrow> e = EPERM"
  have w': "r = Inr ?a" "w' = w\<lparr>kern := k0\<rparr>"
    using 1(2) assms(2) k0 by (auto simp: is_pid_alive_def attempt_def on_kernel_def split: sum.splits)
  from live_contractD(7) [OF C k0] have k0: "live k0 = live (kern w)" "\<not> ?a \<Longrightarrow> pid c \<notin> live k0"
    by (auto split: sum.splits)
  from 1 have "live (kern w) \<subseteq> L \<union> set (running_pids (containers w))" "containers w ! i = c"
    by (simp_all add: within_live_def)
  with k0 show ?case unfolding w' within_live_def by auto
qed

lemma missing_tracked:
  assumes C: "live_contract H live" and "0 < pid c"
  shows "post (\<lambda>w. tracked live L w \<and> containers w ! i = c) (sync_missing H i c) (\<lambda>_. tracked live L)"
  unfolding sync_missing_def
proof (rule post_chain [OF alive_tracked [OF assms]], goal_cases)
  case (1 alive)
  have "post (gone live L i) (chain (with_container i mark_stopped) (\<lambda>_. chain (log_world H ty msg) (\<lambda>_. succeed True)))
      (\<lambda>_. tracked live L)" for ty msg
    by (rule with_then [OF gone_marked]) (intro post_intro within_live_log C)
  then show ?case by (cases alive) (auto simp: post_def)
qed simp

lemma waitpid_tracked:
  assumes C: "live_contract H live"
  shows "post (\<lambda>w. tracked live L w \<and> containers w ! i = c) (kcall (sys_waitpid (procs H) (pid c) True))
      (\<lambda>r w. (tracked live L w \<and> containers w ! i = c) \<and> (\<forall>q st. r = Inr (q, st) \<longrightarrow> q > 0 \<longrightarrow> gone live L i w))"
proof (rule postI, goal_cases)
  case (1 w r w')
  obtain r0 k0 where k0: "run_state (sys_waitpid (procs H) (pid c) True) (kern w) = (r0, k0)" by fastforce
  with 1 have w': "w' = w\<lparr>kern := k0\<rparr>" "r = r0" by (simp_all add: on_kernel_def)
  from live_contractD(10) [OF C k0] have k0: "live k0 \<subseteq> live (kern w)" "\<And>q st. r0 = Inr (q, st) \<Longrightarrow> 0 < q \<Longrightarrow> pid c \<notin> live k0"
    by blast+
  from 1 have "live (kern w) \<subseteq> L \<union> set (running_pids (containers w))" "containers w ! i = c"
    by (simp_all add: within_live_def)
  with k0 show ?case unfolding w' within_live_def by auto
qed

lemma sync_tracked:
  assumes C: "live_contract H live"
  shows "keeps (tracked live L) (sync_container_state H i)"
  unfolding sync_container_state_def the_container_def
proof (rule post_chain_gets, goal_cases)
  case (1 c)
  show ?case
  proof (cases "running c")
    case True
    then have p: "0 < pid c" and nn: "\<not> \<not> running c" by (simp_all add: running_def)
    show ?thesis
      unfolding if_not_P [OF nn]
    proof (rule post_attempt [OF waitpid_tracked [OF C]], goal_cases)
      case (1 r)
      show ?case
        using reaped_tracked [OF C, of L i c] missing_tracked [OF C p, of L i]
        by (cases r) (auto simp: post_def split: if_splits)
    qed
  qed (simp add: post_def)
qed

lemma poll_tracked:
  assumes C: "live_contract H live" shows "keeps (tracked live L) (poll_states H)"
proof -
  have "keeps (tracked live L) (sync_all H is b)" for "is" b
  proof (induction "is" arbitrary: b)
    case (Cons i "is")
    then show ?case unfolding sync_all.simps by (intro post_intro sync_tracked C)
  qed (simp only: sync_all.simps, intro post_intro)
  then show ?thesis unfolding poll_states_def by (intro post_intro within_live_save C)
qed

lemma stop_tracked:
  assumes C: "live_contract H live"
  shows "keeps (tracked live L) (stop_container_process H i quiet)"
  unfolding stop_container_process_def the_container_def
proof (rule post_chain_gets, goal_cases)
  case (1 c)
  have said: "keeps (tracked live L) (saying t x)" for t and x :: int by (rule within_live_own)
  have kill: "post (\<lambda>w. tracked live L w \<and> containers w ! i = c) (kcall (sys_kill (procs H) (pid c) SIGKILL)) (\<lambda>_. gone live L i)"
  proof (rule postI, goal_cases)
    case (1 w r w')
    obtain r0 k0 where k0: "run_state (sys_kill (procs H) (pid c) SIGKILL) (kern w) = (r0, k0)" by fastforce
    from 1 k0 live_contractD(8) [OF C k0] have "w' = w\<lparr>kern := k0\<rparr>" "live k0 \<subseteq> live (kern w) - {pid c}"
      by (simp_all add: on_kernel_def)
    with 1(1) show ?case unfolding within_live_def by auto
  qed
  have wait: "keeps (gone live L i) (kcall (sys_waitpid (procs H) (pid c) False))"
    by (rule within_live_call) (metis live_contractD(9) [OF C] prod.collapse)
  have failed: "post (gone live L i) (stop_failed H quiet what c) (\<lambda>_. tracked live L)" for what
    by (rule post_weaken [where P = "gone live L i" and Q = "\<lambda>_. gone live L i"])
       (auto simp: stop_failed_def within_live_weaken intro!: post_intro within_live_own within_live_log C elim: gone_tracked)
  show ?case
  proof (cases "running c")
    case True
    then have nn: "\<not> \<not> running c" by simp
    have finished: "post (gone live L i) (stop_done H i quiet c) (\<lambda>_. tracked live L)"
      unfolding stop_done_def
      by (rule post_chain [OF within_live_log [OF C]], rule post_chain [OF within_live_own(3)], rule with_then [OF gone_marked])
         (auto intro!: post_intro within_live_save C within_live_own elim: gone_tracked)
    show ?thesis
      unfolding if_not_P [OF nn]
    proof (rule post_attempt [OF kill], goal_cases)
      case (1 killed)
      have "post (gone live L i) (attempt (kcall (sys_waitpid (procs H) (pid c) False)) (\<lambda>reaped.
          if b reaped then stop_failed H quiet what c else stop_done H i quiet c)) (\<lambda>_. tracked live L)" for b what
        by (rule post_attempt [OF wait]) (simp add: failed finished)
      then show ?case by (simp add: failed)
    qed
  next
    case False
    show ?thesis unfolding if_P [OF False] by (rule post_weaken [OF said]) auto
  qed
qed

lemma live_stop_effect:
  assumes C: "live_contract H live" and w: "man_inv w" "k < length (containers w)" "state (containers w ! k) = STATE_RUNNING"
  shows "\<exists>w'. stop_container_process H k quiet w = Some (Inr 0, w')
    \<and> containers w' = (containers w)[k := mark_stopped (containers w ! k)]
    \<and> set (active (sched w')) = set (active (sched w)) - {pid (containers w ! k)}"
proof -
  have "running (containers w ! k)" "sched_inv (sched w)"
    using w by (auto simp: man_inv_nth container_ok_def running_def)
  moreover have "fst (run_state (sys_kill (procs H) p SIGKILL) q) \<in> {Inr (), Inl ESRCH}" for p q
    using live_contractD(8) [OF C] by (cases "run_state (sys_kill (procs H) p SIGKILL) q") auto
  moreover have "case fst (run_state (sys_waitpid (procs H) p False) q) of Inr _ \<Rightarrow> True | Inl e \<Rightarrow> e = ECHILD" for p q
    using live_contractD(9) [OF C] by (cases "run_state (sys_waitpid (procs H) p False) q") auto
  ultimately show ?thesis using stop_effect [of k w H quiet] w(2) by blast
qed

lemma mark_stopped_state [simp]: "state (mark_stopped c) = STATE_STOPPED" "pid (mark_stopped c) = -1" "\<not> stack (mark_stopped c)"
  by (simp_all add: mark_stopped_def free_container_stack_def)

lemma stop_each_effect:
  assumes C: "live_contract H live"
  shows "man_inv w \<Longrightarrow> set is \<subseteq> {..<length (containers w)} \<Longrightarrow> \<exists>w'. stop_each H is w = Some (Inr (), w')
    \<and> length (containers w') = length (containers w)
    \<and> (\<forall>j < length (containers w). j \<in> set is \<or> state (containers w ! j) \<noteq> STATE_RUNNING \<longrightarrow>
        state (containers w' ! j) \<noteq> STATE_RUNNING)"
proof (induction "is" arbitrary: w)
  case (Cons i "is")
  show ?case
  proof (cases "state (containers w ! i) = STATE_RUNNING")
    case True
    obtain w1 where w1: "stop_container_process H i True w = Some (Inr 0, w1)"
      "containers w1 = (containers w)[i := mark_stopped (containers w ! i)]"
      using live_stop_effect [OF C Cons.prems(1) _ True, where quiet = True] Cons.prems(2) by auto
    have "man_inv w1" using postD [OF keeps_stop Cons.prems(1) w1(1)] .
    with Cons.IH [of w1] Cons.prems(2) w1(2) obtain w' where w': "stop_each H is w1 = Some (Inr (), w')"
      "length (containers w') = length (containers w)"
      "\<forall>j < length (containers w). j \<in> set is \<or> state ((containers w)[i := mark_stopped (containers w ! i)] ! j) \<noteq> STATE_RUNNING
        \<longrightarrow> state (containers w' ! j) \<noteq> STATE_RUNNING"
      by auto
    have "stop_each H (i # is) w = Some (Inr (), w')"
      using True w1(1) w'(1) by (simp add: the_container_def chain_def)
    with w' Cons.prems(2) show ?thesis
      by (intro exI [of _ w']) (auto simp: nth_list_update split: if_splits)
  next
    case False
    then have "stop_each H (i # is) w = stop_each H is w" by (simp add: the_container_def chain_def)
    moreover obtain w' where "stop_each H is w = Some (Inr (), w')" "length (containers w') = length (containers w)"
      "\<forall>j < length (containers w). j \<in> set is \<or> state (containers w ! j) \<noteq> STATE_RUNNING \<longrightarrow>
        state (containers w' ! j) \<noteq> STATE_RUNNING"
      using Cons.IH [OF Cons.prems(1)] Cons.prems(2) by auto
    ultimately show ?thesis using False by (intro exI [of _ w']) auto
  qed
qed auto

definition returns :: "('k, 'a) prog \<Rightarrow> bool" where
  "returns m \<longleftrightarrow> (\<forall>w. \<exists>x w'. m w = Some (Inr x, w'))"

named_theorems returns_intro \<open>structural rules for programs that return\<close>

lemma steady_returns [returns_intro]: "steady m \<Longrightarrow> returns m"
  unfolding steady_def returns_def by blast

lemma returns_chain [returns_intro]: "returns m \<Longrightarrow> (\<And>x. returns (f x)) \<Longrightarrow> returns (chain m f)"
  unfolding returns_def by (metis chain_Inr)

lemma returns_attempt [returns_intro]: "(\<And>r. returns (f r)) \<Longrightarrow> returns (attempt (kcall m) f)"
proof -
  assume f: "\<And>r. returns (f r)"
  have "\<exists>x w'. attempt (kcall m) f w = Some (Inr x, w')" for w
    using f unfolding returns_def
    by (cases "run_state m (kern w)") (simp add: attempt_def on_kernel_def)
  then show ?thesis by (simp add: returns_def)
qed

lemma returns_basic [returns_intro]: "returns (modify g)" "returns (gets h)" "returns (succeed x)" "returns (the_container i)"
    "returns (with_container i u)" "returns (container_scheduler_on_stopped p)"
  by (simp_all add: returns_def the_container_def with_container_def container_scheduler_on_stopped_def)

lemma returns_cases [returns_intro]:
  "returns m \<Longrightarrow> returns n \<Longrightarrow> returns (if b then m else n)"
  "(\<And>e. returns (f e)) \<Longrightarrow> (\<And>x. returns (g x)) \<Longrightarrow> returns (case r of Inl e \<Rightarrow> f e | Inr x \<Rightarrow> g x)"
  "(\<And>a c. returns (h a c)) \<Longrightarrow> returns (case y of (a, c) \<Rightarrow> h a c)"
  by (simp_all split: sum.split prod.split)

lemma poll_returns: "returns (poll_states H)"
proof -
  have sync: "returns (sync_container_state H i)" for i
    unfolding sync_container_state_def sync_reaped_def sync_missing_def
    by (intro returns_intro steady_intro)
  have "returns (sync_all H is b)" for "is" b
  proof (induction "is" arbitrary: b)
    case (Cons i "is")
    then show ?case unfolding sync_all.simps by (intro returns_chain sync)
  qed (simp only: sync_all.simps, intro returns_intro)
  then show ?thesis
    unfolding poll_states_def by (intro returns_chain returns_basic returns_cases steady_returns [OF steady_save])
qed

lemma cleanup_effect:
  assumes C: "live_contract H live" and w: "man_inv w" "tracked live L w"
  shows "\<exists>w'. cleanup_all_containers H w = Some (Inr (), w') \<and> live (kern w') \<subseteq> L \<and> containers w' = []
    \<and> \<not> thread_started (sched w')"
proof -
  obtain u w1 where w1: "poll_states H w = Some (Inr u, w1)" using poll_returns by (auto simp: returns_def)
  note inv1 = postD [OF keeps_poll w(1) w1] and tr1 = postD [OF poll_tracked [OF C] w(2) w1]
  let ?is = "[0..<length (containers w1)]"
  obtain w2 where w2: "stop_each H ?is w1 = Some (Inr (), w2)" "length (containers w2) = length (containers w1)"
    "\<forall>j < length (containers w1). state (containers w2 ! j) \<noteq> STATE_RUNNING"
    using stop_each_effect [OF C inv1, of ?is] by (auto simp: lessThan_atLeast0)
  have "keeps (tracked live L) (stop_each H is)" for "is"
  proof (induction "is")
    case (Cons i "is")
    then show ?case unfolding stop_each.simps by (intro post_intro keeps_the_container stop_tracked C)
  qed (simp only: stop_each.simps, intro post_intro)
  note tr2 = postD [OF this tr1 w2(1)]
  obtain v w3 where w3: "save_metadata H w2 = Some (Inr v, w3)" "same w2 w3" by (rule steadyE [OF steady_save])
  note tr3 = postD [OF within_live_save [OF C] tr2 w3(1)]
  have "\<not> running c" if c: "c \<in> set (containers w3)" for c
    using c w2(2,3) w3(2) by (auto simp: in_set_conv_nth same_def running_def)
  then have "running_pids (containers w3) = []" by (auto simp: running_pids_def filter_empty_conv)
  with tr3 have "live (kern w3) \<subseteq> L" by (simp add: within_live_def)
  moreover have "cleanup_all_containers H w = Some (Inr (), w3\<lparr>containers := [], sched := scheduler_stop (sched w3)\<rparr>)"
    using w1 w2(1) w3(1) by (simp add: cleanup_all_containers_def chain_def)
  ultimately show ?thesis by (simp add: scheduler_stop_def scheduler_stop_finish_def)
qed

section \<open>Creating\<close>

definition core :: "Container list \<Rightarrow> int \<Rightarrow> SchedulerState \<Rightarrow> 'k world \<Rightarrow> bool" where
  "core cs n s w \<longleftrightarrow> containers w = cs \<and> next_sequence w = n \<and> sched w = s"

lemma frame_core: "frame (core cs n s)"
  by (simp add: frame_def core_def)

lemma sure_save: "sure (core cs n s) (save_metadata H)"
proof -
  have "\<exists>x. r = Inr x \<and> core cs n s w'" if "core cs n s w" "save_metadata H w = Some (r, w')" for w r w'
    using steadyE [OF steady_save, of H w] that by (auto simp: core_def same_def)
  then show ?thesis unfolding sure_def post_def by blast
qed

lemma modify_then: "(\<And>w. P w \<Longrightarrow> R (f w)) \<Longrightarrow> (\<And>x. post R (n x) Q) \<Longrightarrow> post P (chain (modify f) n) Q"
  by (auto simp: post_def chain_def)

lemma enlist_effect:
  "post (core cs n s) (enlist H c) (\<lambda>r w. (r = Inr (Some (id c)) \<and> core (cs @ [c]) n s w) \<or> (r = Inr None \<and> core cs n s w))"
  unfolding enlist_def append_world_def
proof (rule modify_then [where R = "core (cs @ [c]) n s"], goal_cases)
  case (2 x)
  show ?case
  proof (rule chain_sure [OF sure_save], goal_cases)
    case (1 saved)
    show ?case
    proof (cases "saved = 0")
      case True
      then have "\<not> saved \<noteq> 0" by simp
      show ?thesis
        unfolding if_not_P [OF \<open>\<not> saved \<noteq> 0\<close>] by (intro chain_sure [OF sure_emit] chain_sure [OF sure_log] frame_core post_succeed) simp
    next
      case False
      show ?thesis unfolding if_P [OF False]
        by (rule modify_then [where R = "core cs n s"]) (auto simp: post_def core_def)
    qed
  qed
qed (simp add: core_def)

lemma create_effect:
  "post (core cs n s) (container_create H spec) (\<lambda>r w.
     (\<exists>p. length p < CONTAINER_ROOTFS_LEN \<and> r = Inr (Some (container_id_of n))
        \<and> core (cs @ [(new_container spec n)\<lparr>rootfs := p, pid := -1, state := STATE_CREATED\<rparr>]) (cast_int (n + 1)) s w)
     \<or> (r = Inr None \<and> containers w = cs \<and> sched w = s))" (is "post _ _ ?Q")
  unfolding container_create_def
proof (rule chain_sure [OF sure_query [OF frame_core]], goal_cases)
  case (1 ok)
  have nid: "id (new_container spec n) = container_id_of n" by (simp add: new_container_def Let_def)
  have none: "post (core cs m s) (saying t None) ?Q" for m t
    unfolding saying_def by (rule chain_sure [OF sure_emit [OF frame_core]]) (simp add: post_def core_def)
  have made: "post (core cs (cast_int (n + 1)) s) (enlist H ((new_container spec n)\<lparr>rootfs := p, pid := -1, state := STATE_CREATED\<rparr>)) ?Q"
    if "length p < CONTAINER_ROOTFS_LEN" for p
    by (rule post_weaken [OF enlist_effect]) (use that nid in \<open>auto simp: core_def\<close>)
  have seq: "post (core cs n s) (create_sequenced H spec n) ?Q"
    unfolding create_sequenced_def Let_def
    by (rule modify_then [where R = "core cs (cast_int (n + 1)) s"], simp add: core_def,
        rule post_attempt [OF frame_on_kernel_value [OF frame_core prepare_rootfs_fits]], rule post_case_value, rule none, rule made)
  show ?case
  proof (cases ok)
    case True
    have "post (core cs n s) (chain (gets next_sequence) (create_sequenced H spec)) ?Q"
      by (rule post_chain_gets) (use seq in \<open>auto simp: post_def core_def\<close>)
    with True show ?thesis by simp
  qed (simp add: none)
qed

section \<open>Saving and restarting\<close>

text \<open>
  \<open>content k f\<close> is the content of a file, \<open>opened k fd\<close> the path a stream writes to. Writes to a
  stream go to its file and succeed; a failing call leaves the files as they are; renaming replaces
  the target. (A write error that \<^verbatim>\<open>fclose\<close> does not report is not noticed by the program.)
\<close>

definition disk_contract :: "'k host \<Rightarrow> ('k \<Rightarrow> string \<Rightarrow> string option) \<Rightarrow> ('k \<Rightarrow> int \<Rightarrow> string) \<Rightarrow> bool" where
  "disk_contract H content path_of \<longleftrightarrow>
     (\<forall>k f r k'. run_state (sys_fopen_w (files H) f) k = (r, k') \<longrightarrow>
        (\<forall>fd. r = Inr fd \<longrightarrow> content k' f = Some [] \<and> path_of k' fd = f)) \<and>
     (\<forall>k fd t r k'. run_state (sys_fputs (files H) fd t) k = (r, k') \<longrightarrow>
        content k' (path_of k fd) = map_option (\<lambda>b. b @ t) (content k (path_of k fd)) \<and> path_of k' fd = path_of k fd) \<and>
     (\<forall>k fd r k'. run_state (sys_fclose (files H) fd) k = (r, k') \<longrightarrow> content k' (path_of k fd) = content k (path_of k fd)) \<and>
     (\<forall>k a b r k'. run_state (sys_rename H a b) k = (r, k') \<longrightarrow> r = Inr () \<longrightarrow> content k' b = content k a) \<and>
     (\<forall>k f. fst (run_state (sys_fopen_r H f) k) = (case content k f of None \<Rightarrow> Inl ENOENT | Some t \<Rightarrow> Inr t))"

lemmas disk_contractD =
  disk_contract_def [THEN iffD1, THEN conjunct1, rule_format]
  disk_contract_def [THEN iffD1, THEN conjunct2, THEN conjunct1, rule_format]
  disk_contract_def [THEN iffD1, THEN conjunct2, THEN conjunct2, THEN conjunct1, rule_format]
  disk_contract_def [THEN iffD1, THEN conjunct2, THEN conjunct2, THEN conjunct2, THEN conjunct1, rule_format]
  disk_contract_def [THEN iffD1, THEN conjunct2, THEN conjunct2, THEN conjunct2, THEN conjunct2, rule_format]

lemma write_lines_effect:
  assumes D: "disk_contract H content path_of"
  shows "content (kern w) (path_of (kern w) fd) = Some b \<Longrightarrow>
    \<exists>k. write_lines H fd cs w = Some (Inr (), w\<lparr>kern := k\<rparr>) \<and> path_of k fd = path_of (kern w) fd
      \<and> content k (path_of k fd) = Some (b @ metadata_text cs)"
proof (induction cs arbitrary: w b)
  case Nil
  then show ?case by (intro exI [of _ "kern w"]) (simp add: metadata_text_def)
next
  case (Cons c cs)
  obtain r k1 where step: "run_state (sys_fputs (files H) fd (metadata_line c)) (kern w) = (r, k1)" by fastforce
  from disk_contractD(2) [OF D step] Cons.prems
  have k1: "path_of k1 fd = path_of (kern w) fd" "content k1 (path_of k1 fd) = Some (b @ metadata_line c)" by auto
  with Cons.IH [of "w\<lparr>kern := k1\<rparr>" "b @ metadata_line c"] step show ?case
    by (auto simp: attempt_def on_kernel_def metadata_text_def)
qed

lemma save_failed_result: "save_failed H a b w \<noteq> Some (Inr 0, w')"
proof -
  obtain x w1 where "log_world H ''ERROR'' (''metadata save failed: '' @ b)
      (w\<lparr>out := out w @ ''[error] failed to '' @ a @ '' container metadata'' @ nl @ nl\<rparr>) = Some (Inr x, w1)"
    by (rule steadyE [OF steady_log])
  then show ?thesis by (simp add: save_failed_def emit_def chain_def)
qed

lemma save_effect:
  assumes D: "disk_contract H content path_of" and saved: "save_metadata H w = Some (Inr 0, w')"
  shows "content (kern w') METADATA_FILE = Some (metadata_text (containers w)) \<and> containers w' = containers w"
proof -
  obtain r k1 where o: "run_state (sys_fopen_w (files H) METADATA_FILE_TMP) (kern w) = (r, k1)" by fastforce
  have "\<exists>fd. r = Inr fd"
    using saved o by (cases r) (auto simp: save_metadata_def attempt_def on_kernel_def save_failed_result)
  then obtain fd where fd: "r = Inr fd" by blast
  note k1 = disk_contractD(1) [OF D o fd]
  obtain k2 where k2: "write_lines H fd (containers w) (w\<lparr>kern := k1\<rparr>) = Some (Inr (), w\<lparr>kern := k2\<rparr>)"
    "path_of k2 fd = METADATA_FILE_TMP" "content k2 METADATA_FILE_TMP = Some (metadata_text (containers w))"
    using write_lines_effect [OF D, of "w\<lparr>kern := k1\<rparr>" fd "[]" "containers w"] k1 by auto
  obtain rc k3 where c: "run_state (sys_fclose (files H) fd) k2 = (rc, k3)" by fastforce
  have k3: "content k3 METADATA_FILE_TMP = Some (metadata_text (containers w))"
    using disk_contractD(3) [OF D c] k2 by simp
  obtain rr k4 where n: "run_state (sys_rename H METADATA_FILE_TMP METADATA_FILE) k3 = (rr, k4)" by fastforce
  have "rc = Inr () \<and> rr = Inr () \<and> w' = w\<lparr>kern := k4\<rparr>"
    using saved o fd k2(1) c n
    by (auto simp: save_metadata_def attempt_def chain_def on_kernel_def save_failed_result split: sum.splits)
  with disk_contractD(4) [OF D n] k3 show ?thesis by simp
qed

text \<open>
  A new run of the program: memory suffices, \<^verbatim>\<open>kill\<close> with signal 0 finds the processes that are
  \<open>alive\<close>, and none of them is a child of the new process.
\<close>

definition restart_contract :: "'k host \<Rightarrow> (pid \<Rightarrow> bool) \<Rightarrow> bool" where
  "restart_contract H alive \<longleftrightarrow>
     (\<forall>k n. fst (run_state (sys_malloc (procs H) n) k)) \<and>
     (\<forall>k p. (case fst (run_state (sys_kill (procs H) p 0) k) of Inr _ \<Rightarrow> True | Inl e \<Rightarrow> e = EPERM) = alive p) \<and>
     (\<forall>k p. fst (run_state (sys_waitpid (procs H) p True) k) = Inl ECHILD)"

abbreviation found :: "(pid \<Rightarrow> bool) \<Rightarrow> pid \<Rightarrow> bool" where
  "found alive p \<equiv> 0 < p \<and> alive p"

lemma parse_record_alive:
  "parse_record alive l = map_option (\<lambda>c. if state c = STATE_RUNNING \<and> \<not> alive (pid c)
     then c\<lparr>state := STATE_STOPPED, pid := -1\<rparr> else c) (parse_record (\<lambda>_. True) l)"
  by (simp add: parse_record_def Let_def)

lemma alive_effect:
  assumes "restart_contract H alive"
  shows "\<exists>k. is_pid_alive H p w = Some (Inr (found alive p), w\<lparr>kern := k\<rparr>)"
proof (cases "p \<le> 0")
  case True
  then show ?thesis by (intro exI [of _ "kern w"]) (simp add: is_pid_alive_def)
next
  case False
  obtain r k where k: "run_state (sys_kill (procs H) p 0) (kern w) = (r, k)" by fastforce
  have "(case fst (run_state (sys_kill (procs H) p 0) (kern w)) of Inr _ \<Rightarrow> True | Inl e \<Rightarrow> e = EPERM) = alive p"
    using assms unfolding restart_contract_def by blast
  with False k show ?thesis
    by (intro exI [of _ k]) (auto simp: is_pid_alive_def attempt_def on_kernel_def split: sum.splits)
qed

lemma restore_loop_effect:
  assumes R: "restart_contract H alive"
  shows "\<exists>w' m. restore_loop H ls n w = Some (Inr (Some m), w')
    \<and> restore_lines (found alive) ls (containers w, next_sequence w) = (containers w', next_sequence w') \<and> sched w' = sched w"
proof (induction ls arbitrary: n w)
  case (Cons l ls)
  show ?case
  proof (cases "parse_record (\<lambda>_. True) l")
    case None
    then show ?thesis using Cons by (simp add: parse_record_alive [of "found alive" l])
  next
    case (Some c)
    obtain ok k1 where "run_state (sys_malloc (procs H) SIZEOF_CONTAINER) (kern w) = (ok, k1)" by fastforce
    then have mem: "run_state (sys_malloc (procs H) SIZEOF_CONTAINER) (kern w) = (True, k1)"
      using R unfolding restart_contract_def by (metis fst_conv)
    let ?a = "state c = STATE_RUNNING \<longrightarrow> found alive (pid c)"
    obtain k2 where k2: "(if state c = STATE_RUNNING then is_pid_alive H (pid c) else succeed True) (w\<lparr>kern := k1\<rparr>)
        = Some (Inr ?a, w\<lparr>kern := k2\<rparr>)"
      using alive_effect [OF R, of "pid c" "w\<lparr>kern := k1\<rparr>"] by (cases "state c = STATE_RUNNING") auto
    define c' where "c' = (if ?a then c else c\<lparr>state := STATE_STOPPED, pid := -1\<rparr>)"
    define w1 where "w1 = w\<lparr>kern := k2, containers := containers w @ [c'], next_sequence := update_next_sequence (id c) (next_sequence w)\<rparr>"
    have loop: "restore_loop H (l # ls) n w = restore_loop H ls (n + 1) w1"
      using Some mem k2 by (simp add: chain_def on_kernel_def query_def append_world_def c'_def w1_def)
    have "parse_record (found alive) l = Some c'"
      using Some by (simp add: parse_record_alive [of "found alive" l] c'_def)
    moreover have "id c' = id c" by (simp add: c'_def)
    ultimately have lines: "restore_lines (found alive) (l # ls) (containers w, next_sequence w) =
        restore_lines (found alive) ls (containers w1, next_sequence w1)" by (simp add: w1_def)
    have "sched w1 = sched w" by (simp add: w1_def)
    with Cons.IH [of "n + 1" w1] show ?thesis unfolding loop lines by simp
  qed
qed simp

lemma poll_settled:
  assumes R: "restart_contract H alive" and w: "\<forall>c \<in> set (containers w). running c \<longrightarrow> alive (pid c)"
  shows "\<exists>w'. poll_states H w = Some (Inr (), w') \<and> same w w'"
proof -
  have sync: "\<exists>k. sync_container_state H i v = Some (Inr False, v\<lparr>kern := k\<rparr>)"
    if v: "containers v = containers w" and i: "i < length (containers w)" for i v
  proof (cases "running (containers w ! i)")
    case False
    with v show ?thesis by (intro exI [of _ "kern v"]) (simp add: sync_container_state_def the_container_def chain_def)
  next
    case True
    let ?p = "pid (containers w ! i)"
    have "fst (run_state (sys_waitpid (procs H) ?p True) (kern v)) = Inl ECHILD"
      using R unfolding restart_contract_def by blast
    then obtain k1 where k1: "run_state (sys_waitpid (procs H) ?p True) (kern v) = (Inl ECHILD, k1)"
      by (metis fst_conv surj_pair)
    have "found alive ?p" using True w i by (auto simp: running_def)
    then obtain k2 where "is_pid_alive H ?p (v\<lparr>kern := k1\<rparr>) = Some (Inr True, v\<lparr>kern := k2\<rparr>)"
      using alive_effect [OF R, of ?p "v\<lparr>kern := k1\<rparr>"] by auto
    with True v k1 show ?thesis
      by (intro exI [of _ k2])
         (simp add: sync_container_state_def sync_missing_def the_container_def chain_def attempt_def on_kernel_def)
  qed
  have "\<exists>k. sync_all H is False v = Some (Inr False, v\<lparr>kern := k\<rparr>)"
    if "containers v = containers w" "set is \<subseteq> {..<length (containers w)}" for "is" v
    using that
  proof (induction "is" arbitrary: v)
    case Nil
    show ?case by (intro exI [of _ "kern v"]) simp
  next
    case (Cons i "is")
    obtain k where "sync_container_state H i v = Some (Inr False, v\<lparr>kern := k\<rparr>)" using sync [of v i] Cons.prems by auto
    with Cons.IH [of "v\<lparr>kern := k\<rparr>"] Cons.prems show ?case by (simp add: chain_def)
  qed
  from this [of w "[0..<length (containers w)]"] obtain k where
    "sync_all H [0..<length (containers w)] False w = Some (Inr False, w\<lparr>kern := k\<rparr>)" by (auto simp: lessThan_atLeast0)
  then show ?thesis by (simp add: poll_states_def chain_def same_def)
qed

lemma init_effect:
  assumes R: "restart_contract H alive" and D: "disk_contract H content path_of"
    and stored: "content k METADATA_FILE = Some (metadata_text cs)" and ok: "\<forall>c \<in> set cs. storable c"
  shows "\<exists>w'. container_manager_init H (initial_world logged k) = Some (Inr 0, w')
    \<and> containers w' = map (restarted (found alive)) cs
    \<and> next_sequence w' = snd (restore (found alive) (metadata_text cs) 1)"
proof -
  let ?w = "initial_world logged k"
  obtain r k0 where "run_state (sys_fopen_r H METADATA_FILE) k = (r, k0)" by fastforce
  with disk_contractD(5) [OF D, of METADATA_FILE k] stored
  have k0: "run_state (sys_fopen_r H METADATA_FILE) k = (Inr (metadata_text cs), k0)" by simp
  obtain w1 m where w1: "restore_loop H (fgets_lines 1024 (metadata_text cs)) 0 (?w\<lparr>kern := k0\<rparr>) = Some (Inr (Some m), w1)"
    "restore (found alive) (metadata_text cs) 1 = (containers w1, next_sequence w1)"
    using restore_loop_effect [OF R, of "fgets_lines 1024 (metadata_text cs)" 0 "?w\<lparr>kern := k0\<rparr>"]
    by (auto simp: initial_world_def restore_def)
  have cs1: "containers w1 = map (restarted (found alive)) cs"
    using metadata_roundtrip_cs [OF ok, of "found alive" 1] w1(2) by simp
  have live1: "\<forall>c \<in> set (containers w1). running c \<longrightarrow> alive (pid c)"
    unfolding cs1 by (auto simp: restarted_def running_def)
  obtain w2 where w2: "poll_states H w1 = Some (Inr (), w2)" "same w1 w2"
    using poll_settled [OF R live1] by blast
  have "\<exists>x w3. (if m > 0 then chain (emit t) (\<lambda>_. chain (log_world H ty msg) (\<lambda>_. succeed 0)) else succeed 0) w2
      = Some (Inr x, w3) \<and> same w2 w3 \<and> x = (0 :: int)" for t ty msg
  proof -
    obtain u w3 where "log_world H ty msg (w2\<lparr>out := out w2 @ t\<rparr>) = Some (Inr u, w3)" "same (w2\<lparr>out := out w2 @ t\<rparr>) w3"
      by (rule steadyE [OF steady_log])
    then show ?thesis by (auto simp: emit_def chain_def same_def)
  qed
  then obtain w3 where "(if m > 0 then chain (emit (''[manager] restored '' @ show_nat m @ '' container record(s) from '' @
        METADATA_FILE @ nl @ nl)) (\<lambda>_. chain (log_world H ''MANAGER'' (''restored '' @ show_nat m @ '' container record(s)''))
        (\<lambda>_. succeed 0)) else succeed 0) w2 = Some (Inr (0 :: int), w3)" "same w2 w3"
    by blast
  with k0 w1(1) w2(1) have "container_manager_init H ?w = Some (Inr 0, w3)"
    by (simp add: container_manager_init_def attempt_def on_kernel_def chain_def initial_world_def)
  moreover have "containers w3 = containers w1" "next_sequence w3 = next_sequence w1"
    using w2(2) \<open>same w2 w3\<close> by (simp_all add: same_def)
  ultimately show ?thesis using cs1 w1(2) by simp
qed

end
