(* ===== verification/Demo_Host.thy ===== *)
theory Demo_Host
  imports Manager_Props Session
begin

text \<open>
  A concrete host, for the witnesses of the properties that span components: it satisfies the
  contracts, a container can be created on it and the metadata can be saved.
\<close>

section \<open>A host for the witnesses\<close>

text \<open>
  Files are texts, there is one stream, and the processes are two sets: those that live and those
  that are stopped.
\<close>

record demo_kernel =
  disk :: "string \<Rightarrow> string option"
  stream :: string
  alive_pids :: "pid set"
  stopped_pids :: "pid set"

definition demo_kill :: "pid \<Rightarrow> int \<Rightarrow> demo_kernel \<Rightarrow> unit result \<times> demo_kernel" where
  "demo_kill p sig k = (Inr (),
     if sig = SIGKILL then k\<lparr>alive_pids := alive_pids k - {p}\<rparr>
     else if sig = SIGSTOP then k\<lparr>stopped_pids := insert p (stopped_pids k)\<rparr>
     else if sig = SIGCONT then k\<lparr>stopped_pids := stopped_pids k - {p}\<rparr> else k)"

definition demo_files :: "demo_kernel file_sys" where
  "demo_files = quiet_fs\<lparr>
     sys_stat := (\<lambda>f. State_Monad.return (Inr \<lparr>st_kind = S_DIR, st_mode = 0\<rparr>)),
     sys_lstat := (\<lambda>f. State_Monad.return (Inr \<lparr>st_kind = S_REG, st_mode = 0\<rparr>)),
     sys_open := (\<lambda>f m. State_Monad.return (Inr 4)), sys_popen := (\<lambda>c. State_Monad.return (Inr 5)),
     sys_realpath := (\<lambda>f. State_Monad.return (if take 6 f = ''./bin/'' then Inl ENOENT else Inr ''/r'')),
     sys_fopen_w := (\<lambda>f. State (\<lambda>k. (Inr 3, k\<lparr>disk := (disk k)(f := Some []), stream := f\<rparr>))),
     sys_fputs := (\<lambda>fd t. State (\<lambda>k. (Inr (), k\<lparr>disk := (disk k)(stream k := map_option (\<lambda>b. b @ t) (disk k (stream k)))\<rparr>)))\<rparr>"

definition demo_procs :: "demo_kernel proc_sys" where
  "demo_procs = quiet_ps\<lparr>sys_kill := (\<lambda>p sig. State (demo_kill p sig)),
     sys_waitpid := (\<lambda>p nohang. State_Monad.return (Inl ECHILD))\<rparr>"

definition demo_host :: "demo_kernel host" where
  "demo_host = \<lparr>files = demo_files, procs = demo_procs, clone_op = (\<lambda>fl a. State_Monad.return (Inr 7)),
     sys_fopen_r = (\<lambda>f. State (\<lambda>k. (case disk k f of None \<Rightarrow> Inl ENOENT | Some t \<Rightarrow> Inr t, k))),
     sys_rename = (\<lambda>a b. State (\<lambda>k. (Inr (), k\<lparr>disk := (disk k)(a := None, b := disk k a)\<rparr>))),
     sys_fopen_log = State_Monad.return False, sys_localtime = State_Monad.return None,
     sys_isatty = (\<lambda>fd. State_Monad.return (Inl 25)), sys_tcsetpgrp = (\<lambda>p. State_Monad.return (Inr ())),
     sys_allocator = State_Monad.return (\<lambda>n. True),
     sys_proc_files = State_Monad.return ((\<lambda>f. Inl ENOENT), []), sys_pagesize = 4096, sys_clk_tck = 100,
     sys_clock_gettime = State_Monad.return (0, 0), sys_nanosleep = (\<lambda>s. State_Monad.return ()),
     sys_sigint = State_Monad.return False, sys_stdin = (\<lambda>n. State_Monad.return (Inr ''sched slice 50'')),
     sys_pthread_create = State_Monad.return True, sys_follow = State_Monad.return (True, []),
     strerror = (\<lambda>e. ''error'')\<rparr>"

definition no_files :: demo_kernel where
  "no_files = \<lparr>disk = (\<lambda>f. None), stream = [], alive_pids = {4242, 9}, stopped_pids = {}\<rparr>"

lemma demo_contracts:
  "clone_contract (clone_op demo_host)" "pause_contract demo_host stopped_pids" "live_contract demo_host alive_pids"
  "disk_contract demo_host disk (\<lambda>k fd. stream k)" "restart_contract demo_host (\<lambda>_. True)"
  by (simp_all add: clone_contract_def yields_def post_def pause_contract_def live_contract_def disk_contract_def
    restart_contract_def demo_host_def demo_procs_def demo_files_def demo_kill_def quiet_fs_def quiet_ps_def split: option.split)

definition demo_world :: "demo_kernel world" where
  "demo_world = (initial_world None no_files)\<lparr>containers := [demo_container], next_sequence := 2\<rparr>"

lemma demo_world_fields: "containers demo_world = [demo_container]" "sched demo_world = g_state" "next_sequence demo_world = 2"
  "kern demo_world = no_files"
  by (simp_all add: demo_world_def initial_world_def)

lemma demo_world_ok: "man_inv demo_world" "tracked alive_pids {9} demo_world" "running_pids (containers demo_world) = [4242]"
proof -
  have "fits demo_container" using demo_container_storable by (simp add: storable_def)
  then show "man_inv demo_world"
    by (simp add: man_inv_def container_ok_def demo_world_fields simple_ops_inv) (simp add: demo_container_def)
  show pids: "running_pids (containers demo_world) = [4242]"
    by (simp add: running_pids_def running_def demo_world_fields demo_container_def)
  show "tracked alive_pids {9} demo_world"
    by (simp add: within_live_def pids demo_world_fields(4)) (simp add: no_files_def)
qed

lemma demo_files_calls [simp]:
  "sys_stat demo_files = (\<lambda>f. State_Monad.return (Inr \<lparr>st_kind = S_DIR, st_mode = 0\<rparr>))"
  "sys_lstat demo_files = (\<lambda>f. State_Monad.return (Inr \<lparr>st_kind = S_REG, st_mode = 0\<rparr>))"
  "sys_open demo_files = (\<lambda>f m. State_Monad.return (Inr 4))" "sys_popen demo_files = (\<lambda>c. State_Monad.return (Inr 5))"
  "sys_realpath demo_files = (\<lambda>f. State_Monad.return (if take 6 f = ''./bin/'' then Inl ENOENT else Inr ''/r''))"
  "sys_read demo_files = (\<lambda>fd n. State_Monad.return (Inr []))" "sys_close demo_files = (\<lambda>fd. State_Monad.return (Inr ()))"
  "sys_fgets demo_files = (\<lambda>fd n. State_Monad.return None)" "sys_pclose demo_files = (\<lambda>fd. State_Monad.return (Inr ()))"
  "sys_fopen_w demo_files f = State (\<lambda>k. (Inr 3, k\<lparr>disk := (disk k)(f := Some []), stream := f\<rparr>))"
  "sys_fputs demo_files fd t = State (\<lambda>k. (Inr (), k\<lparr>disk := (disk k)(stream k := map_option (\<lambda>b. b @ t) (disk k (stream k)))\<rparr>))"
  "sys_fclose demo_files fd = State_Monad.return (Inr ())"
  by (simp_all add: demo_files_def quiet_fs_def)

lemma demo_host_calls [simp]:
  "files demo_host = demo_files" "sys_fopen_log demo_host = State_Monad.return False"
  "sys_localtime demo_host = State_Monad.return None" "sys_malloc (procs demo_host) n = State_Monad.return True"
  "sys_rename demo_host a b = State (\<lambda>k. (Inr (), k\<lparr>disk := (disk k)(a := None, b := disk k a)\<rparr>))"
  by (simp_all add: demo_host_def demo_procs_def quiet_ps_def)

lemma each_unchanged: "(\<And>x. x \<in> set xs \<Longrightarrow> f x k = Some (Inr (), k)) \<Longrightarrow> each f xs k = Some (Inr (), k)"
  by (induction xs) (simp_all add: chain_def)

lemma demo_mkdir: "p \<noteq> [] \<Longrightarrow> length p < PATH_MAX \<Longrightarrow> mkdir_p demo_files (Some p) m k = Some (Inr (), k)"
proof -
  have "ensure_directory demo_files d m k = Some (Inr (), k)" for d
    by (simp add: ensure_directory.simps attempt_def)
  then have "each (\<lambda>d. ensure_directory demo_files d m) ds k = Some (Inr (), k)" for ds
    by (intro each_unchanged)
  then show "p \<noteq> [] \<Longrightarrow> length p < PATH_MAX \<Longrightarrow> mkdir_p demo_files (Some p) m k = Some (Inr (), k)"
    by (simp add: mkdir_p_def)
qed

lemma host_copy: "copy_regular_file demo_files a b k = Some (Inr (), k)"
proof -
  have "copy_file_contents demo_files x y k = Some (Inr (), k)" for x y
    by (simp add: copy_file_contents.simps attempt_def)
  then show ?thesis by (simp add: copy_regular_file_def chain_def attempt_def)
qed

lemma demo_tools: "b \<in> set bootstrap_binaries \<Longrightarrow> copy_path_into_rootfs demo_files ''/r'' b k = Some (Inr (), k)"
  by (auto simp: bootstrap_binaries_def copy_path_into_rootfs.simps chain_def of_result_def path_fits_def path_dirname_def
    Let_def demo_mkdir host_copy)

lemma demo_dependencies: "length b < PATH_MAX \<Longrightarrow> copy_binary_dependencies demo_files r b k = Some (Inr (), k)"
  by (simp add: copy_binary_dependencies_def dependency_loop.simps chain_def attempt_def query_def of_result_def path_fits_def)

lemma demo_prepared:
  assumes "f \<noteq> []" "length f < PATH_MAX" "take 6 f \<noteq> ''./bin/''"
  shows "filesystem_prepare_rootfs demo_files (Some f) 512 k = Some (Inr ''/r'', k)"
proof -
  have "create_layout demo_files ''/r'' k = Some (Inr (), k)"
    unfolding create_layout_def
    by (rule each_unchanged)
       (auto simp: layout_dirs_def OLD_ROOT_DIR_def chain_def of_result_def path_fits_def demo_mkdir)
  moreover have "bootstrap_rootfs_tools demo_files ''/r'' k = Some (Inr (), k)"
    unfolding bootstrap_rootfs_tools_def
    by (rule each_unchanged)
       (simp add: chain_def demo_tools, subst demo_dependencies, auto simp: bootstrap_binaries_def)
  moreover have "bootstrap_rootfs_workloads demo_files ''/r'' k = Some (Inr (), k)"
    unfolding bootstrap_rootfs_workloads_def
    by (rule each_unchanged) (auto simp: bootstrap_workloads_def attempt_def)
  ultimately show ?thesis
    using assms demo_mkdir by (simp add: filesystem_prepare_rootfs_def chain_def of_result_def path_fits_def)
qed

text \<open>Saving, and creating a container with the defaults, succeed on this host.\<close>

lemma demo_write: "\<exists>k. write_lines demo_host fd cs w = Some (Inr (), w\<lparr>kern := k\<rparr>)"
proof (induction cs arbitrary: w)
  case Nil
  show ?case by (intro exI [of _ "kern w"]) simp
next
  case (Cons c cs)
  obtain k1 where "kcall (sys_fputs (files demo_host) fd (metadata_line c)) w = Some (Inr (), w\<lparr>kern := k1\<rparr>)"
    by (simp add: on_kernel_def)
  then show ?case using Cons [of "w\<lparr>kern := k1\<rparr>"] by (simp add: attempt_def)
qed

lemma demo_save: "\<exists>k. save_metadata demo_host w = Some (Inr 0, w\<lparr>kern := k\<rparr>)"
proof -
  obtain k1 where k1: "kcall (sys_fopen_w (files demo_host) METADATA_FILE_TMP) w = Some (Inr 3, w\<lparr>kern := k1\<rparr>)"
    by (simp add: on_kernel_def)
  obtain k2 where k2: "write_lines demo_host 3 (containers w) (w\<lparr>kern := k1\<rparr>) = Some (Inr (), w\<lparr>kern := k2\<rparr>)"
    using demo_write [of 3 "containers w" "w\<lparr>kern := k1\<rparr>"] by auto
  obtain k3 where k3: "kcall (sys_rename demo_host METADATA_FILE_TMP METADATA_FILE) (w\<lparr>kern := k2\<rparr>) = Some (Inr (), w\<lparr>kern := k3\<rparr>)"
    by (simp add: on_kernel_def)
  have "kcall (sys_fclose (files demo_host) 3) v = Some (Inr (), v)" for v :: "demo_kernel world"
    by (simp add: on_kernel_def)
  with k1 k2 k3 have "save_metadata demo_host w = Some (Inr 0, w\<lparr>kern := k3\<rparr>)"
    by (simp del: demo_files_calls demo_host_calls add: save_metadata_def attempt_def chain_def)
  then show ?thesis ..
qed

lemma demo_log: "log_world demo_host ty msg w = Some (Inr (), w)"
  by (simp add: log_world_def chain_def on_kernel_def query_def log_event_type_def log_event_type_va_def)

lemma demo_ids: "container_id_of 1 = ''container-0001''" "container_id_of 2 = ''container-0002''"
proof -
  have "replicate 3 (CHR ''0'') = ''000''" by (simp add: numeral_eq_Suc)
  then show "container_id_of 1 = ''container-0001''" "container_id_of 2 = ''container-0002''"
    by (simp_all add: container_id_of_eq show_int04_def show_int_def show_nat.simps)
qed

lemma demo_number: "scan_container_number (id demo_container) = Some 1"
  using scan_container_id_of [of 1] by (simp add: demo_container_def demo_ids)

lemma demo_create: "\<exists>w'. container_create demo_host None demo_world = Some (Inr (Some ''container-0002''), w')"
proof -
  let ?w = "demo_world\<lparr>next_sequence := 3\<rparr>"
  let ?c = "(new_container None 2)\<lparr>rootfs := ''/r'', pid := -1, state := STATE_CREATED\<rparr>"
  have nid: "id (new_container None 2) = ''container-0002''" by (simp add: new_container_def Let_def demo_ids)
  have "filesystem_prepare_rootfs demo_files (Some (requested_rootfs None ''container-0002'')) 512 no_files
      = Some (Inr ''/r'', no_files)"
    using demo_prepared [of "''./rootfs/container-0002''" no_files]
    by (simp add: requested_rootfs_def given_def snprintf_id)
  moreover have same: "?w\<lparr>kern := no_files\<rparr> = ?w" by (simp add: demo_world_def initial_world_def)
  moreover obtain k where k: "save_metadata demo_host (?w\<lparr>containers := [demo_container, ?c]\<rparr>)
      = Some (Inr 0, ?w\<lparr>containers := [demo_container, ?c], kern := k\<rparr>)"
    using demo_save [of "?w\<lparr>containers := [demo_container, ?c]\<rparr>"] by auto
  moreover from k have "\<exists>w'. enlist demo_host ?c ?w = Some (Inr (Some ''container-0002''), w')"
    by (simp add: enlist_def chain_def append_world_def emit_def demo_log demo_world_fields nid)
  ultimately show ?thesis
    by (simp add: container_create_def create_sequenced_def chain_def attempt_def Let_def on_kernel_def query_def
      demo_world_fields nid cast_int_id same)
qed

end
