(* ===== verification/Workloads.thy ===== *)
theory Workloads
  imports Network Tables
begin

unbundle bit_operations_syntax

text \<open>
  The workload programs that are copied into the containers: \<^verbatim>\<open>src/workload_cpu.c\<close>,
  \<^verbatim>\<open>src/workload_mem.c\<close>, \<^verbatim>\<open>src/workload_fork.c\<close> and \<^verbatim>\<open>src/workload_netcheck.c\<close>. Each \<^verbatim>\<open>main\<close> is a
  program over what the process has printed and the state of the kernel; its value is the exit
  status. The properties say that the programs do what they are used for: burn a given amount
  of processor time and end, ask for the exact number of bytes, start as many children as the
  process limit leaves room for, and report the state of the loopback interface.
\<close>

section \<open>The process and its kernel\<close>

record 'k run =
  printed :: string
  kernel :: 'k

text \<open>
  \<open>work_clock\<close> is the clock of processor time in seconds and nanoseconds, \<open>work_reap\<close> the call
  \<^verbatim>\<open>waitpid(-1, NULL, WNOHANG)\<close>, \<open>work_signal_dfl\<close> sets the default action of a signal.
\<close>

record 'k work_sys =
  work_clock :: "('k, u64 \<times> u64) state"
  work_malloc :: "u64 \<Rightarrow> ('k, unit result) state"
  work_memset :: "u64 \<Rightarrow> ('k, unit) state"
  work_free :: "('k, unit) state"
  work_sleep :: "u32 \<Rightarrow> ('k, unit) state"
  work_getpid :: "('k, pid) state"
  work_fork :: "('k, pid result) state"
  work_signal_dfl :: "int \<Rightarrow> ('k, unit) state"
  work_reap :: "('k, pid result) state"
  work_strerror :: "errno \<Rightarrow> string"

definition in_run :: "('k, 'a) prog \<Rightarrow> ('k run, 'a) prog" where
  "in_run m w = map_option (\<lambda>(r, k). (r, w\<lparr>kernel := k\<rparr>)) (m (kernel w))"

definition say :: "string \<Rightarrow> ('k run, unit) prog" where
  "say s = modify (\<lambda>w. w\<lparr>printed := printed w @ s\<rparr>)"

text \<open>An optional numeric argument: absent or zero, the preset is used.\<close>

definition number_argument :: "string list \<Rightarrow> nat \<Rightarrow> u32 \<Rightarrow> u32" where
  "number_argument argv i preset =
     (if i < length argv then
        let v = cast_uint (strtoul (argv ! i)) in if v = 0 then preset else v
      else preset)"

section \<open>Burning processor time\<close>

definition now_ns :: "'k work_sys \<Rightarrow> ('k run, u64) prog" where
  "now_ns W = chain (in_run (query (work_clock W))) (\<lambda>(tv_sec, tv_nsec). succeed (tv_sec * 1000000000 + tv_nsec))"

definition busy_step :: "u64 \<Rightarrow> u64" where
  "busy_step acc =
     (let a = acc * 1664525 + 1013904223;
          b = a XOR drop_bit 13 a;
          c = b XOR push_bit 7 b
      in c XOR drop_bit 17 c)"

partial_function (option) burn :: "'k work_sys \<Rightarrow> u64 \<Rightarrow> u64 \<Rightarrow> ('k run, u64) prog" where
  "burn W deadline acc w = chain (now_ns W) (\<lambda>t.
     if t < deadline then burn W deadline (busy_step acc) else succeed acc) w"

definition workload_cpu :: "'k work_sys \<Rightarrow> string list \<Rightarrow> ('k run, int) prog" where
  "workload_cpu W argv =
     (let seconds = number_argument argv 1 60 in
      chain (now_ns W) (\<lambda>t.
      chain (burn W (t + ucast seconds * 1000000000) 0) (\<lambda>acc.
      chain (say (''cpu burn done ('' @ show_uint seconds @ '' cpu-s), acc='' @ show_nat (unat acc) @ nl)) (\<lambda>_.
        succeed 0))))"

section \<open>Touching memory\<close>

definition touched_bytes :: "u32 \<Rightarrow> u64" where
  "touched_bytes mb = ucast mb * 1024 * 1024"

definition workload_mem :: "'k work_sys \<Rightarrow> string list \<Rightarrow> ('k run, int) prog" where
  "workload_mem W argv =
     (let mb = number_argument argv 1 512; bytes = touched_bytes mb in
      attempt (in_run (call (work_malloc W bytes))) (\<lambda>r. case r of
        Inl e \<Rightarrow> chain (say (''malloc('' @ show_uint mb @ ''MB) failed: '' @ work_strerror W e @ nl)) (\<lambda>_. succeed 1)
      | Inr _ \<Rightarrow>
          chain (in_run (query (work_memset W bytes))) (\<lambda>_.
          chain (in_run (query (work_getpid W))) (\<lambda>p.
          chain (say (''allocated and touched '' @ show_uint mb @ ''MB; pid='' @ show_int p @ nl)) (\<lambda>_.
          chain (in_run (query (work_sleep W 60))) (\<lambda>_.
          chain (in_run (query (work_free W))) (\<lambda>_.
            succeed 0)))))))"

section \<open>Starting children\<close>

abbreviation (input) SIGINT :: int where "SIGINT \<equiv> 2"
abbreviation (input) SIGTERM :: int where "SIGTERM \<equiv> 15"

text \<open>
  The loop with \<open>n\<close> rounds to go: \<^const>\<open>None\<close> in a child, which sleeps and leaves by \<^verbatim>\<open>_exit(0)\<close>,
  otherwise the number of children started.
\<close>

fun fork_loop :: "'k work_sys \<Rightarrow> u32 \<Rightarrow> nat \<Rightarrow> u32 \<Rightarrow> ('k run, u32 option) prog" where
  "fork_loop W sleep_seconds 0 started = succeed (Some started)"
| "fork_loop W sleep_seconds (Suc n) started =
     attempt (in_run (call (work_fork W))) (\<lambda>r. case r of
       Inl e \<Rightarrow>
         chain (say (''fork failed after '' @ show_uint started @ '' children: '' @ work_strerror W e @ nl)) (\<lambda>_.
           succeed (Some started))
     | Inr p \<Rightarrow>
         if p = 0 then
           chain (in_run (query (work_signal_dfl W SIGTERM))) (\<lambda>_.
           chain (in_run (query (work_signal_dfl W SIGINT))) (\<lambda>_.
           chain (in_run (query (work_sleep W sleep_seconds))) (\<lambda>_. succeed None)))
         else fork_loop W sleep_seconds n (started + 1))"

partial_function (option) reap_loop :: "'k work_sys \<Rightarrow> ('k run, unit) prog" where
  "reap_loop W w = attempt (in_run (call (work_reap W))) (\<lambda>r. case r of
     Inl e \<Rightarrow> succeed ()
   | Inr p \<Rightarrow> if p > 0 then reap_loop W else succeed ()) w"

definition workload_fork :: "'k work_sys \<Rightarrow> string list \<Rightarrow> ('k run, int) prog" where
  "workload_fork W argv =
     (let count = number_argument argv 1 128; sleep_seconds = number_argument argv 2 60 in
      chain (fork_loop W sleep_seconds (unat count) 0) (\<lambda>r. case r of
        None \<Rightarrow> succeed 0
      | Some started \<Rightarrow>
          chain (in_run (query (work_getpid W))) (\<lambda>p.
          chain (say (''started '' @ show_uint started @ ''/'' @ show_uint count @ '' children; parent pid='' @
            show_int p @ nl)) (\<lambda>_.
          chain (in_run (query (work_sleep W sleep_seconds))) (\<lambda>_.
          chain (reap_loop W) (\<lambda>_. succeed 0))))))"

section \<open>Reporting the network\<close>

definition hex_digit :: "nat \<Rightarrow> char" where
  "hex_digit d = (if d < 10 then char_of (48 + d) else char_of (87 + d))"

fun show_hex :: "nat \<Rightarrow> string" where
  "show_hex n = (if n < 16 then [hex_digit n] else show_hex (n div 16) @ [hex_digit (n mod 16)])"

declare show_hex.simps [simp del]

definition print_netns_id :: "'k file_sys \<Rightarrow> 'k work_sys \<Rightarrow> ('k run, unit) prog" where
  "print_netns_id F W = attempt (in_run (call (sys_readlink F ''/proc/self/ns/net'' 255))) (\<lambda>r. case r of
     Inl e \<Rightarrow> say (''netns: readlink failed: '' @ work_strerror W e @ nl)
   | Inr buf \<Rightarrow> say (''netns: '' @ buf @ nl))"

definition yes_no :: "bool \<Rightarrow> string" where
  "yes_no b = (if b then ''yes'' else ''no'')"

definition lo_report :: "16 word \<Rightarrow> string" where
  "lo_report f = ''lo: flags=0x'' @ show_hex (unat f) @ '' UP='' @ yes_no (f AND IFF_UP \<noteq> 0) @
     '' RUNNING='' @ yes_no (f AND IFF_RUNNING \<noteq> 0) @ nl"

definition print_lo_flags :: "'k net_sys \<Rightarrow> 'k work_sys \<Rightarrow> ('k run, unit) prog" where
  "print_lo_flags N W = attempt (in_run (call (sys_socket N))) (\<lambda>s. case s of
     Inl e \<Rightarrow> say (''lo: socket failed: '' @ work_strerror W e @ nl)
   | Inr fd \<Rightarrow>
       attempt (in_run (call (sys_getifflags N fd (snprintf IFNAMSIZ ''lo'')))) (\<lambda>g. case g of
         Inl saved \<Rightarrow>
           chain (in_run (closing N fd)) (\<lambda>_.
             say (''lo: SIOCGIFFLAGS failed: '' @ work_strerror W saved @ nl))
       | Inr ifr_flags \<Rightarrow>
           chain (say (lo_report ifr_flags)) (\<lambda>_. in_run (closing N fd))))"

definition workload_netcheck ::
    "'k file_sys \<Rightarrow> 'k net_sys \<Rightarrow> 'k work_sys \<Rightarrow> string list \<Rightarrow> ('k run, int) prog" where
  "workload_netcheck F N W argv =
     chain (print_netns_id F W) (\<lambda>_.
     chain (print_lo_flags N W) (\<lambda>_.
       if 1 < length argv then
         (let seconds = cast_uint (strtoul (argv ! 1)) in
          if 0 < seconds then chain (in_run (query (work_sleep W seconds))) (\<lambda>_. succeed 0) else succeed 0)
       else succeed 0))"

section \<open>Running\<close>

lemma in_run_query: "run_state m (kernel w) = (x, k) \<Longrightarrow> in_run (query m) w = Some (Inr x, w\<lparr>kernel := k\<rparr>)"
  by (simp add: in_run_def query_def)

lemma in_run_call: "run_state m (kernel w) = (r, k) \<Longrightarrow> in_run (call m) w = Some (r, w\<lparr>kernel := k\<rparr>)"
  by (simp add: in_run_def)

section \<open>The memory workload\<close>

lemma touched_bytes_exact: "unat (touched_bytes mb) = unat mb * 2 ^ 20"
proof -
  have "unat mb < 4294967296" using unsigned_less [of mb, where 'a = nat] by simp
  then show ?thesis by (simp add: touched_bytes_def unat_word_ariths unsigned_ucast_eq take_bit_eq_mod)
qed

section \<open>The processor workload\<close>

text \<open>
  \<open>time k\<close>: the processor time used so far in nanoseconds. Reading the clock gives the time and
  takes time itself, at most a second.
\<close>

definition clock_contract :: "'k work_sys \<Rightarrow> ('k \<Rightarrow> nat) \<Rightarrow> bool" where
  "clock_contract W time \<longleftrightarrow> (\<forall>k s n k'. run_state (work_clock W) k = ((s, n), k') \<longrightarrow>
     s * 1000000000 + n = of_nat (time k) \<and> time k < time k' \<and> time k' \<le> time k + 1000000000)"

lemma clock_read:
  assumes "clock_contract W time"
  shows "\<exists>k. now_ns W w = Some (Inr (of_nat (time (kernel w))), w\<lparr>kernel := k\<rparr>)
    \<and> time (kernel w) < time k \<and> time k \<le> time (kernel w) + 1000000000"
proof -
  obtain s n k where r: "run_state (work_clock W) (kernel w) = ((s, n), k)" by (metis surj_pair)
  from assms r have "s * 1000000000 + n = of_nat (time (kernel w))" "time (kernel w) < time k \<and> time k \<le> time (kernel w) + 1000000000"
    by (auto simp: clock_contract_def)
  then show ?thesis using in_run_query [OF r] by (auto simp: now_ns_def chain_def)
qed

text \<open>The loop ends at the first reading at or after the deadline.\<close>

lemma burn_ends:
  assumes W: "clock_contract W time" and d: "unat deadline < 2 ^ 63"
  shows "time (kernel w) < 2 ^ 63 + 1000000000 \<Longrightarrow> \<exists>n k. burn W deadline acc w = Some (Inr ((busy_step ^^ n) acc), w\<lparr>kernel := k\<rparr>)
    \<and> unat deadline < time k"
proof (induction "2 ^ 63 - time (kernel w)" arbitrary: w acc rule: less_induct)
  case less
  let ?t = "time (kernel w)"
  have t: "unat (of_nat ?t :: u64) = ?t" using less.prems by (simp add: unat_of_nat)
  obtain k1 where k1: "now_ns W w = Some (Inr (of_nat ?t), w\<lparr>kernel := k1\<rparr>)"
    and adv: "?t < time k1" "time k1 \<le> ?t + 1000000000"
    using clock_read [OF W, of w] by blast
  show ?case
  proof (cases "of_nat ?t < deadline")
    case True
    then have lt: "?t < unat deadline" using t by (simp add: word_less_nat_alt)
    then have "2 ^ 63 - time k1 < 2 ^ 63 - ?t" "time k1 < 2 ^ 63 + 1000000000" using adv d by simp_all
    then obtain n k where "burn W deadline (busy_step acc) (w\<lparr>kernel := k1\<rparr>) = Some (Inr ((busy_step ^^ n) (busy_step acc)), w\<lparr>kernel := k\<rparr>)"
      "unat deadline < time k"
      using less.hyps [of "w\<lparr>kernel := k1\<rparr>" "busy_step acc"] by auto
    then show ?thesis using True k1
      by (intro exI [of _ "Suc n"] exI [of _ k]) (simp add: burn.simps [of W deadline acc] chain_def funpow_Suc_right del: funpow.simps)
  next
    case False
    then have "unat deadline \<le> ?t" using t by (simp add: word_less_nat_alt)
    with False k1 adv show ?thesis
      by (intro exI [of _ 0] exI [of _ k1]) (simp add: burn.simps [of W deadline acc] chain_def)
  qed
qed

text \<open>
  The processor workload ends, with status 0, after it has used at least the processor seconds
  its argument asks for, and reports the result of that many steps of busy work as it made.
\<close>

theorem cpu_workload_ends:
  assumes "clock_contract W time" and "time (kernel w) < 2 ^ 62"
  shows "\<exists>n w'. workload_cpu W argv w = Some (Inr 0, w')
    \<and> time (kernel w) + unat (number_argument argv 1 60) * 10 ^ 9 \<le> time (kernel w')
    \<and> printed w' = printed w @ ''cpu burn done ('' @ show_uint (number_argument argv 1 60) @ '' cpu-s), acc='' @
        show_nat (unat ((busy_step ^^ n) 0)) @ nl"
proof -
  let ?t = "time (kernel w)" and ?s = "number_argument argv 1 60"
  let ?d = "of_nat ?t + ucast ?s * 1000000000 :: u64"
  have "unat ?s < 4294967296" using unsigned_less [of ?s, where 'a = nat] by simp
  then have bound: "?t + unat ?s * 1000000000 < 2 ^ 63" using assms(2) by simp
  then have d: "unat ?d = ?t + unat ?s * 1000000000"
    by (simp add: unat_word_ariths unat_of_nat unsigned_ucast_eq take_bit_eq_mod)
  obtain k1 where k1: "now_ns W w = Some (Inr (of_nat ?t), w\<lparr>kernel := k1\<rparr>)" "time k1 \<le> ?t + 1000000000"
    using clock_read [OF assms(1), of w] by blast
  obtain n k where "burn W ?d 0 (w\<lparr>kernel := k1\<rparr>) = Some (Inr ((busy_step ^^ n) 0), w\<lparr>kernel := k\<rparr>)" "unat ?d < time k"
    using burn_ends [OF assms(1), of ?d "w\<lparr>kernel := k1\<rparr>" 0] k1(2) assms(2) bound unfolding d by auto
  with k1(1) d show ?thesis
    by (intro exI [of _ n]) (simp add: workload_cpu_def Let_def chain_def say_def)
qed

text \<open>A kernel that does little; a clock that moves a second with every reading and a limit on processes.\<close>

definition quiet_work :: "'k work_sys" where
  "quiet_work = \<lparr>work_clock = State_Monad.return (0, 0), work_malloc = (\<lambda>n. State_Monad.return (Inr ())),
     work_memset = (\<lambda>n. State_Monad.return ()), work_free = State_Monad.return (), work_sleep = (\<lambda>s. State_Monad.return ()),
     work_getpid = State_Monad.return 1, work_fork = State_Monad.return (Inl EAGAIN),
     work_signal_dfl = (\<lambda>s. State_Monad.return ()), work_reap = State_Monad.return (Inr 0), work_strerror = (\<lambda>e. ''limit'')\<rparr>"

definition tick_sys :: "nat work_sys" where
  "tick_sys = quiet_work\<lparr>work_clock := State (\<lambda>k. ((0, of_nat k), k + 1000000000)),
     work_fork := State (\<lambda>k. if 0 < k then (Inr 2, k - 1) else (Inl EAGAIN, k))\<rparr>"

theorem cpu_workload_ends_witness:
  "\<exists>w'. workload_cpu tick_sys [] \<lparr>printed = [], kernel = 0\<rparr> = Some (Inr 0, w') \<and> 60000000000 \<le> kernel w'"
proof -
  have "clock_contract tick_sys (\<lambda>k. k)" by (simp add: clock_contract_def tick_sys_def quiet_work_def)
  from cpu_workload_ends [OF this, of "\<lparr>printed = [], kernel = 0\<rparr>" "[]"] show ?thesis
    by (auto simp: number_argument_def)
qed

section \<open>The fork workload\<close>

text \<open>
  \<open>room k\<close>: how many more processes the limit allows; \<open>zombies k\<close>: how many children wait to be
  reaped. The parent of a fork sees the child's pid, or an error when there is no room.
\<close>

definition fork_contract :: "'k work_sys \<Rightarrow> ('k \<Rightarrow> nat) \<Rightarrow> ('k \<Rightarrow> nat) \<Rightarrow> bool" where
  "fork_contract W room zombies \<longleftrightarrow>
     (\<forall>k r k'. run_state (work_fork W) k = (r, k') \<longrightarrow>
        (if 0 < room k then (\<exists>p > 0. r = Inr p) \<and> room k' = room k - 1 else r = Inl EAGAIN \<and> room k' = room k)) \<and>
     (\<forall>k p k'. run_state (work_reap W) k = (Inr p, k') \<longrightarrow> 0 < p \<longrightarrow> zombies k' < zombies k)"

definition fork_refused :: "'k work_sys \<Rightarrow> nat \<Rightarrow> string" where
  "fork_refused W started = ''fork failed after '' @ show_nat started @ '' children: '' @ work_strerror W EAGAIN @ nl"

lemma fork_loop_effect:
  assumes W: "fork_contract W room zombies"
  shows "s + n < 2 ^ 32 \<Longrightarrow> \<exists>k. fork_loop W secs n (of_nat s) w =
    Some (Inr (Some (of_nat (s + min n (room (kernel w))))),
      w\<lparr>printed := printed w @ (if room (kernel w) < n then fork_refused W (s + room (kernel w)) else []), kernel := k\<rparr>)"
proof (induction n arbitrary: s w)
  case 0
  show ?case by (intro exI [of _ "kernel w"]) simp
next
  case (Suc n)
  obtain r k where r: "run_state (work_fork W) (kernel w) = (r, k)" by (rule prod.exhaust)
  have con: "if 0 < room (kernel w) then (\<exists>p > 0. r = Inr p) \<and> room k = room (kernel w) - 1 else r = Inl EAGAIN \<and> room k = room (kernel w)"
    using W r by (auto simp: fork_contract_def)
  show ?case
  proof (cases "0 < room (kernel w)")
    case True
    then obtain p where p: "p > 0" "r = Inr p" and k: "room k = room (kernel w) - 1" using con by auto
    have "fork_loop W secs (Suc n) (of_nat s) w = fork_loop W secs n (of_nat (Suc s)) (w\<lparr>kernel := k\<rparr>)"
      using p in_run_call [OF r] by (simp add: attempt_def add.commute)
    moreover have eqs: "Suc s + min n (room k) = s + min (Suc n) (room (kernel w))" "room k < n \<longleftrightarrow> room (kernel w) < Suc n"
      "Suc s + room k = s + room (kernel w)"
      using True k by auto
    moreover have "\<exists>k'. fork_loop W secs n (of_nat (Suc s)) (w\<lparr>kernel := k\<rparr>) = Some (Inr (Some (of_nat (Suc s + min n (room k)))),
        w\<lparr>printed := printed w @ (if room k < n then fork_refused W (Suc s + room k) else []), kernel := k'\<rparr>)"
    proof -
      have "Suc s + n < 2 ^ 32" using Suc.prems by simp
      moreover have "kernel (w\<lparr>kernel := k\<rparr>) = k" "printed (w\<lparr>kernel := k\<rparr>) = printed w"
        "w\<lparr>kernel := k, printed := x, kernel := y\<rparr> = w\<lparr>printed := x, kernel := y\<rparr>" for x y by simp_all
      ultimately show ?thesis using Suc.IH [of "Suc s" "w\<lparr>kernel := k\<rparr>"] by (simp only:)
    qed
    ultimately show ?thesis unfolding eqs by (simp only:)
  next
    case False
    then have "r = Inl EAGAIN" using con by simp
    then show ?thesis using False Suc.prems in_run_call [OF r]
      by (intro exI [of _ k]) (simp add: attempt_def chain_def say_def fork_refused_def show_uint_def unat_of_nat)
  qed
qed

lemma reap_loop_ends:
  assumes W: "fork_contract W room zombies" shows "\<exists>k. reap_loop W w = Some (Inr (), w\<lparr>kernel := k\<rparr>)"
proof (induction "zombies (kernel w)" arbitrary: w rule: less_induct)
  case less
  obtain r k where r: "run_state (work_reap W) (kernel w) = (r, k)" by (rule prod.exhaust)
  show ?case
  proof (cases "\<exists>p > 0. r = Inr p")
    case True
    then obtain p where p: "p > 0" "r = Inr p" by blast
    then have "zombies k < zombies (kernel w)" using W r by (auto simp: fork_contract_def)
    with less [of "w\<lparr>kernel := k\<rparr>"] p in_run_call [OF r] show ?thesis
      by (subst reap_loop.simps) (simp add: attempt_def)
  next
    case False
    with in_run_call [OF r] show ?thesis
      by (subst reap_loop.simps) (cases r; auto simp: attempt_def)
  qed
qed

text \<open>
  (C19) The fork workload ends and measures the process limit: it reports exactly as many children as
  it was asked for or as the limit leaves room for, whichever is less, and says that a fork failed
  only when the limit was reached first.
\<close>

theorem fork_workload_counts:
  assumes "fork_contract W room zombies"
  shows "\<exists>p w'. workload_fork W argv w = Some (Inr 0, w') \<and> printed w' = printed w @
    (if room (kernel w) < unat (number_argument argv 1 128) then fork_refused W (room (kernel w)) else []) @
    ''started '' @ show_nat (min (unat (number_argument argv 1 128)) (room (kernel w))) @ ''/'' @
    show_uint (number_argument argv 1 128) @ '' children; parent pid='' @ show_int p @ nl"
proof -
  let ?c = "number_argument argv 1 128" and ?secs = "number_argument argv 2 60"
  let ?m = "min (unat ?c) (room (kernel w))"
  have c: "unat ?c < 4294967296" using unsigned_less [of ?c, where 'a = nat] by simp
  then have m: "unat (of_nat ?m :: u32) = ?m" by (simp add: unat_of_nat)
  obtain k where loop: "fork_loop W ?secs (unat ?c) 0 w = Some (Inr (Some (of_nat ?m)),
      w\<lparr>printed := printed w @ (if room (kernel w) < unat ?c then fork_refused W (room (kernel w)) else []), kernel := k\<rparr>)"
    using fork_loop_effect [OF assms, of 0 "unat ?c" ?secs w, unfolded add_0 of_nat_0] c by (simp del: of_nat_Suc) blast
  obtain p k1 where p: "run_state (work_getpid W) k = (p, k1)" by (rule prod.exhaust)
  obtain x k2 where x: "run_state (work_sleep W ?secs) k1 = (x, k2)" by (rule prod.exhaust)
  obtain g where "\<And>w. reap_loop W w = Some (Inr (), w\<lparr>kernel := g w\<rparr>)" using reap_loop_ends [OF assms] by metis
  then show ?thesis
    using loop p x m
    by (intro exI [of _ p]) (simp add: workload_fork_def Let_def chain_def say_def in_run_def query_def show_uint_def)
qed

theorem fork_workload_counts_witness:
  "\<exists>p w'. workload_fork tick_sys [''fork'', ''5''] \<lparr>printed = [], kernel = 3\<rparr> = Some (Inr 0, w')
    \<and> printed w' = fork_refused tick_sys 3 @ ''started 3/5 children; parent pid='' @ show_int p @ nl"
proof -
  have "fork_contract tick_sys (\<lambda>k. k) (\<lambda>k. k)" by (simp add: fork_contract_def tick_sys_def quiet_work_def)
  moreover have "number_argument [''fork'', ''5''] 1 128 = 5"
    by (simp add: number_argument_def strtoul_def number_prefix_def isspace_def isdigit_def read_digits_def digit_val_def cast_uint_def)
  moreover have "show_nat 3 = ''3''" "show_uint 5 = ''5''" by (simp_all add: show_uint_def show_nat.simps)
  ultimately show ?thesis
    using fork_workload_counts [of tick_sys "\<lambda>k. k" "\<lambda>k. k" "[''fork'', ''5'']" "\<lparr>printed = [], kernel = 3\<rparr>"] by simp
qed

section \<open>The network check\<close>

text \<open>
  The set-up of the container's network and the check inside the container agree: once the loopback
  interface was brought up, the check reports it as up and running.
\<close>

lemma lo_report_up: "lo_report (f OR IFF_UP OR IFF_RUNNING) = ''lo: flags=0x'' @ show_hex (unat (f OR IFF_UP OR IFF_RUNNING)) @
    '' UP=yes RUNNING=yes'' @ nl"
proof -
  have "bit ((f OR 1 OR 64) AND 1) 0" "bit ((f OR 1 OR 64) AND 64) 6"
    by (simp_all add: bit_simps)
  then have "(f OR 1 OR 64) AND 1 \<noteq> 0" "(f OR 1 OR 64) AND 64 \<noteq> 0" by auto
  then show ?thesis by (simp add: lo_report_def yes_no_def)
qed

lemma lo_flags_effect:
  assumes N: "net_contract N socks flags"
  shows "\<exists>t k. print_lo_flags N W w = Some (Inr (), w\<lparr>printed := printed w @ t, kernel := k\<rparr>) \<and> socks k = socks (kernel w)
    \<and> (t = lo_report (flags (kernel w) ''lo'') \<or> (\<exists>e. t = ''lo: socket failed: '' @ work_strerror W e @ nl)
       \<or> (\<exists>e. t = ''lo: SIOCGIFFLAGS failed: '' @ work_strerror W e @ nl))"
proof -
  obtain r1 k1 where 1: "run_state (sys_socket N) (kernel w) = (r1, k1)" by (rule prod.exhaust)
  note one = net_contractD(1) [OF N 1]
  have lo: "snprintf 16 ''lo'' = ''lo''" by (simp add: snprintf_def)
  show ?thesis
  proof (cases r1)
    case (Inl e)
    then have "socks k1 = socks (kernel w)" using one by simp
    with Inl 1 show ?thesis
      by (intro exI [of _ "''lo: socket failed: '' @ work_strerror W e @ nl"] exI [of _ k1])
         (auto simp: print_lo_flags_def attempt_def in_run_def say_def)
  next
    case (Inr fd)
    obtain r2 k2 where 2: "run_state (sys_getifflags N fd ''lo'') k1 = (r2, k2)" by (rule prod.exhaust)
    obtain x k3 where 3: "run_state (sys_sockclose N fd) k2 = (x, k3)" by (rule prod.exhaust)
    have "socks k3 = socks (kernel w)" and flags: "\<And>f. r2 = Inr f \<Longrightarrow> f = flags (kernel w) ''lo''"
      using one Inr net_contractD(2) [OF N 2] net_contractD(4) [OF N 3] by auto
    with 1 2 3 Inr lo show ?thesis
      by (cases r2; intro exI [of _ "case r2 of Inl e \<Rightarrow> ''lo: SIOCGIFFLAGS failed: '' @ work_strerror W e @ nl | Inr f \<Rightarrow> lo_report f"]
            exI [of _ k3])
         (auto simp: print_lo_flags_def attempt_def chain_def in_run_def query_def say_def closing_def)
  qed
qed

text \<open>
  (C20) The set-up of a container's network and the check run inside agree: after the loopback interface
  was brought up, the check leaves no socket open and reports the interface as up and running, or
  says which call it could not make.
\<close>

theorem netcheck_sees_loopback:
  assumes "net_contract N socks flags" and "network_setup_loopback N k = Some (Inr (), k')"
  shows "\<exists>t k''. print_lo_flags N W \<lparr>printed = p, kernel = k'\<rparr> = Some (Inr (), \<lparr>printed = p @ t, kernel = k''\<rparr>)
    \<and> socks k'' = socks k
    \<and> ((\<exists>f. t = ''lo: flags=0x'' @ show_hex f @ '' UP=yes RUNNING=yes'' @ nl)
       \<or> (\<exists>e. t = ''lo: socket failed: '' @ work_strerror W e @ nl)
       \<or> (\<exists>e. t = ''lo: SIOCGIFFLAGS failed: '' @ work_strerror W e @ nl))"
proof -
  have "socks k' = socks k" "flags k' ''lo'' = flags k ''lo'' OR IFF_UP OR IFF_RUNNING"
    using loopback_effect [OF assms(1), of k] assms(2) by simp_all
  then have "lo_report (flags k' ''lo'') = ''lo: flags=0x'' @ show_hex (unat (flags k' ''lo'')) @ '' UP=yes RUNNING=yes'' @ nl"
    and "socks k' = socks k"
    by (simp_all only: lo_report_up)
  moreover obtain t k'' where "print_lo_flags N W \<lparr>printed = p, kernel = k'\<rparr> = Some (Inr (), \<lparr>printed = p @ t, kernel = k''\<rparr>)"
    "socks k'' = socks k'" "t = lo_report (flags k' ''lo'') \<or> (\<exists>e. t = ''lo: socket failed: '' @ work_strerror W e @ nl)
       \<or> (\<exists>e. t = ''lo: SIOCGIFFLAGS failed: '' @ work_strerror W e @ nl)"
    using lo_flags_effect [OF assms(1), of W "\<lparr>printed = p, kernel = k'\<rparr>"] by auto
  ultimately show ?thesis by metis
qed

theorem netcheck_sees_loopback_witness:
  "\<exists>w'. print_lo_flags small_net quiet_work \<lparr>printed = [], kernel = ({}, (\<lambda>_. 0)(''lo'' := 65))\<rparr> = Some (Inr (), w')
    \<and> fst (kernel w') = {}"
proof -
  have c: "net_contract small_net fst snd" by (auto simp: net_contract_def small_net_def split: if_splits)
  have "network_setup_loopback small_net ({}, (\<lambda>_. 0)) = Some (Inr (), ({}, (\<lambda>_. 0)(''lo'' := 65)))"
    by (simp add: network_setup_loopback_def prog_defs closing_def Let_def small_net_def snprintf_def)
  from netcheck_sees_loopback [OF c this, of quiet_work "[]"] show ?thesis by auto
qed

end
