(* ===== verification/Spec2Isabelle.thy ===== *)
theory Spec2Isabelle
  imports Sched_Threads Manager_List Cli_Props Demo_Host Workloads
begin

text \<open>
  A verification development for the container runtime in \<^verbatim>\<open>src/\<close>: an interactive program that
  creates, starts, schedules, observes and removes Linux containers.

  \<^bold>\<open>The program and its parts.\<close> \<^verbatim>\<open>main.c\<close> reads command lines and calls the container manager
  (\<^verbatim>\<open>container.c\<close>), the scheduler (\<^verbatim>\<open>scheduler.c\<close>) and the logger (\<^verbatim>\<open>logger.c\<close>). The manager
  keeps a list of containers and a metadata file that survives the program. To create a container it
  has the file system part (\<^verbatim>\<open>filesystem.c\<close>) prepare a root; to start one it has \<^verbatim>\<open>namespace.c\<close>
  clone a child, which isolates its root, brings up its network (\<^verbatim>\<open>network.c\<close>), lowers its limits
  (\<^verbatim>\<open>resource.c\<close>) and executes the command. The scheduler thread stops and resumes the running
  containers in turn. The monitor (\<^verbatim>\<open>monitor.c\<close>) reads statistics from \<^verbatim>\<open>/proc\<close>. The four
  workloads (\<^verbatim>\<open>workload_*.c\<close>) are programs to run in containers.

  \<^bold>\<open>How the code is modelled.\<close> A definition has the name of the C function or type it translates.
  Structs are records, enumerations are datatypes, \<^verbatim>\<open>unsigned\<close> types are words of their width, \<^verbatim>\<open>int\<close> and
  \<^verbatim>\<open>pid_t\<close> are integers with the wrap-around written out where it matters, and texts are lists of bytes cut
  to their buffers. The kernel and the C library's system calls are not under \<^verbatim>\<open>src/\<close>: they are records of
  operations on a kernel state of any type (theory \<open>Kernel\<close>), nothing is assumed of them in a
  definition, and a theorem that relies on documented behaviour has it as a named hypothesis, a
  \<^emph>\<open>contract\<close>, which the witnesses show to hold for a concrete kernel. A function that calls the
  kernel is a program (theory \<open>Prog\<close>): a function from the state to its outcome and the state it
  leaves, where \<^term>\<open>Inl e\<close> is a return of \<open>-1\<close> with \<^verbatim>\<open>errno\<close> set to \<open>e\<close> and \<^const>\<open>None\<close> is a run
  that never ends. Loops over data are total functions; loops that wait or retry are
  \<^theory_text>\<open>partial_function (option)\<close>, so no fuel is used anywhere, and where they end this is proved.

  \<^bold>\<open>The theories.\<close>
  \<^item> \<open>Prelude\<close>, \<open>CString\<close>, \<open>Kernel\<close>, \<open>Prog\<close>: shared types, the string and number functions of C,
    the system calls, and programs with their triples.
  \<^item> \<open>Resource\<close> (\<^verbatim>\<open>resource.c\<close>): limits are only lowered, on every branch, without overflow.
  \<^item> \<open>Scheduler\<close>, \<open>Sched_Threads\<close> (\<^verbatim>\<open>scheduler.c\<close>): the state behind the mutex with its invariant; the
    turn of the thread refines an abstract round robin (locale \<open>round_robin\<close>), the operations
    on targets refine a set (locale \<open>target_set\<close>); the thread's critical sections interleaved with
    the operations of the main thread as a step relation: invariant, fairness, exclusion, the
    end of the thread, and three behaviours that defeat the purpose (a race, a lone target that
    stays stopped, pruning).
  \<^item> \<open>Tables\<close>, \<open>Container\<close>, \<open>Container_List\<close>, \<open>Metadata\<close> (\<^verbatim>\<open>container.c\<close>, \<^verbatim>\<open>container.h\<close> and the tables of
    \<^verbatim>\<open>main.c\<close>): data and printed tables; the linked list in a store of nodes, shown to refine a
    sequence (locale \<open>container_sequence\<close>); the text of the metadata file and its round trip.
  \<^item> \<open>Logger\<close>, \<open>Log_View\<close> (\<^verbatim>\<open>logger.c\<close>): lines parse back, the catalog is a fold over the records of
    each container (locale \<open>event_store\<close>), \<^verbatim>\<open>logs\<close> shows the last matching records, and following a
    growing file shows what reading the final file shows.
  \<^item> \<open>Network\<close> (\<^verbatim>\<open>network.c\<close>); \<open>Filesystem\<close>, \<open>Filesystem_Copy\<close>, \<open>Filesystem_Safety\<close>,
    \<open>Filesystem_Props\<close> (\<^verbatim>\<open>filesystem.c\<close>): complete copies in spite of short writes, no descriptor
    leaks, no change outside the root, no execution outside the new root.
  \<^item> \<open>Namespace\<close>, \<open>Namespace_Props\<close> (\<^verbatim>\<open>namespace.c\<close>): both sides of the start protocol; the parent leaves
    no descriptor and no child behind, the child executes only isolated.
  \<^item> \<open>Monitor\<close> (\<^verbatim>\<open>monitor.c\<close>): \<^verbatim>\<open>/proc/<pid>/stat\<close> is read correctly whatever the command's name.
  \<^item> \<open>Manager\<close>, \<open>Manager_Commands\<close> (\<^verbatim>\<open>container.c\<close>): the globals as the record \<open>world\<close>, every operation
    of the manager as a program on it; a \<^verbatim>\<open>Container *\<close> is a position in the list, which
    \<open>Manager_List\<close> shows to be a correct view of the linked nodes.
  \<^item> \<open>Cli\<close>, \<open>Cli_Props\<close> (\<^verbatim>\<open>main.c\<close>): parsing, all commands, the loop.
  \<^item> \<open>Manager_Inv\<close>, \<open>Session\<close>: the invariant of the world and that every operation keeps it; sessions
    as an inductive set of reachable worlds, with turns of the scheduler thread between commands.
  \<^item> \<open>Manager_Props\<close>: what creating, stopping, saving, restoring, handing over to the scheduler and
    leaving do, under contracts on processes and files.
  \<^item> \<open>Workloads\<close> (\<^verbatim>\<open>workload_*.c\<close>): processor time burnt, bytes asked for, children started, the report
    on the network.
  \<^item> \<open>Demo_Host\<close>: a concrete host for the witnesses of this theory, which holds the properties
    that span components.

  \<^bold>\<open>Bounds.\<close> Buffer sizes are those of the sources. \<^verbatim>\<open>size_t\<close> is 64 bits, \<^verbatim>\<open>int\<close> 32 bits, a record on the
  status pipe twelve bytes, low byte first. The sizes of the structs that are allocated appear only as
  arguments of the allocator.

  \<^bold>\<open>Not modelled.\<close> The kernel itself, the shell scripts and the build. Doubles: processor seconds and
  percentages are exact fractions, printed with the rounding of \<^verbatim>\<open>printf\<close>. The signal handlers that
  \<^verbatim>\<open>move_terminal_foreground\<close> saves and restores, the contents of the memory a workload touches, and the
  buffering of standard output. Parent and child of a start are verified separately against the
  kernel's contract, not as one interleaved system. Reads past the end of a text, which C leaves
  undefined, are a parameter of the reader in \<open>Monitor\<close>.
\<close>

section \<open>Properties of whole sessions\<close>


lemma demo_session:
  "session demo_host ((initial_world None no_files)\<lparr>out := ''container-sim> [manager] scheduler slice set to 50ms'' @ nl @ nl,
     sched := g_state\<lparr>time_slice_ms := 50\<rparr>\<rparr>)"
proof (rule session.command)
  have "container_manager_init demo_host (initial_world None no_files) = Some (Inr 0, initial_world None no_files)"
    by (simp add: container_manager_init_def attempt_def on_kernel_def demo_host_def no_files_def initial_world_def)
  then show "session demo_host (initial_world None no_files)" by (rule session.start)
  have "command_of ''sched slice 50'' = [''sched'', ''slice'', ''50'']"
    by (simp add: command_of_def eval_nat_numeral blank_def is_quote_def)
  moreover have "cast_uint (strtoul ''50'') = 50"
    by (simp add: strtoul_def number_prefix_def isspace_def isdigit_def read_digits_def digit_val_def cast_uint_def)
  moreover have "show_uint 50 = ''50''" by (simp add: show_uint_def show_nat.simps)
  ultimately show "prompt demo_host (initial_world None no_files) = Some (Inr True,
      (initial_world None no_files)\<lparr>out := ''container-sim> [manager] scheduler slice set to 50ms'' @ nl @ nl,
        sched := g_state\<lparr>time_slice_ms := 50\<rparr>\<rparr>)"
    by (simp add: prompt_def execute_def going_on_def cmd_sched_def sched_slice_def slice_text_def log_world_def emit_def
      chain_def attempt_def on_kernel_def query_def demo_host_def initial_world_def scheduler_set_time_slice_ms_def
      scheduler_get_time_slice_ms_def log_event_type_def log_event_type_va_def)
qed


text \<open>
  (C3) Leaving the program ends every container: the clean-up returns, and if before it only the running
  containers and unrelated processes \<open>L\<close> were alive, then afterwards only \<open>L\<close> is; the list is
  empty and the scheduler thread is stopped.
\<close>

theorem exit_ends_containers:
  assumes "live_contract H live" and "man_inv w" and "live (kern w) \<subseteq> L \<union> set (running_pids (containers w))"
  shows "\<exists>w'. cleanup_all_containers H w = Some (Inr (), w') \<and> live (kern w') \<subseteq> L \<and> containers w' = []
    \<and> \<not> thread_started (sched w')"
  using cleanup_effect [OF assms(1,2)] assms(3) by (simp add: within_live_def)

theorem exit_ends_containers_witness:
  "\<exists>w'. cleanup_all_containers demo_host demo_world = Some (Inr (), w') \<and> alive_pids (kern w') \<subseteq> {9}"
  using exit_ends_containers [OF demo_contracts(3) demo_world_ok(1), of "{9}"] demo_world_ok(2)
  by (auto simp: within_live_def)





text \<open>
  (C14) Stopping a running container ends it: on a host where a killed process does not live on, the
  call succeeds, the container is recorded as stopped with no process and no stack, its process is no
  longer a target of the scheduler while the other targets stay, and no process appears.
\<close>

theorem stop_ends_container:
  assumes "live_contract H live" and "man_inv w" and "k < length (containers w)"
    and "state (containers w ! k) = STATE_RUNNING" and "live (kern w) \<subseteq> L \<union> set (running_pids (containers w))"
  shows "\<exists>w'. stop_container_process H k quiet w = Some (Inr 0, w')
    \<and> containers w' = (containers w)[k := mark_stopped (containers w ! k)]
    \<and> set (active (sched w')) = set (active (sched w)) - {pid (containers w ! k)}
    \<and> live (kern w') \<subseteq> L \<union> set (running_pids (containers w'))"
proof -
  obtain w' where w': "stop_container_process H k quiet w = Some (Inr 0, w')"
    "containers w' = (containers w)[k := mark_stopped (containers w ! k)]"
    "set (active (sched w')) = set (active (sched w)) - {pid (containers w ! k)}"
    using live_stop_effect [OF assms(1-4)] by blast
  with postD [OF stop_tracked [OF assms(1)] _ w'(1), of L] assms(5) show ?thesis by (simp add: within_live_def)
qed

theorem stop_ends_container_witness:
  "\<exists>w'. stop_container_process demo_host 0 True demo_world = Some (Inr 0, w')
    \<and> containers w' = [mark_stopped demo_container] \<and> alive_pids (kern w') \<subseteq> {9}"
proof -
  have "state (containers demo_world ! 0) = STATE_RUNNING" by (simp add: demo_world_fields demo_container_def)
  moreover have "running_pids [mark_stopped demo_container] = []" by (simp add: running_pids_def running_def)
  ultimately show ?thesis
    using stop_ends_container [OF demo_contracts(3) demo_world_ok(1), of 0 "{9}" True] demo_world_ok(2)
    by (auto simp: demo_world_fields within_live_def)
qed

text \<open>
  (C15) Handing the containers to the scheduler: after the targets are refreshed, the targets are
  exactly the processes of the running containers. When scheduling is on, all of them are stopped but
  the first, which has the first turn; when it is off, none of them stays stopped.
\<close>

theorem scheduling_hand_over:
  assumes "pause_contract H paused" and "sched_inv (sched w)"
  shows "\<exists>w'. container_scheduler_refresh_targets H w = Some (Inr (), w') \<and> containers w' = containers w
    \<and> set (active (sched w')) = set (running_pids (containers w))
    \<and> (if enabled (sched w)
       then running_pids (containers w) \<noteq> [] \<longrightarrow> paused (kern w') \<inter> set (running_pids (containers w)) =
         set (running_pids (containers w)) - {hd (running_pids (containers w))}
       else paused (kern w') \<inter> set (running_pids (containers w)) = {})"
  using refresh_effect [OF assms] by blast

theorem scheduling_hand_over_witness:
  "\<exists>w'. container_scheduler_refresh_targets demo_host demo_world = Some (Inr (), w')
    \<and> set (active (sched w')) = {4242} \<and> 4242 \<notin> stopped_pids (kern w')"
proof -
  have "\<not> enabled (sched demo_world)" by (simp add: demo_world_fields g_state_def)
  with scheduling_hand_over [OF demo_contracts(2), of demo_world] demo_world_ok(1) show ?thesis
    by (auto simp: man_inv_def demo_world_ok(3))
qed

text \<open>
  Waiting for a container that runs in the foreground, with standard input not a terminal: the
  branch for a process that is already gone is never taken. \<^verbatim>\<open>waitpid\<close> reports \<^verbatim>\<open>ECHILD\<close>, but
  \<^verbatim>\<open>isatty\<close> overwrites \<^verbatim>\<open>errno\<close> before it is tested, so the wait fails and the container stays
  recorded as running, although its process has ended.
\<close>

theorem wait_misses_gone_child:
  assumes tty: "\<And>k. \<exists>e. fst (run_state (sys_isatty H 0) k) = Inl e \<and> e \<noteq> ECHILD"
    and gone: "\<And>k. fst (run_state (sys_waitpid (procs H) (pid (containers w ! i)) False) k) = Inl ECHILD"
    and run: "running (containers w ! i)"
  shows "\<exists>w'. wait_for_container_process H i quiet w = Some (Inr (-1), w') \<and> containers w' = containers w"
proof -
  obtain g k1 where g: "run_state (sys_getpgrp (procs H)) (kern w) = (g, k1)" by (rule prod.exhaust)
  obtain e2 k2 where t: "run_state (sys_isatty H 0) k1 = (Inl e2, k2)" using tty [of k1] by (metis prod.collapse)
  obtain k3 where p: "run_state (sys_waitpid (procs H) (pid (containers w ! i)) False) k2 = (Inl ECHILD, k3)"
    using gone [of k2] by (metis prod.collapse)
  obtain e4 k4 where u: "run_state (sys_isatty H 0) k3 = (Inl e4, k4)" "e4 \<noteq> ECHILD"
    using tty [of k3] by (metis prod.collapse)
  show ?thesis
    using g t p u run
    by (simp add: wait_for_container_process_def move_terminal_foreground_def chain_def attempt_def on_kernel_def query_def
      the_container_def)
qed

theorem wait_misses_gone_child_witness:
  "\<exists>w'. wait_for_container_process demo_host 0 True demo_world = Some (Inr (-1), w')
    \<and> map state (containers w') = [STATE_RUNNING]"
proof -
  have "running (containers demo_world ! 0)" by (simp add: demo_world_fields running_def demo_container_def)
  with wait_misses_gone_child [of demo_host demo_world 0 True] show ?thesis
    by (simp add: demo_host_def demo_procs_def) (auto simp: demo_world_fields demo_container_def)
qed

end
